(* ===== verification/Prelude.thy ===== *)
theory Prelude
  imports Main "HOL-Library.Word" "HOL-Library.List_Lexorder"
begin

text \<open>
  Shared vocabulary of the development: machine integers, byte strings, the
  result type of fallible code, the checked arithmetic of the Rust standard
  library, and the generic facts about lists, maps, words and finite sets that
  the component theories use.

  A Rust \<open>Result<T, E>\<close> is a sum \<open>'e + 'a\<close> with \<open>Inl\<close> for \<open>Err\<close>. The operator
  \<open>?\<close> and \<open>Result::and_then\<close> are \<open>and_then\<close>; \<open>collect::<Result<Vec<_>, _>>()\<close>
  is \<open>collect_results\<close>. A panic is a value of the error side, so a function
  that may panic has the error type \<open>'e failure\<close>.
\<close>

named_theorems result_simps \<open>characterisations of the results of fallible code\<close>
named_theorems byte_simps \<open>lengths and components of byte encodings\<close>

type_synonym u8 = "8 word"
type_synonym u32 = "32 word"
type_synonym u64 = "64 word"
type_synonym bytes = "u8 list"
type_synonym utf8 = "u8 list"

datatype 'e failure = Failed 'e | Panic

section \<open>Results\<close>

fun and_then :: "'e + 'a \<Rightarrow> ('a \<Rightarrow> 'e + 'b) \<Rightarrow> 'e + 'b" where
  "and_then (Inl e) f = Inl e"
| "and_then (Inr x) f = f x"

lemma and_then_Inr_iff [result_simps]:
  "and_then r f = Inr y \<longleftrightarrow> (\<exists>x. r = Inr x \<and> f x = Inr y)"
  by (cases r) auto

lemma and_then_Inl_iff [result_simps]:
  "and_then r f = Inl e \<longleftrightarrow> r = Inl e \<or> (\<exists>x. r = Inr x \<and> f x = Inl e)"
  by (cases r) auto

lemma and_then_cong [fundef_cong]:
  "r = r' \<Longrightarrow> (\<And>x. r' = Inr x \<Longrightarrow> f x = f' x) \<Longrightarrow> and_then r f = and_then r' f'"
  by (cases r') auto

lemma and_then_assoc: "and_then (and_then r f) g = and_then r (\<lambda>x. and_then (f x) g)"
  by (cases r) auto

fun map_err :: "('e \<Rightarrow> 'f) \<Rightarrow> 'e + 'a \<Rightarrow> 'f + 'a" where
  "map_err f (Inl e) = Inl (f e)"
| "map_err f (Inr x) = Inr x"

lemma map_err_Inr_iff [result_simps]: "map_err f r = Inr x \<longleftrightarrow> r = Inr x"
  by (cases r) auto

lemma map_err_Inl_iff [result_simps]: "map_err f r = Inl e \<longleftrightarrow> (\<exists>e'. r = Inl e' \<and> e = f e')"
  by (cases r) auto

fun ok_or :: "'e \<Rightarrow> 'a option \<Rightarrow> 'e + 'a" where
  "ok_or e None = Inl e"
| "ok_or e (Some x) = Inr x"

lemma ok_or_Inr_iff [result_simps]: "ok_or e r = Inr x \<longleftrightarrow> r = Some x"
  by (cases r) auto

lemma ok_or_Inl_iff [result_simps]: "ok_or e r = Inl e' \<longleftrightarrow> r = None \<and> e' = e"
  by (cases r) auto

fun result_ok :: "'e + 'a \<Rightarrow> 'a option" where
  "result_ok (Inl e) = None"
| "result_ok (Inr x) = Some x"

fun collect_results :: "('e + 'a) list \<Rightarrow> 'e + 'a list" where
  "collect_results [] = Inr []"
| "collect_results (r # rs) =
     and_then r (\<lambda>x. and_then (collect_results rs) (\<lambda>xs. Inr (x # xs)))"

lemma collect_results_Inr_iff [result_simps]:
  "collect_results rs = Inr xs \<longleftrightarrow> rs = map Inr xs"
  by (induction rs arbitrary: xs) (auto simp: result_simps map_eq_Cons_conv)

lemma collect_results_map_Inr [simp]: "collect_results (map Inr xs) = Inr xs"
  by (simp add: result_simps)

lemma collect_results_map_ok:
  "(\<And>x. x \<in> set xs \<Longrightarrow> f x = Inr (g x)) \<Longrightarrow> collect_results (map f xs) = Inr (map g xs)"
  by (induction xs) auto

lemma collect_results_first_error:
  "collect_results (map Inr xs @ Inl e # rs) = Inl e"
  by (induction xs) auto

section \<open>Checked arithmetic\<close>

definition checked_sub :: "nat \<Rightarrow> nat \<Rightarrow> nat option" where
  "checked_sub a b = (if b \<le> a then Some (a - b) else None)"

definition checked_add_u64 :: "u64 \<Rightarrow> u64 \<Rightarrow> u64 option" where
  "checked_add_u64 a b = (if unat a + unat b < 2 ^ 64 then Some (a + b) else None)"

lemma checked_sub_le [simp]: "b \<le> a \<Longrightarrow> checked_sub a b = Some (a - b)"
  by (simp add: checked_sub_def)

lemma unat_add_no_overflow:
  "unat (a :: u64) + unat b < 2 ^ 64 \<Longrightarrow> unat (a + b) = unat a + unat b"
  by (simp add: unat_word_ariths)

lemma checked_add_u64_Some:
  "checked_add_u64 a b = Some c \<longleftrightarrow> unat a + unat b < 2 ^ 64 \<and> c = a + b"
  by (auto simp: checked_add_u64_def)

lemma checked_add_u64_None:
  "checked_add_u64 a b = None \<longleftrightarrow> 2 ^ 64 \<le> unat a + unat b"
  by (auto simp: checked_add_u64_def)

section \<open>Big-endian bytes\<close>

definition be_bytes32 :: "u32 \<Rightarrow> bytes" where
  "be_bytes32 w = map (\<lambda>i. ucast (drop_bit (8 * i) w)) [3, 2, 1, 0]"

lemma length_be_bytes32 [simp, byte_simps]: "length (be_bytes32 w) = 4"
  by (simp add: be_bytes32_def)

lemma bit_of_be_chunk:
  assumes "ucast (drop_bit (8 * i) (w :: 'a :: len word)) = (ucast (drop_bit (8 * i) w') :: u8)"
    and "n div 8 = i" and "n < LENGTH('a)"
  shows "bit w n = bit w' n"
proof -
  have n: "n = 8 * i + n mod 8" using assms(2) by (metis mult_div_mod_eq)
  have "bit (ucast (drop_bit (8 * i) w) :: u8) (n mod 8) = bit (ucast (drop_bit (8 * i) w') :: u8) (n mod 8)"
    using assms(1) by simp
  then have "bit w (8 * i + n mod 8) = bit w' (8 * i + n mod 8)"
    by (simp add: bit_simps)
  with n show ?thesis by metis
qed

lemma be_bytes32_inject [simp]: "be_bytes32 w = be_bytes32 w' \<longleftrightarrow> w = w'"
proof
  assume eq: "be_bytes32 w = be_bytes32 w'"
  show "w = w'"
  proof (rule bit_word_eqI)
    fix n assume n: "n < LENGTH(32)"
    then have "n div 8 \<in> {0, 1, 2, 3}" by auto
    then have "ucast (drop_bit (8 * (n div 8)) w) = (ucast (drop_bit (8 * (n div 8)) w') :: u8)"
      using eq by (auto simp: be_bytes32_def)
    then show "bit w n = bit w' n" using n by (intro bit_of_be_chunk [OF _ refl]) auto
  qed
qed simp

definition be_bytes64 :: "u64 \<Rightarrow> bytes" where
  "be_bytes64 w = map (\<lambda>i. ucast (drop_bit (8 * i) w)) [7, 6, 5, 4, 3, 2, 1, 0]"

fun bytes_value :: "bytes \<Rightarrow> nat" where
  "bytes_value [] = 0"
| "bytes_value (b # bs) = unat b * 256 ^ length bs + bytes_value bs"

lemma length_be_bytes64 [simp, byte_simps]: "length (be_bytes64 w) = 8"
  by (simp add: be_bytes64_def)

lemma unat_byte_less: "unat (b :: u8) < 256"
  using unsigned_less [of b, where 'a = nat] by simp

lemma bytes_value_less: "bytes_value bs < 256 ^ length bs"
proof (induction bs)
  case (Cons b bs)
  have "unat b * 256 ^ length bs + bytes_value bs < (unat b + 1) * 256 ^ length bs"
    using Cons.IH by simp
  also have "\<dots> \<le> 256 * 256 ^ length bs"
    using unat_byte_less [of b] by (intro mult_right_mono) auto
  finally show ?case by simp
qed simp

lemma bytes_less_iff:
  "length xs = length ys \<Longrightarrow> xs < ys \<longleftrightarrow> bytes_value xs < bytes_value ys"
proof (induction xs ys rule: list_induct2)
  case (Cons x xs y ys)
  let ?B = "256 ^ length ys :: nat"
  have v: "bytes_value xs < ?B" "bytes_value ys < ?B"
    using bytes_value_less [of xs] bytes_value_less [of ys] Cons.hyps by simp_all
  have *: "a * ?B + bytes_value us < b * ?B + w" if "a < b" "bytes_value us < ?B" for a b w us
  proof -
    have "a * ?B + bytes_value us < (a + 1) * ?B" using that by simp
    also have "\<dots> \<le> b * ?B" using that by (intro mult_right_mono) auto
    finally show ?thesis by simp
  qed
  consider "x < y" | "x = y" | "y < x" by fastforce
  then show ?case
  proof cases
    case 1
    then show ?thesis using * [of "unat x" "unat y" xs] v Cons.hyps by (simp add: word_less_nat_alt)
  next
    case 2
    then show ?thesis using Cons by simp
  next
    case 3
    then show ?thesis using * [of "unat y" "unat x" ys "bytes_value xs"] v Cons.hyps
      by (auto simp: word_less_nat_alt)
  qed
qed simp

lemma unat_byte_of:
  "unat (ucast (drop_bit (8 * i) (w :: u64)) :: u8) = unat w div 256 ^ i mod 256"
proof -
  have "unat (drop_bit (8 * i) w) = drop_bit (8 * i) (unat w)"
    by (simp only: unsigned_drop_bit_eq) (simp add: take_bit_nat_eq_self unsigned_less [of w, where 'a = nat, simplified])
  moreover have "unat (ucast x :: u8) = take_bit 8 (unat x)" for x :: u64
    by (simp add: unsigned_ucast_eq)
  ultimately show ?thesis by (simp add: take_bit_eq_mod drop_bit_eq_div power_mult)
qed

lemma bytes_value_be_chunks:
  "bytes_value (map (\<lambda>i. ucast (drop_bit (8 * i) (w :: u64))) (rev [0..<n])) = unat w mod 256 ^ n"
proof (induction n)
  case (Suc n)
  have "unat w mod 256 ^ Suc n = unat w div 256 ^ n mod 256 * 256 ^ n + unat w mod 256 ^ n"
    using mod_mult2_eq [of "unat w" "256 ^ n" 256] by (simp add: mult.commute)
  with Suc show ?case by (simp add: unat_byte_of del: power_Suc)
qed simp

lemma bytes_value_be_bytes64 [simp]: "bytes_value (be_bytes64 w) = unat w"
proof -
  have "rev [0..<8] = [7, 6, 5, 4, 3, 2, 1, 0 :: nat]" by (simp add: upt_rec)
  then have "bytes_value (be_bytes64 w) = unat w mod 256 ^ 8"
    using bytes_value_be_chunks [of w 8] by (simp only: be_bytes64_def)
  then show ?thesis using unsigned_less [of w, where 'a = nat] by simp
qed

lemma be_bytes64_less_iff [simp]: "be_bytes64 u < be_bytes64 v \<longleftrightarrow> u < v"
  by (simp add: bytes_less_iff word_less_nat_alt)

lemma be_bytes64_inject [simp]: "be_bytes64 u = be_bytes64 v \<longleftrightarrow> u = v"
  by (metis bytes_value_be_bytes64 word_unat_eq_iff)

lemma be_bytes64_le_iff [simp]: "be_bytes64 u \<le> be_bytes64 v \<longleftrightarrow> u \<le> v"
  by (metis be_bytes64_less_iff linorder_not_less)

lemma append_less_iff:
  "length xs = length ys \<Longrightarrow> xs @ us < ys @ vs \<longleftrightarrow> xs < ys \<or> xs = ys \<and> us < vs"
  for xs ys us vs :: "'a :: linorder list"
  by (induction xs ys rule: list_induct2) auto

lemma append_le_iff:
  "length xs = length ys \<Longrightarrow> xs @ us \<le> ys @ vs \<longleftrightarrow> xs < ys \<or> xs = ys \<and> us \<le> vs"
  for xs ys us vs :: "'a :: linorder list"
  by (induction xs ys rule: list_induct2) auto

section \<open>Lists, maps and finite sets\<close>

lemma append_eq_length_conv:
  "length xs = length ys \<Longrightarrow> xs @ us = ys @ vs \<longleftrightarrow> xs = ys \<and> us = vs"
  by (rule append_eq_append_conv) simp

lemma concat_fixed_inject:
  assumes "length xs = length ys"
    and "\<And>x. x \<in> set xs \<Longrightarrow> length (f x) = n" and "\<And>y. y \<in> set ys \<Longrightarrow> length (f y) = n"
    and "concat (map f xs) @ us = concat (map f ys) @ vs"
  shows "map f xs = map f ys \<and> us = vs"
  using assms
proof (induction xs ys rule: list_induct2)
  case Nil
  then show ?case by simp
next
  case (Cons x xs y ys)
  then have "f x @ (concat (map f xs) @ us) = f y @ (concat (map f ys) @ vs)" by simp
  moreover have "length (f x) = length (f y)" using Cons.prems by simp
  ultimately have "f x = f y" "concat (map f xs) @ us = concat (map f ys) @ vs"
    by (simp_all add: append_eq_length_conv)
  with Cons show ?case by simp
qed

lemma card_Diff_remove:
  "finite V \<Longrightarrow> R \<subseteq> V \<Longrightarrow> v \<in> R \<Longrightarrow> card (V - (R - {v})) = Suc (card (V - R))"
proof -
  assume f: "finite V" and s: "R \<subseteq> V" and v: "v \<in> R"
  have "V - (R - {v}) = insert v (V - R)" using s v by auto
  then show ?thesis using f v by simp
qed

lemma card_Diff_complement:
  "finite V \<Longrightarrow> R \<subseteq> V \<Longrightarrow> card V - card R = card (V - R)"
  by (simp add: card_Diff_subset finite_subset)

lemma last_sorted_list_of_set:
  assumes "finite A" and "A \<noteq> {}"
  shows "last (sorted_list_of_set A) = Max A"
proof (rule Max_eqI [symmetric])
  show "finite A" by fact
  have ne: "sorted_list_of_set A \<noteq> []" using assms by simp
  then show "last (sorted_list_of_set A) \<in> A" using last_in_set [OF ne] assms by simp
  fix y assume "y \<in> A"
  then have "y \<in> set (butlast (sorted_list_of_set A) @ [last (sorted_list_of_set A)])"
    using assms ne by simp
  moreover have "sorted (butlast (sorted_list_of_set A) @ [last (sorted_list_of_set A)])"
    using ne by simp
  ultimately show "y \<le> last (sorted_list_of_set A)"
    unfolding sorted_append by auto
qed

lemma map_add_graph:
  assumes "\<And>t. sel (F t) = t"
  shows "(m ++ map_of (rev (map (\<lambda>t. (F t, G t)) ts))) k =
    (if sel k \<in> set ts \<and> k = F (sel k) then Some (G (sel k)) else m k)"
  by (induction ts arbitrary: m) (auto simp: assms map_add_assoc [symmetric] map_add_def split: option.splits)

lemma map_of_rev_distinct:
  assumes "distinct (map fst xs)"
  shows "map_of (rev xs) = map_of xs"
proof
  fix k
  have "distinct (map fst (rev xs))" using assms by (simp add: rev_map [symmetric])
  then have "map_of (rev xs) k = Some v \<longleftrightarrow> map_of xs k = Some v" for v
    using assms by simp
  then show "map_of (rev xs) k = map_of xs k"
    by (metis not_Some_eq)
qed

section \<open>Iteration of hash sets and maps\<close>

text \<open>The order in which a \<open>HashSet\<close> or the keys of a \<open>HashMap\<close> are visited is left open.\<close>

definition hash_iter_laws :: "('a set \<Rightarrow> 'a list) \<Rightarrow> bool" where
  "hash_iter_laws iter \<longleftrightarrow> (\<forall>S. finite S \<longrightarrow> set (iter S) = S \<and> distinct (iter S))"

end
