(* ===== verification/Crypto.thy ===== *)
theory Crypto
  imports Prelude
begin

text \<open>
  The crate \<^verbatim>\<open>topos-crypto\<close>: \<^verbatim>\<open>hash.rs\<close>, \<^verbatim>\<open>keys.rs\<close>, \<^verbatim>\<open>signatures.rs\<close>,
  \<^verbatim>\<open>messages.rs\<close> and \<^verbatim>\<open>validator_id.rs\<close>. The crates it wraps are not part of
  the repository, so they are parameters: the record \<open>hex\<close> stands for the
  \<^verbatim>\<open>hex\<close> crate, the record \<open>secp256k1\<close> for the \<^verbatim>\<open>secp256k1\<close> crate, the record
  \<open>ethers\<close> for the wallet and signature types of the \<^verbatim>\<open>ethers\<close> crate, and an
  argument \<open>keccak\<close> for \<^verbatim>\<open>keccak_hash::keccak_256\<close>. What the code relies on of
  them is named by \<open>hex_laws\<close>, \<open>keccak_laws\<close>, \<open>secp_laws\<close> and \<open>ethers_laws\<close>.
\<close>

section \<open>The wrapped crates\<close>

record hex =
  hex_encode :: "bytes \<Rightarrow> utf8"
  hex_decode :: "utf8 \<Rightarrow> bytes option"

definition hex_laws :: "hex \<Rightarrow> bool" where
  "hex_laws H \<longleftrightarrow>
     (\<forall>b. hex_decode H (hex_encode H b) = Some b) \<and>
     (\<forall>b. length (hex_encode H b) = 2 * length b) \<and>
     (\<forall>s b. hex_decode H s = Some b \<longrightarrow> length s = 2 * length b)"

lemma hex_decode_encode [simp]: "hex_laws H \<Longrightarrow> hex_decode H (hex_encode H b) = Some b"
  by (simp add: hex_laws_def)

lemma length_hex_encode [simp]: "hex_laws H \<Longrightarrow> length (hex_encode H b) = 2 * length b"
  by (simp add: hex_laws_def)

lemma hex_decode_length: "hex_laws H \<Longrightarrow> hex_decode H s = Some b \<Longrightarrow> length s = 2 * length b"
  unfolding hex_laws_def by blast

lemma hex_encode_inject [simp]:
  "hex_laws H \<Longrightarrow> hex_encode H a = hex_encode H b \<longleftrightarrow> a = b"
  by (metis hex_decode_encode option.inject)

record ('sk, 'pk, 'sig, 'msg) secp256k1 =
  SecretKey_from_slice :: "bytes \<Rightarrow> utf8 + 'sk"
  PublicKey_from_slice :: "bytes \<Rightarrow> utf8 + 'pk"
  PublicKey_from_secret_key :: "'sk \<Rightarrow> 'pk"
  PublicKey_serialize :: "'pk \<Rightarrow> bytes"
  Message_from_slice :: "bytes \<Rightarrow> utf8 + 'msg"
  sign_ecdsa :: "'msg \<Rightarrow> 'sk \<Rightarrow> 'sig"
  serialize_compact :: "'sig \<Rightarrow> bytes"
  Signature_from_compact :: "bytes \<Rightarrow> utf8 + 'sig"
  verify_ecdsa :: "'msg \<Rightarrow> 'sig \<Rightarrow> 'pk \<Rightarrow> utf8 + unit"

definition keccak_laws :: "(bytes \<Rightarrow> bytes) \<Rightarrow> bool" where
  "keccak_laws keccak \<longleftrightarrow> (\<forall>d. length (keccak d) = 32)"

definition secp_laws :: "('sk, 'pk, 'sig, 'msg) secp256k1 \<Rightarrow> bool" where
  "secp_laws S \<longleftrightarrow>
     (\<forall>pk. PublicKey_from_slice S (PublicKey_serialize S pk) = Inr pk) \<and>
     (\<forall>s. Signature_from_compact S (serialize_compact S s) = Inr s) \<and>
     (\<forall>h. length h = 32 \<longrightarrow> (\<exists>m. Message_from_slice S h = Inr m)) \<and>
     (\<forall>m sk. verify_ecdsa S m (sign_ecdsa S m sk) (PublicKey_from_secret_key S sk) = Inr ())"

record ('w, 'h, 'sig) ethers =
  LocalWallet_from_bytes :: "bytes \<Rightarrow> 'w option"
  LocalWallet_address :: "'w \<Rightarrow> bytes"
  LocalWallet_sign_hash :: "'w \<Rightarrow> 'h \<Rightarrow> 'sig option"
  hash_message :: "bytes \<Rightarrow> 'h"
  Signature_verify :: "'sig \<Rightarrow> bytes \<Rightarrow> bytes \<Rightarrow> bool"

text \<open>
  \<open>Signature::verify\<close> hashes the message with \<open>hash_message\<close> and recovers the
  signer; it accepts what the wallet of that address signed.
\<close>

definition ethers_laws :: "('w, 'h, 'sig) ethers \<Rightarrow> bool" where
  "ethers_laws E \<longleftrightarrow>
     (\<forall>w m s. LocalWallet_sign_hash E w (hash_message E m) = Some s \<longrightarrow>
        Signature_verify E s m (LocalWallet_address E w))"

section \<open>Hashing, keys and signatures\<close>

datatype crypto_error =
    KeystoreError
  | KeystoreFileError
  | InvalidKeyError utf8
  | Secp256k1Error utf8
  | InvalidSignature utf8

definition calculate_hash :: "(bytes \<Rightarrow> bytes) \<Rightarrow> bytes \<Rightarrow> bytes" where
  "calculate_hash keccak data = keccak data"

lemma length_calculate_hash [simp]: "keccak_laws keccak \<Longrightarrow> length (calculate_hash keccak d) = 32"
  by (simp add: keccak_laws_def calculate_hash_def)

definition derive_public_key ::
  "('sk, 'pk, 'sig, 'msg) secp256k1 \<Rightarrow> bytes \<Rightarrow> crypto_error + bytes" where
  "derive_public_key S private_key =
     and_then (map_err InvalidKeyError (SecretKey_from_slice S private_key)) (\<lambda>secret_key.
       Inr (PublicKey_serialize S (PublicKey_from_secret_key S secret_key)))"

definition sign ::
  "(bytes \<Rightarrow> bytes) \<Rightarrow> ('sk, 'pk, 'sig, 'msg) secp256k1 \<Rightarrow> bytes \<Rightarrow> bytes \<Rightarrow> crypto_error + bytes" where
  "sign keccak S private_key data =
     and_then (map_err InvalidKeyError (SecretKey_from_slice S private_key)) (\<lambda>secret_key.
     and_then (map_err Secp256k1Error (Message_from_slice S (calculate_hash keccak data))) (\<lambda>message.
       Inr (serialize_compact S (sign_ecdsa S message secret_key))))"

definition verify ::
  "(bytes \<Rightarrow> bytes) \<Rightarrow> ('sk, 'pk, 'sig, 'msg) secp256k1 \<Rightarrow> bytes \<Rightarrow> bytes \<Rightarrow> bytes \<Rightarrow> crypto_error + unit" where
  "verify keccak S public_key data signature =
     and_then (map_err InvalidKeyError (PublicKey_from_slice S public_key)) (\<lambda>pk.
     and_then (map_err InvalidSignature (Signature_from_compact S signature)) (\<lambda>sg.
     and_then (map_err Secp256k1Error (Message_from_slice S (calculate_hash keccak data))) (\<lambda>message.
       map_err InvalidSignature (verify_ecdsa S message sg pk))))"

lemma sign_total:
  assumes "secp_laws S" and "keccak_laws keccak" and "derive_public_key S k = Inr pk"
  shows "\<exists>s. sign keccak S k d = Inr s"
proof -
  have "length (calculate_hash keccak d) = 32" using assms(2) by simp
  then obtain m where "Message_from_slice S (calculate_hash keccak d) = Inr m"
    using assms(1) by (metis secp_laws_def)
  with assms(3) show ?thesis
    by (auto simp: sign_def derive_public_key_def result_simps)
qed

lemma verify_sign:
  assumes "secp_laws S" and "derive_public_key S k = Inr pk" and "sign keccak S k d = Inr s"
  shows "verify keccak S pk d s = Inr ()"
  using assms by (auto simp: verify_def derive_public_key_def sign_def secp_laws_def result_simps)

section \<open>Validator identifiers\<close>

datatype validator_id = ValidatorId (vid_bytes: bytes)

definition VALIDATOR_ID_LENGTH :: nat where
  "VALIDATOR_ID_LENGTH = 20"

definition zero_x :: utf8 where
  "zero_x = [48, 120]"

lemma length_zero_x [simp]: "length zero_x = 2"
  by (simp add: zero_x_def)

definition validator_id_to_string :: "hex \<Rightarrow> validator_id \<Rightarrow> utf8" where
  "validator_id_to_string H v = zero_x @ hex_encode H (vid_bytes v)"

lemma validator_id_to_string_inject [simp]:
  "hex_laws H \<Longrightarrow> validator_id_to_string H v = validator_id_to_string H w \<longleftrightarrow> v = w"
  by (cases v; cases w) (simp add: validator_id_to_string_def)

lemma inj_validator_id_to_string: "hex_laws H \<Longrightarrow> inj (validator_id_to_string H)"
  by (simp add: inj_def)

section \<open>Message signing\<close>

datatype message_signer_error = PrivateKeyParsing

record 'w message_signer =
  public_address :: bytes
  wallet :: 'w

definition message_signer_new ::
  "('w, 'h, 'sig) ethers \<Rightarrow> bytes \<Rightarrow> message_signer_error + 'w message_signer" where
  "message_signer_new E private_key =
     and_then (ok_or PrivateKeyParsing (LocalWallet_from_bytes E private_key)) (\<lambda>w.
       Inr \<lparr>public_address = LocalWallet_address E w, wallet = w\<rparr>)"

definition message_signer_from_str ::
  "hex \<Rightarrow> ('w, 'h, 'sig) ethers \<Rightarrow> utf8 \<Rightarrow> message_signer_error + 'w message_signer" where
  "message_signer_from_str H E s =
     and_then (ok_or PrivateKeyParsing (hex_decode H s)) (message_signer_new E)"

definition sign_message ::
  "('w, 'h, 'sig) ethers \<Rightarrow> 'w message_signer \<Rightarrow> bytes \<Rightarrow> 'sig option" where
  "sign_message E m payload = LocalWallet_sign_hash E (wallet m) (hash_message E payload)"

definition verify_signature ::
  "('w, 'h, 'sig) ethers \<Rightarrow> 'sig \<Rightarrow> bytes \<Rightarrow> bytes \<Rightarrow> bool" where
  "verify_signature E signature payload public_key = Signature_verify E signature payload public_key"

lemma message_signer_from_str_encode:
  "hex_laws H \<Longrightarrow> message_signer_from_str H E (hex_encode H k) = message_signer_new E k"
  by (simp add: message_signer_from_str_def)

lemma verify_signed_message:
  assumes "ethers_laws E" and "message_signer_new E k = Inr m" and "sign_message E m p = Some s"
  shows "verify_signature E s p (public_address m)"
  using assms
  by (auto simp: ethers_laws_def message_signer_new_def sign_message_def verify_signature_def result_simps)

section \<open>Reference instances\<close>

text \<open>
  Concrete functions with the stated laws: lower-case hexadecimal digits, and a
  toy signature scheme in which a signature is the key followed by the message.
  They show that the laws can hold together, and concrete statements about the
  code are evaluated at them.
\<close>

definition hex_digit :: "u8 \<Rightarrow> u8" where
  "hex_digit n = (if n < 10 then 48 + n else 87 + n)"

definition hex_value :: "u8 \<Rightarrow> u8 option" where
  "hex_value c =
     (if 48 \<le> c \<and> c < 58 then Some (c - 48)
      else if 97 \<le> c \<and> c < 103 then Some (c - 87) else None)"

fun lower_hex_encode :: "bytes \<Rightarrow> utf8" where
  "lower_hex_encode [] = []"
| "lower_hex_encode (b # bs) = hex_digit (b div 16) # hex_digit (b mod 16) # lower_hex_encode bs"

fun lower_hex_decode :: "utf8 \<Rightarrow> bytes option" where
  "lower_hex_decode [] = Some []"
| "lower_hex_decode [c] = None"
| "lower_hex_decode (c # d # cs) =
     (case (hex_value c, hex_value d, lower_hex_decode cs) of
        (Some h, Some l, Some bs) \<Rightarrow> Some ((h * 16 + l) # bs)
      | _ \<Rightarrow> None)"

definition lower_hex :: hex where
  "lower_hex = \<lparr>hex_encode = lower_hex_encode, hex_decode = lower_hex_decode\<rparr>"

lemma hex_value_digit: "n < 16 \<Longrightarrow> hex_value (hex_digit n) = Some n"
proof -
  assume "n < 16"
  then have "unat n \<in> set [0..<16]" by (simp add: word_less_nat_alt)
  moreover have "n = of_nat (unat n)" by simp
  ultimately have "n \<in> of_nat ` set [0..<16]" by (rule rev_image_eqI)
  moreover have "[0..<16] = [0, 1, 2, 3, 4, 5, 6, 7, 8, 9, 10, 11, 12, 13, 14, 15 :: nat]"
    by code_simp
  ultimately have "n \<in> {0, 1, 2, 3, 4, 5, 6, 7, 8, 9, 10, 11, 12, 13, 14, 15}"
    by (simp only: list.set image_insert image_empty of_nat_numeral semiring_1_class.of_nat_0 of_nat_1)
  then show ?thesis
    by (elim insertE emptyE) (simp_all add: hex_value_def hex_digit_def)
qed

lemma lower_hex_decode_length: "lower_hex_decode s = Some b \<Longrightarrow> length s = 2 * length b"
  by (induction s arbitrary: b rule: lower_hex_decode.induct) (auto split: option.splits)

lemma lower_hex_laws: "hex_laws lower_hex"
proof -
  have dm: "b div 16 < (16 :: u8)" "b mod 16 < (16 :: u8)" for b :: u8
    using unsigned_less [of b, where 'a = nat] by (simp_all add: word_less_nat_alt unat_div unat_mod)
  have "lower_hex_decode (lower_hex_encode b) = Some b" for b
    by (induction b) (simp_all add: hex_value_digit dm div_mult_mod_eq)
  moreover have "length (lower_hex_encode b) = 2 * length b" for b
    by (induction b) simp_all
  ultimately show ?thesis
    by (simp add: hex_laws_def lower_hex_def lower_hex_decode_length)
qed

definition toy_keccak :: "bytes \<Rightarrow> bytes" where
  "toy_keccak d = replicate 32 (sum_list d)"

lemma toy_keccak_laws: "keccak_laws toy_keccak"
  by (simp add: keccak_laws_def toy_keccak_def)

definition toy_secp :: "(bytes, bytes, bytes, bytes) secp256k1" where
  "toy_secp =
     \<lparr>SecretKey_from_slice = (\<lambda>k. if length k = 32 then Inr k else Inl []),
      PublicKey_from_slice = (\<lambda>p. case p of [] \<Rightarrow> Inl [] | _ # k \<Rightarrow> Inr k),
      PublicKey_from_secret_key = id,
      PublicKey_serialize = (\<lambda>k. 2 # k),
      Message_from_slice = Inr,
      sign_ecdsa = (\<lambda>m k. m @ k),
      serialize_compact = id,
      Signature_from_compact = Inr,
      verify_ecdsa = (\<lambda>m s k. if s = m @ k then Inr () else Inl [])\<rparr>"

lemma toy_secp_laws: "secp_laws toy_secp"
  by (simp add: secp_laws_def toy_secp_def)

definition toy_ethers :: "(bytes, bytes, bytes \<times> bytes) ethers" where
  "toy_ethers =
     \<lparr>LocalWallet_from_bytes = Some,
      LocalWallet_address = id,
      LocalWallet_sign_hash = (\<lambda>w h. Some (w, h)),
      hash_message = id,
      Signature_verify = (\<lambda>s m a. s = (a, m))\<rparr>"

lemma toy_ethers_laws: "ethers_laws toy_ethers"
  by (simp add: ethers_laws_def toy_ethers_def)

end
