(* ===== verification/Uci.thy ===== *)
theory Uci
  imports Crypto
begin

text \<open>
  The crate \<^verbatim>\<open>topos-uci\<close>: certificate and subnet identifiers (\<^verbatim>\<open>certificate_id.rs\<close>,
  \<^verbatim>\<open>subnet_id.rs\<close>) and certificates (\<^verbatim>\<open>certificate.rs\<close>). A Rust array \<open>[u8; 32]\<close>
  is a byte list; that its length is 32 is the predicate \<open>wf_certificate_id\<close> or
  \<open>wf_subnet_id\<close>, which every constructor of the code establishes. Rust strings are
  their UTF-8 bytes. An error message is the datatype \<open>validation_error\<close> of the
  values it reports.
\<close>

section \<open>Identifiers\<close>

definition CERTIFICATE_ID_LENGTH :: nat where
  "CERTIFICATE_ID_LENGTH = 32"

definition HEX_CERTIFICATE_ID_LENGTH :: nat where
  "HEX_CERTIFICATE_ID_LENGTH = 64"

definition SUBNET_ID_LENGTH :: nat where
  "SUBNET_ID_LENGTH = 32"

lemmas id_lengths = CERTIFICATE_ID_LENGTH_def HEX_CERTIFICATE_ID_LENGTH_def SUBNET_ID_LENGTH_def

datatype certificate_id = CertificateId (cid_array: bytes)

datatype subnet_id = SubnetId (sid_array: bytes)

definition wf_certificate_id :: "certificate_id \<Rightarrow> bool" where
  "wf_certificate_id c \<longleftrightarrow> length (cid_array c) = CERTIFICATE_ID_LENGTH"

definition wf_subnet_id :: "subnet_id \<Rightarrow> bool" where
  "wf_subnet_id s \<longleftrightarrow> length (sid_array s) = SUBNET_ID_LENGTH"

definition INITIAL_CERTIFICATE_ID :: certificate_id where
  "INITIAL_CERTIFICATE_ID = CertificateId (replicate CERTIFICATE_ID_LENGTH 0)"

datatype validation_error =
    InvalidCertificateIdLength nat
  | InvalidHexCertificateId bytes
  | InvalidSubnetIdLength nat
  | InvalidHexSubnetId utf8

datatype uci_error = ValidationError validation_error | CryptoError crypto_error

subsection \<open>Order of identifiers\<close>

text \<open>
  \<^verbatim>\<open>std::cmp::Ordering\<close>, and \<^verbatim>\<open>cmp\<close> of byte arrays: the lexicographic comparison. The
  implementations of \<^verbatim>\<open>Ord\<close> for \<^verbatim>\<open>CertificateId\<close> and \<^verbatim>\<open>SubnetId\<close> compare the arrays; they make the
  identifiers linear orders, in which \<^verbatim>\<open><=\<close> is the comparison that is not \<open>OrdGreater\<close>.
\<close>

datatype cmp_ordering = OrdLess | OrdEqual | OrdGreater

definition bytes_cmp :: "bytes \<Rightarrow> bytes \<Rightarrow> cmp_ordering" where
  "bytes_cmp a b = (if a < b then OrdLess else if a = b then OrdEqual else OrdGreater)"

definition certificate_id_cmp :: "certificate_id \<Rightarrow> certificate_id \<Rightarrow> cmp_ordering" where
  "certificate_id_cmp a b = bytes_cmp (cid_array a) (cid_array b)"

definition subnet_id_cmp :: "subnet_id \<Rightarrow> subnet_id \<Rightarrow> cmp_ordering" where
  "subnet_id_cmp a b = bytes_cmp (sid_array a) (sid_array b)"

lemma bytes_cmp_simps [simp]:
  "bytes_cmp a b = OrdLess \<longleftrightarrow> a < b" "bytes_cmp a b = OrdEqual \<longleftrightarrow> a = b" "bytes_cmp a b = OrdGreater \<longleftrightarrow> b < a"
  by (auto simp: bytes_cmp_def)

instantiation certificate_id :: linorder
begin

definition less_eq_certificate_id :: "certificate_id \<Rightarrow> certificate_id \<Rightarrow> bool" where
  "less_eq_certificate_id a b \<longleftrightarrow> certificate_id_cmp a b \<noteq> OrdGreater"

definition less_certificate_id :: "certificate_id \<Rightarrow> certificate_id \<Rightarrow> bool" where
  "less_certificate_id a b \<longleftrightarrow> certificate_id_cmp a b = OrdLess"

instance
  by standard
    (auto simp: less_eq_certificate_id_def less_certificate_id_def certificate_id_cmp_def not_less certificate_id.expand)

end

instantiation subnet_id :: linorder
begin

definition less_eq_subnet_id :: "subnet_id \<Rightarrow> subnet_id \<Rightarrow> bool" where
  "less_eq_subnet_id a b \<longleftrightarrow> subnet_id_cmp a b \<noteq> OrdGreater"

definition less_subnet_id :: "subnet_id \<Rightarrow> subnet_id \<Rightarrow> bool" where
  "less_subnet_id a b \<longleftrightarrow> subnet_id_cmp a b = OrdLess"

instance
  by standard (auto simp: less_eq_subnet_id_def less_subnet_id_def subnet_id_cmp_def not_less subnet_id.expand)

end

lemma subnet_id_le_iff: "a \<le> b \<longleftrightarrow> sid_array a \<le> sid_array b"
  by (simp add: less_eq_subnet_id_def subnet_id_cmp_def not_less)

subsection \<open>Certificate identifiers\<close>

definition certificate_id_to_string :: "hex \<Rightarrow> certificate_id \<Rightarrow> utf8" where
  "certificate_id_to_string H c = zero_x @ hex_encode H (cid_array c)"

definition copy_from_slice :: "nat \<Rightarrow> bytes \<Rightarrow> 'e failure + bytes" where
  "copy_from_slice n src = (if length src = n then Inr src else Inl Panic)"

lemma copy_from_slice_Inr [simp]: "length src = n \<Longrightarrow> copy_from_slice n src = Inr src"
  by (simp add: copy_from_slice_def)

definition certificate_id_try_from :: "hex \<Rightarrow> bytes \<Rightarrow> uci_error failure + certificate_id" where
  "certificate_id_try_from H value0 =
     (let value =
        (if take 2 value0 = zero_x \<and>
            (length value0 = HEX_CERTIFICATE_ID_LENGTH + 2 \<or>
             length value0 = CERTIFICATE_ID_LENGTH + 2)
         then drop 2 value0 else value0);
        len = length value
      in if len \<noteq> CERTIFICATE_ID_LENGTH \<and> len \<noteq> HEX_CERTIFICATE_ID_LENGTH
         then Inl (Failed (ValidationError (InvalidCertificateIdLength len)))
         else if len = HEX_CERTIFICATE_ID_LENGTH
         then and_then (ok_or (Failed (ValidationError (InvalidHexCertificateId value)))
                (hex_decode H value)) (\<lambda>decoded.
              and_then (copy_from_slice CERTIFICATE_ID_LENGTH decoded) (\<lambda>arr.
                Inr (CertificateId arr)))
         else and_then (copy_from_slice CERTIFICATE_ID_LENGTH value) (\<lambda>arr.
                Inr (CertificateId arr)))"

lemma certificate_id_try_from_raw:
  assumes "length b = CERTIFICATE_ID_LENGTH"
  shows "certificate_id_try_from H b = Inr (CertificateId b)"
    and "certificate_id_try_from H (zero_x @ b) = Inr (CertificateId b)"
  using assms by (simp_all add: certificate_id_try_from_def id_lengths)

lemma certificate_id_try_from_hex:
  assumes "hex_laws H" and "length b = CERTIFICATE_ID_LENGTH"
  shows "certificate_id_try_from H (hex_encode H b) = Inr (CertificateId b)"
    and "certificate_id_try_from H (zero_x @ hex_encode H b) = Inr (CertificateId b)"
  using assms by (simp_all add: certificate_id_try_from_def id_lengths)

text \<open>Every textual and binary form of a certificate id parses back to it: the
  \<^verbatim>\<open>Display\<close> form (\<open>0x\<close> and the hexadecimal digits), the digits alone, the raw
  32 bytes, and the raw bytes after \<open>0x\<close>, whatever bytes the id consists of.\<close>

lemma certificate_id_round_trip:
  assumes "hex_laws H" and "wf_certificate_id c"
  shows "certificate_id_try_from H (certificate_id_to_string H c) = Inr c \<and>
    certificate_id_try_from H (hex_encode H (cid_array c)) = Inr c \<and>
    certificate_id_try_from H (cid_array c) = Inr c \<and>
    certificate_id_try_from H (zero_x @ cid_array c) = Inr c"
  using assms certificate_id_try_from_raw certificate_id_try_from_hex
  by (simp add: wf_certificate_id_def certificate_id_to_string_def)

lemma certificate_id_round_trip_witness:
  "certificate_id_try_from lower_hex
     (certificate_id_to_string lower_hex (CertificateId (48 # 120 # replicate 30 7))) =
   Inr (CertificateId (48 # 120 # replicate 30 7))"
  using certificate_id_round_trip [OF lower_hex_laws, of "CertificateId (48 # 120 # replicate 30 7)"]
  by (simp add: wf_certificate_id_def id_lengths)

text \<open>Parsing a certificate id never panics, and the only values it accepts are 32
  bytes or 64 hexadecimal digits, each with or without the prefix \<open>0x\<close>; an accepted
  value gives a 32-byte id, any other value a validation error.\<close>

lemma certificate_id_try_from_total:
  assumes "hex_laws H"
  shows "(\<exists>c. certificate_id_try_from H v = Inr c \<and> wf_certificate_id c \<and> length v \<in> {32, 34, 64, 66}) \<or>
    (\<exists>d. certificate_id_try_from H v = Inl (Failed (ValidationError d)))"
proof -
  have "length b = 32" if "hex_decode H s = Some b" and "length s = 64" for s b
    using hex_decode_length [OF assms that(1)] that(2) by simp
  then show ?thesis
    by (cases "hex_decode H v"; cases "hex_decode H (drop 2 v)")
      (auto simp: certificate_id_try_from_def id_lengths Let_def wf_certificate_id_def)
qed

subsection \<open>Subnet identifiers\<close>

definition subnet_id_to_string :: "hex \<Rightarrow> subnet_id \<Rightarrow> utf8" where
  "subnet_id_to_string H s = zero_x @ hex_encode H (sid_array s)"

definition subnet_id_try_from :: "bytes \<Rightarrow> uci_error + subnet_id" where
  "subnet_id_try_from value =
     (if length value \<noteq> SUBNET_ID_LENGTH
      then Inl (ValidationError (InvalidSubnetIdLength (length value)))
      else Inr (SubnetId value))"

definition subnet_id_from_str :: "hex \<Rightarrow> utf8 \<Rightarrow> uci_error + subnet_id" where
  "subnet_id_from_str H s =
     and_then
       (if take 2 s = zero_x
        then ok_or (ValidationError (InvalidHexSubnetId s)) (hex_decode H (drop 2 s))
        else Inr s)
       subnet_id_try_from"

definition to_secp256k1_public_key :: "subnet_id \<Rightarrow> bytes" where
  "to_secp256k1_public_key s = 2 # sid_array s"

lemma subnet_id_try_from_Inr_iff [result_simps]:
  "subnet_id_try_from v = Inr s \<longleftrightarrow> wf_subnet_id s \<and> sid_array s = v"
  by (cases s) (auto simp: subnet_id_try_from_def wf_subnet_id_def)

lemma subnet_id_from_str_to_string:
  assumes "hex_laws H" and "wf_subnet_id s"
  shows "subnet_id_from_str H (subnet_id_to_string H s) = Inr s"
  using assms by (simp add: subnet_id_from_str_def subnet_id_to_string_def result_simps)

lemma subnet_id_from_str_wf: "subnet_id_from_str H v = Inr s \<Longrightarrow> wf_subnet_id s"
  by (auto simp: subnet_id_from_str_def result_simps)

section \<open>Certificates\<close>

record certificate =
  cert_id :: certificate_id
  prev_id :: certificate_id
  source_subnet_id :: subnet_id
  state_root :: bytes
  tx_root_hash :: bytes
  receipts_root_hash :: bytes
  target_subnets :: "subnet_id list"
  verifier :: u32
  stark_proof :: bytes
  frost_signature :: bytes

definition wf_certificate :: "certificate \<Rightarrow> bool" where
  "wf_certificate c \<longleftrightarrow>
     wf_certificate_id (cert_id c) \<and> wf_certificate_id (prev_id c) \<and>
     wf_subnet_id (source_subnet_id c) \<and> length (state_root c) = 32 \<and>
     length (tx_root_hash c) = 32 \<and> length (receipts_root_hash c) = 32 \<and>
     (\<forall>t \<in> set (target_subnets c). wf_subnet_id t)"

text \<open>The buffer hashed by \<^verbatim>\<open>calculate_cert_id\<close>: every field but the id and the
  signature, in order, without any length.\<close>

definition cert_id_buffer :: "certificate \<Rightarrow> bytes" where
  "cert_id_buffer c =
     cid_array (prev_id c) @ sid_array (source_subnet_id c) @ state_root c @ tx_root_hash c @
     receipts_root_hash c @ concat (map sid_array (target_subnets c)) @
     be_bytes32 (verifier c) @ stark_proof c"

definition calculate_cert_id :: "(bytes \<Rightarrow> bytes) \<Rightarrow> certificate \<Rightarrow> certificate_id" where
  "calculate_cert_id keccak c = CertificateId (calculate_hash keccak (cert_id_buffer c))"

definition get_payload :: "certificate \<Rightarrow> bytes" where
  "get_payload c =
     cid_array (cert_id c) @ cid_array (prev_id c) @ sid_array (source_subnet_id c) @
     state_root c @ tx_root_hash c @ receipts_root_hash c @
     concat (map sid_array (target_subnets c)) @ be_bytes32 (verifier c) @ stark_proof c"

definition certificate_new ::
  "(bytes \<Rightarrow> bytes) \<Rightarrow> certificate_id \<Rightarrow> subnet_id \<Rightarrow> bytes \<Rightarrow> bytes \<Rightarrow> bytes \<Rightarrow>
   subnet_id list \<Rightarrow> u32 \<Rightarrow> bytes \<Rightarrow> certificate" where
  "certificate_new keccak prev source sroot txroot rroot targets ver prf =
     (let cert = \<lparr>cert_id = CertificateId (replicate CERTIFICATE_ID_LENGTH 0), prev_id = prev,
                  source_subnet_id = source, state_root = sroot, tx_root_hash = txroot,
                  receipts_root_hash = rroot, target_subnets = targets, verifier = ver,
                  stark_proof = prf, frost_signature = []\<rparr>
      in cert\<lparr>cert_id := calculate_cert_id keccak cert\<rparr>)"

definition new_with_default_fields ::
  "(bytes \<Rightarrow> bytes) \<Rightarrow> certificate_id \<Rightarrow> subnet_id \<Rightarrow> subnet_id list \<Rightarrow> certificate" where
  "new_with_default_fields keccak prev source targets =
     (let cert = \<lparr>cert_id = CertificateId (replicate CERTIFICATE_ID_LENGTH 0), prev_id = prev,
                  source_subnet_id = source, state_root = replicate 32 0,
                  tx_root_hash = replicate 32 0, receipts_root_hash = replicate 32 0,
                  target_subnets = targets, verifier = 0, stark_proof = [], frost_signature = []\<rparr>
      in cert\<lparr>cert_id := calculate_cert_id keccak cert\<rparr>)"

text \<open>Signature and proof verification are placeholders in the code: both succeed.\<close>

definition check_signature :: "certificate \<Rightarrow> uci_error + unit" where
  "check_signature c = Inr ()"

definition check_proof :: "certificate \<Rightarrow> uci_error + unit" where
  "check_proof c = Inr ()"

definition update_signature ::
  "(bytes \<Rightarrow> bytes) \<Rightarrow> ('sk, 'pk, 'sig, 'msg) secp256k1 \<Rightarrow> bytes \<Rightarrow> certificate \<Rightarrow> uci_error + certificate" where
  "update_signature keccak S private_key c =
     and_then (map_err CryptoError (sign keccak S private_key (get_payload c))) (\<lambda>sg.
       Inr (c\<lparr>frost_signature := sg\<rparr>))"

lemma get_payload_eq: "get_payload c = cid_array (cert_id c) @ cert_id_buffer c"
  by (simp add: get_payload_def cert_id_buffer_def)

lemma get_payload_signature [simp]: "get_payload (c\<lparr>frost_signature := sg\<rparr>) = get_payload c"
  by (simp add: get_payload_def)

lemma cert_id_buffer_own_id [simp]: "cert_id_buffer (c\<lparr>cert_id := i\<rparr>) = cert_id_buffer c"
  by (simp add: cert_id_buffer_def)

lemma certificate_new_id:
  "cert_id (certificate_new keccak p s a b r ts v prf) =
   calculate_cert_id keccak (certificate_new keccak p s a b r ts v prf)"
  by (simp add: certificate_new_def Let_def calculate_cert_id_def cert_id_buffer_def)

text \<open>The id of a certificate commits to its fields: of two well-formed
  certificates with equally many target subnets, equal hash inputs of
  \<^verbatim>\<open>calculate_cert_id\<close> imply that every field but the id and the signature is equal.\<close>

lemma cert_id_buffer_inject:
  assumes "wf_certificate c" and "wf_certificate d"
    and "length (target_subnets c) = length (target_subnets d)"
    and "cert_id_buffer c = cert_id_buffer d"
  shows "d\<lparr>cert_id := cert_id c, frost_signature := frost_signature c\<rparr> = c"
proof -
  have split: "concat (map sid_array (target_subnets c)) @ be_bytes32 (verifier c) @ stark_proof c =
      concat (map sid_array (target_subnets d)) @ be_bytes32 (verifier d) @ stark_proof d"
    and head: "cid_array (prev_id c) = cid_array (prev_id d)"
      "sid_array (source_subnet_id c) = sid_array (source_subnet_id d)"
      "state_root c = state_root d" "tx_root_hash c = tx_root_hash d"
      "receipts_root_hash c = receipts_root_hash d"
    using assms
    by (simp_all add: cert_id_buffer_def wf_certificate_def wf_certificate_id_def wf_subnet_id_def
        append_eq_length_conv)
  have "map sid_array (target_subnets c) = map sid_array (target_subnets d) \<and>
      be_bytes32 (verifier c) @ stark_proof c = be_bytes32 (verifier d) @ stark_proof d"
    using assms(1,2) by (intro concat_fixed_inject [OF assms(3) _ _ split, of SUBNET_ID_LENGTH])
      (auto simp: wf_certificate_def wf_subnet_id_def)
  moreover have "inj sid_array" by (simp add: inj_def subnet_id.expand)
  ultimately have "target_subnets c = target_subnets d" "verifier c = verifier d"
      "stark_proof c = stark_proof d"
    by (simp_all add: inj_map_eq_map append_eq_length_conv)
  with head show ?thesis by (simp add: certificate_id.expand subnet_id.expand)
qed

definition example_certificate :: "nat \<Rightarrow> certificate" where
  "example_certificate n = new_with_default_fields toy_keccak INITIAL_CERTIFICATE_ID
     (SubnetId (replicate 32 (of_nat n))) [SubnetId (replicate 32 9)]"

lemma wf_example_certificate: "wf_certificate (example_certificate n)"
  by (simp add: example_certificate_def new_with_default_fields_def wf_certificate_def Let_def
      wf_certificate_id_def wf_subnet_id_def id_lengths calculate_cert_id_def calculate_hash_def
      toy_keccak_def INITIAL_CERTIFICATE_ID_def)

lemma cert_id_buffer_inject_witness:
  "(example_certificate 1)\<lparr>cert_id := cert_id (example_certificate 1),
     frost_signature := frost_signature (example_certificate 1)\<rparr> = example_certificate 1"
  by (rule cert_id_buffer_inject [OF wf_example_certificate wf_example_certificate refl refl])

text \<open>C27: The id does not determine the number of target subnets: the list of
  targets is hashed without its length, so for every hash function there are two
  well-formed certificates with different target subnets and the same id.\<close>

theorem cert_id_not_unique:
  assumes "keccak_laws keccak"
  shows "\<exists>c d. wf_certificate c \<and> wf_certificate d \<and>
    cert_id c = calculate_cert_id keccak c \<and> cert_id d = calculate_cert_id keccak d \<and>
    target_subnets c \<noteq> target_subnets d \<and> cert_id c = cert_id d"
proof -
  let ?s = "SubnetId (replicate 32 1)" and ?z = "replicate 32 (0 :: u8)"
  define c where "c = certificate_new keccak INITIAL_CERTIFICATE_ID ?s ?z ?z ?z [SubnetId ?z] 0 []"
  define d where "d = certificate_new keccak INITIAL_CERTIFICATE_ID ?s ?z ?z ?z [] 0 ?z"
  have "be_bytes32 0 = replicate 4 0" by (simp add: be_bytes32_def numeral_eq_Suc)
  then have buf: "cert_id_buffer c = cert_id_buffer d"
    by (simp add: c_def d_def certificate_new_def Let_def cert_id_buffer_def flip: replicate_add)
  have ids: "cert_id c = calculate_cert_id keccak c" "cert_id d = calculate_cert_id keccak d"
    by (simp_all only: c_def d_def certificate_new_id)
  with assms have "wf_certificate_id (cert_id c)" "wf_certificate_id (cert_id d)"
    by (simp_all add: wf_certificate_id_def calculate_cert_id_def id_lengths)
  then have "wf_certificate c" "wf_certificate d"
    by (simp_all add: c_def d_def certificate_new_def Let_def wf_certificate_def
        wf_certificate_id_def wf_subnet_id_def id_lengths INITIAL_CERTIFICATE_ID_def)
  moreover have "target_subnets c \<noteq> target_subnets d"
    by (simp add: c_def d_def certificate_new_def Let_def)
  moreover have "cert_id c = cert_id d"
    using ids buf by (simp add: calculate_cert_id_def)
  ultimately show ?thesis using ids by blast
qed

theorem cert_id_not_unique_witness:
  "\<exists>c d. wf_certificate c \<and> wf_certificate d \<and>
    cert_id c = calculate_cert_id toy_keccak c \<and> cert_id d = calculate_cert_id toy_keccak d \<and>
    target_subnets c \<noteq> target_subnets d \<and> cert_id c = cert_id d"
  by (rule cert_id_not_unique [OF toy_keccak_laws])

lemma update_signature_sound:
  assumes "secp_laws S"
    and "derive_public_key S k = Inr (to_secp256k1_public_key (source_subnet_id c))"
    and "update_signature keccak S k c = Inr d"
  shows "verify keccak S (to_secp256k1_public_key (source_subnet_id d)) (get_payload d) (frost_signature d) = Inr ()"
    and "\<exists>sg. d = c\<lparr>frost_signature := sg\<rparr>"
proof -
  obtain sg where sg: "sign keccak S k (get_payload c) = Inr sg" and d: "d = c\<lparr>frost_signature := sg\<rparr>"
    using assms(3) by (auto simp: update_signature_def result_simps)
  from verify_sign [OF assms(1,2) sg] d
  show "verify keccak S (to_secp256k1_public_key (source_subnet_id d)) (get_payload d) (frost_signature d) = Inr ()"
    by simp
  from d show "\<exists>sg. d = c\<lparr>frost_signature := sg\<rparr>" by blast
qed

text \<open>C28: A certificate signed with a private key whose public key is the one its
  source subnet id stands for verifies over its own payload, and signing changes
  nothing but the signature.\<close>

theorem update_signature_verifies:
  assumes "secp_laws S"
    and "derive_public_key S k = Inr (to_secp256k1_public_key (source_subnet_id c))"
    and "update_signature keccak S k c = Inr d"
  shows "verify keccak S (to_secp256k1_public_key (source_subnet_id d)) (get_payload d)
      (frost_signature d) = Inr () \<and> d\<lparr>frost_signature := frost_signature c\<rparr> = c"
  using update_signature_sound [OF assms] by auto

theorem update_signature_verifies_witness:
  "\<exists>d. update_signature toy_keccak toy_secp (replicate 32 1) (example_certificate 1) = Inr d \<and>
     verify toy_keccak toy_secp (to_secp256k1_public_key (source_subnet_id d)) (get_payload d)
       (frost_signature d) = Inr ()"
proof -
  have k: "derive_public_key toy_secp (replicate 32 1) =
      Inr (to_secp256k1_public_key (source_subnet_id (example_certificate 1)))"
    by (simp add: derive_public_key_def toy_secp_def to_secp256k1_public_key_def
        example_certificate_def new_with_default_fields_def Let_def)
  obtain sg where "sign toy_keccak toy_secp (replicate 32 1) (get_payload (example_certificate 1)) = Inr sg"
    using sign_total [OF toy_secp_laws toy_keccak_laws k] by blast
  then obtain d where "update_signature toy_keccak toy_secp (replicate 32 1) (example_certificate 1) = Inr d"
    by (simp add: update_signature_def)
  with update_signature_verifies [OF toy_secp_laws k this] show ?thesis by blast
qed

end
