(* ===== verification/Core_Types.thy ===== *)
theory Core_Types
  imports Uci
begin

text \<open>
  The crate \<^verbatim>\<open>topos-core\<close> (\<^verbatim>\<open>types/stream.rs\<close>, \<^verbatim>\<open>types.rs\<close>): positions in the
  certificate streams and proofs of delivery. A \<open>Position\<close> wraps a \<open>u64\<close> and is
  that word here; its order is the order of words.
\<close>

type_synonym position = u64

datatype position_error = MaximumPositionReached | InvalidExpectedPosition | InvalidPosition

definition position_ZERO :: position where
  "position_ZERO = 0"

definition increment :: "position \<Rightarrow> position_error + position" where
  "increment p =
     (if p = position_ZERO then Inr 1
      else ok_or MaximumPositionReached (checked_add_u64 p 1))"

text \<open>\<^verbatim>\<open>TryFrom<Position> for usize\<close> on a 64-bit target, where every \<open>u64\<close> fits.\<close>

definition position_to_usize :: "position \<Rightarrow> position_error + nat" where
  "position_to_usize p = (if unat p < 2 ^ 64 then Inr (unat p) else Inl InvalidPosition)"

definition position_from_usize :: "nat \<Rightarrow> position_error + position" where
  "position_from_usize n = (if n < 2 ^ 64 then Inr (of_nat n) else Inl InvalidPosition)"

record certificate_source_stream_position =
  src_subnet_id :: subnet_id
  src_position :: position

record certificate_target_stream_position =
  tgt_target_subnet_id :: subnet_id
  tgt_source_subnet_id :: subnet_id
  tgt_position :: position

record proof_of_delivery =
  pod_certificate_id :: certificate_id
  delivery_position :: certificate_source_stream_position
  pod_readies :: "(utf8 \<times> utf8) list"
  threshold :: u64

record certificate_delivered =
  cd_certificate :: certificate
  cd_proof_of_delivery :: proof_of_delivery

lemma position_to_usize_eq [simp]: "position_to_usize p = Inr (unat p)"
  using unsigned_less [of p, where 'a = nat] by (simp add: position_to_usize_def)

lemma position_usize_round_trip:
  "position_from_usize (unat p) = Inr p"
  "n < 2 ^ 64 \<Longrightarrow> and_then (position_from_usize n) position_to_usize = Inr n"
  using unsigned_less [of p, where 'a = nat]
  by (simp_all add: position_from_usize_def unat_of_nat)

lemma increment_Inr_iff [result_simps]:
  "increment p = Inr q \<longleftrightarrow> unat p + 1 < 2 ^ 64 \<and> q = p + 1"
  by (auto simp: increment_def position_ZERO_def result_simps checked_add_u64_Some)

lemma increment_Inl_iff [result_simps]:
  "increment p = Inl e \<longleftrightarrow> e = MaximumPositionReached \<and> unat p + 1 = 2 ^ 64"
  using unsigned_less [of p, where 'a = nat]
  by (auto simp: increment_def position_ZERO_def result_simps checked_add_u64_None)

lemma increment_unat: "increment p = Inr q \<Longrightarrow> unat q = unat p + 1"
  by (simp add: result_simps unat_word_ariths)

lemma increment_greater: "increment p = Inr q \<Longrightarrow> p < q"
  using increment_unat by (simp add: word_less_nat_alt)

end
