(* ===== verification/Transport.thy ===== *)
theory Transport
  imports Core_Types
begin

text \<open>
  The crate \<^verbatim>\<open>topos-tce-transport\<close> (\<^verbatim>\<open>lib.rs\<close>): the thresholds of the reliable
  broadcast and the events it emits. A \<open>usize\<close> is a natural number; sums and
  products are taken modulo \<open>2 ^ 64\<close> as the release build computes them.
\<close>

definition usize_add :: "nat \<Rightarrow> nat \<Rightarrow> nat" where
  "usize_add a b = (a + b) mod 2 ^ 64"

definition usize_mul :: "nat \<Rightarrow> nat \<Rightarrow> nat" where
  "usize_mul a b = (a * b) mod 2 ^ 64"

record reliable_broadcast_params =
  rp_echo_threshold :: nat
  rp_ready_threshold :: nat
  rp_delivery_threshold :: nat

definition params_new :: "nat \<Rightarrow> reliable_broadcast_params" where
  "params_new n =
     (let f = n div 3 in
      \<lparr>rp_echo_threshold = usize_add 1 (usize_add n f div 2),
       rp_ready_threshold = usize_add 1 f,
       rp_delivery_threshold = usize_add (usize_mul 2 f) 1\<rparr>)"

datatype 'sig protocol_event =
    BroadcastFailed certificate_id
  | AlreadyDelivered certificate_id
  | NeedPeers
  | EvBroadcast certificate_id
  | EvGossip certificate
  | EvEcho certificate_id 'sig validator_id
  | EvReady certificate_id 'sig validator_id
  | Die
  | StableSample

section \<open>The thresholds as quorums\<close>

lemma params_new_exact:
  assumes "n < 2 ^ 63"
  shows "rp_echo_threshold (params_new n) = 1 + (n + n div 3) div 2"
    and "rp_ready_threshold (params_new n) = 1 + n div 3"
    and "rp_delivery_threshold (params_new n) = 2 * (n div 3) + 1"
proof -
  have "n + n div 3 < 2 ^ 64" "1 + (n + n div 3) div 2 < 2 ^ 64" "2 * (n div 3) + 1 < 2 ^ 64"
    using assms by simp_all
  then show "rp_echo_threshold (params_new n) = 1 + (n + n div 3) div 2"
    and "rp_ready_threshold (params_new n) = 1 + n div 3"
    and "rp_delivery_threshold (params_new n) = 2 * (n div 3) + 1"
    by (simp_all add: params_new_def usize_add_def usize_mul_def Let_def)
qed

lemma card_Int_lower:
  assumes "finite V" and "A \<subseteq> V" and "B \<subseteq> V"
  shows "card A + card B \<le> card V + card (A \<inter> B)"
proof -
  have "card (A \<union> B) \<le> card V" using assms by (intro card_mono) auto
  moreover have "card A + card B = card (A \<union> B) + card (A \<inter> B)"
    using assms finite_subset by (intro card_Un_Int) blast+
  ultimately show ?thesis by linarith
qed

text \<open>C15: Two echo quorums of a network of \<open>n\<close> validators share more than
  \<open>\<lfloor>n / 3\<rfloor>\<close> validators, hence at least one that is not among \<open>\<lfloor>n / 3\<rfloor>\<close> faulty ones.\<close>

theorem echo_quorums_intersect:
  assumes "finite V" and "card V < 2 ^ 63" and "A \<subseteq> V" and "B \<subseteq> V"
    and "rp_echo_threshold (params_new (card V)) \<le> card A"
    and "rp_echo_threshold (params_new (card V)) \<le> card B"
    and "F \<subseteq> V" and "card F \<le> card V div 3"
  shows "A \<inter> B - F \<noteq> {}"
proof -
  have "1 + (card V + card V div 3) div 2 \<le> card A" "1 + (card V + card V div 3) div 2 \<le> card B"
    using assms by (simp_all add: params_new_exact)
  with card_Int_lower [OF assms(1,3,4)] have "card V div 3 < card (A \<inter> B)" by linarith
  with assms(8) have "\<not> card (A \<inter> B) \<le> card F" by linarith
  moreover have "finite F" using assms(1,7) finite_subset by blast
  ultimately show ?thesis by (auto dest: card_mono)
qed

theorem echo_quorums_intersect_witness:
  "{1, 2, 3 :: nat} \<inter> {2, 3, 4} - {2} \<noteq> {}"
  by (rule echo_quorums_intersect [of "{1, 2, 3, 4}"])
    (simp_all add: params_new_def usize_add_def usize_mul_def)

lemma third_attainable:
  "1 + (n + n div 3) div 2 \<le> n - n div 3 \<and> 2 * (n div 3) + 1 \<le> n - n div 3 \<longleftrightarrow> n mod 3 \<noteq> (0 :: nat)"
proof -
  define q r where "q = n div 3" and "r = n mod 3"
  then have n: "n = 3 * q + r" and r: "r < 3" and d: "n div 3 = q" "n mod 3 = r" by simp_all
  from r consider "r = 0" | "r = 1" | "r = 2" by linarith
  then have "1 + (3 * q + r + q) div 2 \<le> 3 * q + r - q \<and> 2 * q + 1 \<le> 3 * q + r - q \<longleftrightarrow> r \<noteq> 0"
    by cases auto
  with n d show ?thesis by simp
qed

text \<open>With \<open>\<lfloor>n / 3\<rfloor>\<close> silent validators the remaining ones can reach the echo
  and the delivery threshold exactly when 3 does not divide \<open>n\<close>: a network of 3
  validators needs all of them although it counts one as possibly faulty.\<close>

lemma thresholds_attainable:
  assumes "n < 2 ^ 63"
  shows "rp_echo_threshold (params_new n) \<le> n - n div 3 \<and>
      rp_delivery_threshold (params_new n) \<le> n - n div 3 \<longleftrightarrow> n mod 3 \<noteq> 0"
  unfolding params_new_exact [OF assms] by (rule third_attainable)

lemma thresholds_attainable_witness:
  "\<not> (rp_echo_threshold (params_new 3) \<le> 3 - 3 div 3 \<and>
      rp_delivery_threshold (params_new 3) \<le> 3 - 3 div (3 :: nat))"
  using thresholds_attainable [of 3] by simp

end
