(* ===== verification/Broadcast_State.thy ===== *)
theory Broadcast_State
  imports Transport
begin

text \<open>
  The state of one certificate in the double echo: \<^verbatim>\<open>sampler/mod.rs\<close>,
  \<^verbatim>\<open>double_echo/broadcast_state.rs\<close> and \<^verbatim>\<open>double_echo/broadcast_state/status.rs\<close> of the
  crate \<^verbatim>\<open>topos-tce-broadcast\<close>. A \<open>HashSet\<close> is a set; its iteration order, which Rust
  leaves open, is an argument \<open>iter\<close> with \<open>hash_iter_laws\<close>. The field \<open>message_signer\<close> is
  \<open>MessageSigner::sign_message\<close> of the node; \<open>bs_events\<close> lists what was handed to
  \<open>event_sender.try_send\<close>, whose outcome the code ignores. The time of delivery and the
  metrics are not modelled.
\<close>

section \<open>Subscriptions and status\<close>

record subscriptions_view =
  sv_echo :: "validator_id set"
  sv_ready :: "validator_id set"
  network_size :: nat

definition sv_is_none :: "subscriptions_view \<Rightarrow> bool" where
  "sv_is_none sv \<longleftrightarrow> sv_echo sv = {} \<and> sv_ready sv = {}"

definition sv_is_some :: "subscriptions_view \<Rightarrow> bool" where
  "sv_is_some sv \<longleftrightarrow> \<not> sv_is_none sv"

datatype status = Pending | EchoSent | ReadySent | DeliveredWithReadySent | Delivered

definition is_ready_sent :: "status \<Rightarrow> bool" where
  "is_ready_sent st \<longleftrightarrow> st = ReadySent \<or> st = DeliveredWithReadySent"

definition is_delivered :: "status \<Rightarrow> bool" where
  "is_delivered st \<longleftrightarrow> st = Delivered \<or> st = DeliveredWithReadySent"

fun ready_sent :: "status \<Rightarrow> status" where
  "ready_sent EchoSent = ReadySent"
| "ready_sent Delivered = DeliveredWithReadySent"
| "ready_sent st = st"

fun delivered :: "status \<Rightarrow> status" where
  "delivered ReadySent = DeliveredWithReadySent"
| "delivered st = Delivered"

section \<open>The broadcast state\<close>

record 'sig broadcast_state =
  bs_subscriptions :: subscriptions_view
  bs_status :: status
  bs_certificate :: certificate
  bs_validator_id :: validator_id
  bs_echo_threshold :: nat
  bs_ready_threshold :: nat
  bs_delivery_threshold :: nat
  bs_message_signer :: "bytes \<Rightarrow> 'sig option"
  bs_events :: "'sig protocol_event list"
  bs_readies :: "utf8 set"
  bs_expected_position :: "position option"

definition signed_payload :: "certificate_id \<Rightarrow> validator_id \<Rightarrow> bytes" where
  "signed_payload c v = cid_array c @ vid_bytes v"

definition reached_ready_threshold :: "'sig broadcast_state \<Rightarrow> bool" where
  "reached_ready_threshold s =
     (let reached_echo =
        (case checked_sub (network_size (bs_subscriptions s)) (card (sv_echo (bs_subscriptions s))) of
           Some consumed \<Rightarrow> bs_echo_threshold s \<le> consumed
         | None \<Rightarrow> False);
          reached_ready =
        (case checked_sub (network_size (bs_subscriptions s)) (card (sv_ready (bs_subscriptions s))) of
           Some consumed \<Rightarrow> bs_ready_threshold s \<le> consumed
         | None \<Rightarrow> False)
      in reached_echo \<or> reached_ready)"

definition reached_delivery_threshold :: "'sig broadcast_state \<Rightarrow> bool" where
  "reached_delivery_threshold s =
     (case checked_sub (network_size (bs_subscriptions s)) (card (sv_ready (bs_subscriptions s))) of
        Some consumed \<Rightarrow> bs_delivery_threshold s \<le> consumed
      | None \<Rightarrow> False)"

definition update_status :: "'sig broadcast_state \<Rightarrow> 'sig broadcast_state \<times> status option" where
  "update_status s =
     (let cid = cert_id (bs_certificate s); vid = bs_validator_id s in
      if bs_status s = Pending then
        (case bs_message_signer s (signed_payload cid vid) of
           None \<Rightarrow> (s, None)
         | Some signature \<Rightarrow>
             (s\<lparr>bs_events := bs_events s @ [EvEcho cid signature vid], bs_status := EchoSent\<rparr>,
              Some EchoSent))
      else if \<not> is_ready_sent (bs_status s) \<and> reached_ready_threshold s then
        (case bs_message_signer s (signed_payload cid vid) of
           None \<Rightarrow> (s, None)
         | Some signature \<Rightarrow>
             (s\<lparr>bs_events := bs_events s @ [EvReady cid signature vid],
                bs_status := ready_sent (bs_status s)\<rparr>,
              Some (ready_sent (bs_status s))))
      else if \<not> is_delivered (bs_status s) \<and> reached_delivery_threshold s then
        (s\<lparr>bs_status := delivered (bs_status s)\<rparr>, Some (delivered (bs_status s)))
      else (s, None))"

definition broadcast_state_new ::
  "certificate \<Rightarrow> validator_id \<Rightarrow> nat \<Rightarrow> nat \<Rightarrow> nat \<Rightarrow> subscriptions_view \<Rightarrow> bool \<Rightarrow>
   (bytes \<Rightarrow> 'sig option) \<Rightarrow> 'sig broadcast_state" where
  "broadcast_state_new cert vid echo_threshold ready_threshold delivery_threshold view need_gossip signer =
     (let state =
        \<lparr>bs_subscriptions = view, bs_status = Pending, bs_certificate = cert,
         bs_validator_id = vid, bs_echo_threshold = echo_threshold,
         bs_ready_threshold = ready_threshold, bs_delivery_threshold = delivery_threshold,
         bs_message_signer = signer, bs_events = [EvBroadcast (cert_id cert)],
         bs_readies = {}, bs_expected_position = None\<rparr>;
          state = (if need_gossip then state\<lparr>bs_events := bs_events state @ [EvGossip cert]\<rparr> else state)
      in fst (update_status state))"

definition apply_echo :: "validator_id \<Rightarrow> 'sig broadcast_state \<Rightarrow> 'sig broadcast_state \<times> status option" where
  "apply_echo vid s =
     (let view = bs_subscriptions s in
      if vid \<in> sv_echo view
      then update_status (s\<lparr>bs_subscriptions := view\<lparr>sv_echo := sv_echo view - {vid}\<rparr>\<rparr>)
      else (s, None))"

definition apply_ready ::
  "hex \<Rightarrow> validator_id \<Rightarrow> 'sig broadcast_state \<Rightarrow> 'sig broadcast_state \<times> status option" where
  "apply_ready H vid s =
     (let view = bs_subscriptions s in
      if vid \<in> sv_ready view
      then update_status
        (s\<lparr>bs_subscriptions := view\<lparr>sv_ready := sv_ready view - {vid}\<rparr>,
           bs_readies := insert (validator_id_to_string H vid) (bs_readies s)\<rparr>)
      else (s, None))"

text \<open>The text \<^verbatim>\<open>"signature"\<close> that stands in for the signature of a Ready message.\<close>

definition dummy_signature :: utf8 where
  "dummy_signature = [115, 105, 103, 110, 97, 116, 117, 114, 101]"

definition into_delivered ::
  "(utf8 set \<Rightarrow> utf8 list) \<Rightarrow> 'sig broadcast_state \<Rightarrow> unit failure + certificate_delivered" where
  "into_delivered iter s =
     (case bs_expected_position s of
        None \<Rightarrow> Inl Panic
      | Some pos \<Rightarrow> Inr
          \<lparr>cd_certificate = bs_certificate s,
           cd_proof_of_delivery =
             \<lparr>pod_certificate_id = cert_id (bs_certificate s),
              delivery_position =
                \<lparr>src_subnet_id = source_subnet_id (bs_certificate s), src_position = pos\<rparr>,
              pod_readies = map (\<lambda>r. (r, dummy_signature)) (iter (bs_readies s)),
              threshold = of_nat (bs_delivery_threshold s)\<rparr>\<rparr>)"

section \<open>Sequences of messages\<close>

datatype echo_message = MEcho validator_id | MReady validator_id

fun apply_message ::
  "hex \<Rightarrow> echo_message \<Rightarrow> 'sig broadcast_state \<Rightarrow> 'sig broadcast_state \<times> status option" where
  "apply_message H (MEcho v) s = apply_echo v s"
| "apply_message H (MReady v) s = apply_ready H v s"

fun apply_messages :: "hex \<Rightarrow> echo_message list \<Rightarrow> 'sig broadcast_state \<Rightarrow> 'sig broadcast_state" where
  "apply_messages H [] s = s"
| "apply_messages H (m # ms) s = apply_messages H ms (fst (apply_message H m s))"

lemma apply_messages_append:
  "apply_messages H (ms @ ns) s = apply_messages H ns (apply_messages H ms s)"
  by (induction ms arbitrary: s) simp_all

section \<open>The invariant\<close>

definition echoes_seen :: "validator_id set \<Rightarrow> 'sig broadcast_state \<Rightarrow> validator_id set" where
  "echoes_seen V s = V - sv_echo (bs_subscriptions s)"

definition readies_seen :: "validator_id set \<Rightarrow> 'sig broadcast_state \<Rightarrow> validator_id set" where
  "readies_seen V s = V - sv_ready (bs_subscriptions s)"

definition bs_view_inv :: "hex \<Rightarrow> validator_id set \<Rightarrow> 'sig broadcast_state \<Rightarrow> bool" where
  "bs_view_inv H V s \<longleftrightarrow>
     finite V \<and> sv_echo (bs_subscriptions s) \<subseteq> V \<and> sv_ready (bs_subscriptions s) \<subseteq> V \<and>
     network_size (bs_subscriptions s) = card V \<and>
     bs_readies s = validator_id_to_string H ` readies_seen V s"

definition bs_status_inv :: "validator_id set \<Rightarrow> 'sig broadcast_state \<Rightarrow> bool" where
  "bs_status_inv V s \<longleftrightarrow>
     (is_ready_sent (bs_status s) \<longrightarrow>
        bs_echo_threshold s \<le> card (echoes_seen V s) \<or> bs_ready_threshold s \<le> card (readies_seen V s)) \<and>
     (is_delivered (bs_status s) \<longrightarrow> bs_delivery_threshold s \<le> card (readies_seen V s))"

definition bs_inv :: "hex \<Rightarrow> validator_id set \<Rightarrow> 'sig broadcast_state \<Rightarrow> bool" where
  "bs_inv H V s \<longleftrightarrow> bs_view_inv H V s \<and> bs_status_inv V s"

lemma consumed_counts:
  assumes "bs_view_inv H V s"
  shows "checked_sub (network_size (bs_subscriptions s)) (card (sv_echo (bs_subscriptions s))) =
      Some (card (echoes_seen V s))"
    and "checked_sub (network_size (bs_subscriptions s)) (card (sv_ready (bs_subscriptions s))) =
      Some (card (readies_seen V s))"
  using assms
  by (auto simp: bs_view_inv_def echoes_seen_def readies_seen_def checked_sub_def
      card_mono card_Diff_complement)

lemma reached_thresholds:
  assumes "bs_view_inv H V s"
  shows "reached_ready_threshold s \<longleftrightarrow>
      bs_echo_threshold s \<le> card (echoes_seen V s) \<or> bs_ready_threshold s \<le> card (readies_seen V s)"
    and "reached_delivery_threshold s \<longleftrightarrow> bs_delivery_threshold s \<le> card (readies_seen V s)"
  using consumed_counts [OF assms]
  by (simp_all add: reached_ready_threshold_def reached_delivery_threshold_def Let_def)

text \<open>The signature the node puts under its own Echo and Ready of the certificate.\<close>

definition own_signature :: "'sig broadcast_state \<Rightarrow> 'sig option" where
  "own_signature s = bs_message_signer s (signed_payload (cert_id (bs_certificate s)) (bs_validator_id s))"

text \<open>
  One call of \<open>update_status\<close> takes at most one step: it sends the Echo, sends the Ready,
  delivers, or leaves the state alone.
\<close>

lemma update_status_cases:
  obtains (echo) sg where "bs_status s = Pending" "own_signature s = Some sg"
      "update_status s =
        (s\<lparr>bs_events := bs_events s @ [EvEcho (cert_id (bs_certificate s)) sg (bs_validator_id s)],
           bs_status := EchoSent\<rparr>, Some EchoSent)"
  | (ready) sg where "bs_status s \<noteq> Pending" "\<not> is_ready_sent (bs_status s)" "reached_ready_threshold s"
      "own_signature s = Some sg"
      "update_status s =
        (s\<lparr>bs_events := bs_events s @ [EvReady (cert_id (bs_certificate s)) sg (bs_validator_id s)],
           bs_status := ready_sent (bs_status s)\<rparr>, Some (ready_sent (bs_status s)))"
  | (deliver) "bs_status s \<noteq> Pending" "\<not> is_delivered (bs_status s)" "reached_delivery_threshold s"
      "update_status s = (s\<lparr>bs_status := delivered (bs_status s)\<rparr>, Some (delivered (bs_status s)))"
  | (idle) "update_status s = (s, None)"
proof -
  consider "bs_status s = Pending" | "bs_status s \<noteq> Pending" "\<not> is_ready_sent (bs_status s)" "reached_ready_threshold s"
    | "bs_status s \<noteq> Pending" "is_ready_sent (bs_status s) \<or> \<not> reached_ready_threshold s"
      "\<not> is_delivered (bs_status s)" "reached_delivery_threshold s"
    | "bs_status s \<noteq> Pending" "is_ready_sent (bs_status s) \<or> \<not> reached_ready_threshold s"
      "is_delivered (bs_status s) \<or> \<not> reached_delivery_threshold s"
    by blast
  then show thesis
  proof cases
    case 1
    show thesis
    proof (cases "own_signature s")
      case None
      then have "update_status s = (s, None)" using 1 by (simp add: update_status_def own_signature_def)
      then show thesis by (rule that(4))
    next
      case (Some sg)
      show thesis by (rule that(1) [of sg]) (use 1 Some in \<open>simp_all add: update_status_def own_signature_def\<close>)
    qed
  next
    case 2
    show thesis
    proof (cases "own_signature s")
      case None
      then have "update_status s = (s, None)" using 2 by (simp add: update_status_def own_signature_def)
      then show thesis by (rule that(4))
    next
      case (Some sg)
      show thesis by (rule that(2) [of sg]) (use 2 Some in \<open>simp_all add: update_status_def own_signature_def\<close>)
    qed
  next
    case 3
    then have "update_status s = (s\<lparr>bs_status := delivered (bs_status s)\<rparr>, Some (delivered (bs_status s)))"
      by (auto simp: update_status_def Let_def)
    then show thesis using that(3) 3 by blast
  next
    case 4
    then have "update_status s = (s, None)"
      by (auto simp: update_status_def Let_def)
    then show thesis by (rule that(4))
  qed
qed

lemma status_simps [simp]:
  "\<not> is_ready_sent Pending" "\<not> is_ready_sent EchoSent" "is_ready_sent ReadySent"
  "\<not> is_ready_sent Delivered" "is_ready_sent DeliveredWithReadySent"
  "\<not> is_delivered Pending" "\<not> is_delivered EchoSent" "\<not> is_delivered ReadySent"
  "is_delivered Delivered" "is_delivered DeliveredWithReadySent"
  by (simp_all add: is_ready_sent_def is_delivered_def)

lemma bs_view_inv_update [simp]:
  "bs_view_inv H V (s\<lparr>bs_events := es\<rparr>) = bs_view_inv H V s"
  "bs_view_inv H V (s\<lparr>bs_status := st\<rparr>) = bs_view_inv H V s"
  "bs_view_inv H V (s\<lparr>bs_expected_position := p\<rparr>) = bs_view_inv H V s"
  by (simp_all add: bs_view_inv_def readies_seen_def)

lemma seen_update [simp]:
  "echoes_seen V (s\<lparr>bs_events := es\<rparr>) = echoes_seen V s"
  "echoes_seen V (s\<lparr>bs_status := st\<rparr>) = echoes_seen V s"
  "echoes_seen V (s\<lparr>bs_expected_position := p\<rparr>) = echoes_seen V s"
  "readies_seen V (s\<lparr>bs_events := es\<rparr>) = readies_seen V s"
  "readies_seen V (s\<lparr>bs_status := st\<rparr>) = readies_seen V s"
  "readies_seen V (s\<lparr>bs_expected_position := p\<rparr>) = readies_seen V s"
  by (simp_all add: echoes_seen_def readies_seen_def)

lemma update_status_inv:
  assumes "bs_inv H V s"
  shows "bs_inv H V (fst (update_status s))"
proof -
  have view: "bs_view_inv H V s" and st: "bs_status_inv V s"
    using assms by (auto simp: bs_inv_def)
  note reach = reached_thresholds [OF view]
  show ?thesis
  proof (cases s rule: update_status_cases)
    case (echo sg)
    then show ?thesis using view st by (simp add: bs_inv_def bs_status_inv_def)
  next
    case (ready sg)
    then show ?thesis using view st reach
      by (cases "bs_status s") (simp_all add: bs_inv_def bs_status_inv_def)
  next
    case deliver
    then show ?thesis using view st reach
      by (cases "bs_status s") (simp_all add: bs_inv_def bs_status_inv_def)
  next
    case idle
    then show ?thesis using assms by simp
  qed
qed

lemma update_status_frame [simp]:
  "bs_subscriptions (fst (update_status s)) = bs_subscriptions s"
  "bs_readies (fst (update_status s)) = bs_readies s"
  "bs_certificate (fst (update_status s)) = bs_certificate s"
  "bs_validator_id (fst (update_status s)) = bs_validator_id s"
  "bs_echo_threshold (fst (update_status s)) = bs_echo_threshold s"
  "bs_ready_threshold (fst (update_status s)) = bs_ready_threshold s"
  "bs_delivery_threshold (fst (update_status s)) = bs_delivery_threshold s"
  "bs_message_signer (fst (update_status s)) = bs_message_signer s"
  "bs_expected_position (fst (update_status s)) = bs_expected_position s"
  by (cases s rule: update_status_cases, simp_all)+

lemma update_status_seen [simp]:
  "echoes_seen V (fst (update_status s)) = echoes_seen V s"
  "readies_seen V (fst (update_status s)) = readies_seen V s"
  by (simp_all add: echoes_seen_def readies_seen_def)

text \<open>The state after a message was counted and before \<open>update_status\<close> ran.\<close>

definition count_echo :: "validator_id \<Rightarrow> 'sig broadcast_state \<Rightarrow> 'sig broadcast_state" where
  "count_echo v s =
     s\<lparr>bs_subscriptions := (bs_subscriptions s)\<lparr>sv_echo := sv_echo (bs_subscriptions s) - {v}\<rparr>\<rparr>"

definition count_ready :: "hex \<Rightarrow> validator_id \<Rightarrow> 'sig broadcast_state \<Rightarrow> 'sig broadcast_state" where
  "count_ready H v s =
     s\<lparr>bs_subscriptions := (bs_subscriptions s)\<lparr>sv_ready := sv_ready (bs_subscriptions s) - {v}\<rparr>,
       bs_readies := insert (validator_id_to_string H v) (bs_readies s)\<rparr>"

lemma apply_echo_alt:
  "apply_echo v s =
     (if v \<in> sv_echo (bs_subscriptions s) then update_status (count_echo v s) else (s, None))"
  by (simp add: apply_echo_def count_echo_def Let_def)

lemma apply_ready_alt:
  "apply_ready H v s =
     (if v \<in> sv_ready (bs_subscriptions s) then update_status (count_ready H v s) else (s, None))"
  by (simp add: apply_ready_def count_ready_def Let_def)

lemma count_frame [simp]:
  "bs_status (count_echo v s) = bs_status s" "bs_status (count_ready H v s) = bs_status s"
  "bs_events (count_echo v s) = bs_events s" "bs_events (count_ready H v s) = bs_events s"
  "bs_certificate (count_echo v s) = bs_certificate s"
  "bs_certificate (count_ready H v s) = bs_certificate s"
  "bs_validator_id (count_echo v s) = bs_validator_id s"
  "bs_validator_id (count_ready H v s) = bs_validator_id s"
  "bs_echo_threshold (count_echo v s) = bs_echo_threshold s"
  "bs_echo_threshold (count_ready H v s) = bs_echo_threshold s"
  "bs_ready_threshold (count_echo v s) = bs_ready_threshold s"
  "bs_ready_threshold (count_ready H v s) = bs_ready_threshold s"
  "bs_delivery_threshold (count_echo v s) = bs_delivery_threshold s"
  "bs_delivery_threshold (count_ready H v s) = bs_delivery_threshold s"
  "bs_message_signer (count_echo v s) = bs_message_signer s"
  "bs_message_signer (count_ready H v s) = bs_message_signer s"
  "bs_expected_position (count_echo v s) = bs_expected_position s"
  "bs_expected_position (count_ready H v s) = bs_expected_position s"
  by (simp_all add: count_echo_def count_ready_def)

lemma count_seen:
  assumes "bs_view_inv H V s"
  shows "v \<in> sv_echo (bs_subscriptions s) \<Longrightarrow> echoes_seen V (count_echo v s) = insert v (echoes_seen V s)"
    and "readies_seen V (count_echo v s) = readies_seen V s"
    and "v \<in> sv_ready (bs_subscriptions s) \<Longrightarrow> readies_seen V (count_ready H v s) = insert v (readies_seen V s)"
    and "echoes_seen V (count_ready H v s) = echoes_seen V s"
  using assms
  by (auto simp: bs_view_inv_def echoes_seen_def readies_seen_def count_echo_def count_ready_def)

lemma count_view_inv:
  assumes "bs_view_inv H V s"
  shows "bs_view_inv H V (count_echo v s)"
    and "v \<in> sv_ready (bs_subscriptions s) \<Longrightarrow> bs_view_inv H V (count_ready H v s)"
  using assms
  by (auto simp: bs_view_inv_def readies_seen_def count_echo_def count_ready_def)

lemma bs_status_inv_mono:
  assumes "bs_status_inv V s" and "finite V"
    and "echoes_seen V s \<subseteq> echoes_seen V t" and "readies_seen V s \<subseteq> readies_seen V t"
    and "bs_status t = bs_status s"
    and "bs_echo_threshold t = bs_echo_threshold s"
    and "bs_ready_threshold t = bs_ready_threshold s"
    and "bs_delivery_threshold t = bs_delivery_threshold s"
  shows "bs_status_inv V t"
proof -
  have "finite (echoes_seen V t)" "finite (readies_seen V t)"
    using assms(2) by (simp_all add: echoes_seen_def readies_seen_def)
  then have "card (echoes_seen V s) \<le> card (echoes_seen V t)"
      "card (readies_seen V s) \<le> card (readies_seen V t)"
    using assms(3,4) by (simp_all add: card_mono)
  then show ?thesis
    using assms(1,5-) unfolding bs_status_inv_def by auto
qed

lemma apply_message_inv:
  assumes "bs_inv H V s"
  shows "bs_inv H V (fst (apply_message H m s))"
proof -
  have view: "bs_view_inv H V s" and st: "bs_status_inv V s" and fin: "finite V"
    using assms by (auto simp: bs_inv_def bs_view_inv_def)
  show ?thesis
  proof (cases m)
    case (MEcho v)
    have "v \<in> sv_echo (bs_subscriptions s) \<Longrightarrow> bs_inv H V (count_echo v s)"
      using bs_status_inv_mono [OF st fin, of "count_echo v s"] count_view_inv(1) [OF view]
      by (simp add: bs_inv_def count_seen [OF view] subset_insertI)
    then show ?thesis
      using assms MEcho by (simp add: apply_echo_alt update_status_inv)
  next
    case (MReady v)
    have "v \<in> sv_ready (bs_subscriptions s) \<Longrightarrow> bs_inv H V (count_ready H v s)"
      using bs_status_inv_mono [OF st fin, of "count_ready H v s"] count_view_inv(2) [OF view]
      by (simp add: bs_inv_def count_seen [OF view] subset_insertI)
    then show ?thesis
      using assms MReady by (simp add: apply_ready_alt update_status_inv)
  qed
qed

lemma apply_messages_inv:
  "bs_inv H V s \<Longrightarrow> bs_inv H V (apply_messages H ms s)"
  by (induction ms arbitrary: s) (simp_all add: apply_message_inv)

text \<open>The view a broadcast starts with: every validator is still to be heard.\<close>

definition full_view :: "validator_id set \<Rightarrow> subscriptions_view" where
  "full_view V = \<lparr>sv_echo = V, sv_ready = V, network_size = card V\<rparr>"

lemma broadcast_state_new_inv:
  assumes "finite V"
  shows "bs_inv H V (broadcast_state_new cert vid e r d (full_view V) g signer)"
  using assms unfolding broadcast_state_new_def Let_def
  by (intro update_status_inv)
    (simp add: bs_inv_def bs_view_inv_def bs_status_inv_def full_view_def echoes_seen_def readies_seen_def)


lemma apply_message_frame [simp]:
  "bs_certificate (fst (apply_message H m s)) = bs_certificate s"
  "bs_validator_id (fst (apply_message H m s)) = bs_validator_id s"
  "bs_echo_threshold (fst (apply_message H m s)) = bs_echo_threshold s"
  "bs_ready_threshold (fst (apply_message H m s)) = bs_ready_threshold s"
  "bs_delivery_threshold (fst (apply_message H m s)) = bs_delivery_threshold s"
  "bs_message_signer (fst (apply_message H m s)) = bs_message_signer s"
  "bs_expected_position (fst (apply_message H m s)) = bs_expected_position s"
  by (cases m; simp add: apply_echo_alt apply_ready_alt)+

lemma apply_messages_frame [simp]:
  "bs_certificate (apply_messages H ms s) = bs_certificate s"
  "bs_validator_id (apply_messages H ms s) = bs_validator_id s"
  "bs_echo_threshold (apply_messages H ms s) = bs_echo_threshold s"
  "bs_ready_threshold (apply_messages H ms s) = bs_ready_threshold s"
  "bs_delivery_threshold (apply_messages H ms s) = bs_delivery_threshold s"
  "bs_message_signer (apply_messages H ms s) = bs_message_signer s"
  "bs_expected_position (apply_messages H ms s) = bs_expected_position s"
  by (induction ms arbitrary: s) simp_all

lemma broadcast_state_new_frame [simp]:
  "bs_certificate (broadcast_state_new cert vid e r d view g signer) = cert"
  "bs_validator_id (broadcast_state_new cert vid e r d view g signer) = vid"
  "bs_echo_threshold (broadcast_state_new cert vid e r d view g signer) = e"
  "bs_ready_threshold (broadcast_state_new cert vid e r d view g signer) = r"
  "bs_delivery_threshold (broadcast_state_new cert vid e r d view g signer) = d"
  "bs_message_signer (broadcast_state_new cert vid e r d view g signer) = signer"
  "bs_expected_position (broadcast_state_new cert vid e r d view g signer) = None"
  "bs_subscriptions (broadcast_state_new cert vid e r d view g signer) = view"
  by (simp_all add: broadcast_state_new_def Let_def)

lemma broadcast_state_new_status:
  "bs_status (broadcast_state_new cert vid e r d view g signer) =
     (if signer (signed_payload (cert_id cert) vid) = None then Pending else EchoSent)"
  by (auto simp: broadcast_state_new_def update_status_def Let_def split: option.split)

lemma update_status_to_ready:
  assumes "bs_status s = EchoSent" and "own_signature s \<noteq> None" and "reached_ready_threshold s"
  shows "snd (update_status s) = Some ReadySent" and "bs_status (fst (update_status s)) = ReadySent"
  using assms by (auto simp: update_status_def Let_def own_signature_def)

lemma update_status_to_delivered:
  assumes "bs_status s = ReadySent" and "reached_delivery_threshold s"
  shows "snd (update_status s) = Some DeliveredWithReadySent"
    and "bs_status (fst (update_status s)) = DeliveredWithReadySent"
  using assms by (simp_all add: update_status_def Let_def)

lemma broadcast_state_new_seen [simp]:
  "echoes_seen V (broadcast_state_new cert vid e r d (full_view V) g signer) = {}"
  "readies_seen V (broadcast_state_new cert vid e r d (full_view V) g signer) = {}"
  by (simp_all add: echoes_seen_def readies_seen_def full_view_def)

lemma apply_message_seen:
  assumes "bs_inv H V s"
  shows "echoes_seen V (fst (apply_message H m s)) = echoes_seen V s \<union> {v \<in> V. m = MEcho v}"
    and "readies_seen V (fst (apply_message H m s)) = readies_seen V s \<union> {v \<in> V. m = MReady v}"
proof -
  have view: "bs_view_inv H V s" using assms by (simp add: bs_inv_def)
  then have sub: "sv_echo (bs_subscriptions s) \<subseteq> V" "sv_ready (bs_subscriptions s) \<subseteq> V"
    by (simp_all add: bs_view_inv_def)
  show "echoes_seen V (fst (apply_message H m s)) = echoes_seen V s \<union> {v \<in> V. m = MEcho v}"
    using sub by (cases m)
      (auto simp: apply_echo_alt apply_ready_alt count_seen [OF view] echoes_seen_def [of V s])
  show "readies_seen V (fst (apply_message H m s)) = readies_seen V s \<union> {v \<in> V. m = MReady v}"
    using sub by (cases m)
      (auto simp: apply_echo_alt apply_ready_alt count_seen [OF view] readies_seen_def [of V s])
qed

lemma apply_messages_seen:
  assumes "bs_inv H V s"
  shows "echoes_seen V (apply_messages H ms s) = echoes_seen V s \<union> {v \<in> V. MEcho v \<in> set ms}"
    and "readies_seen V (apply_messages H ms s) = readies_seen V s \<union> {v \<in> V. MReady v \<in> set ms}"
  using assms
  by (induction ms arbitrary: s) (auto simp: apply_message_seen apply_message_inv)

section \<open>The properties of one broadcast\<close>

text \<open>
  C19: From a fresh broadcast over the validators \<open>V\<close>, whatever Echo and Ready messages are
  applied in whatever order, the state stays consistent: the sets still to be heard are parts
  of \<open>V\<close>, the recorded readies are exactly the names of the validators heard, the Ready was
  sent only after the echo or the ready threshold was reached, and the certificate is
  delivered only after \<open>delivery_threshold\<close> distinct validators sent Ready.
\<close>

theorem broadcast_state_invariant:
  assumes "finite V"
  shows "bs_inv H V (apply_messages H ms
    (broadcast_state_new cert vid e r d (full_view V) g signer))"
  using assms by (intro apply_messages_inv broadcast_state_new_inv)

definition vid_of :: "nat \<Rightarrow> validator_id" where
  "vid_of n = ValidatorId (replicate 19 0 @ [of_nat n])"

definition example_broadcast :: "nat \<Rightarrow> unit broadcast_state" where
  "example_broadcast n =
     (let ps = params_new n in
      broadcast_state_new (example_certificate 0) (vid_of 0) (rp_echo_threshold ps)
        (rp_ready_threshold ps) (rp_delivery_threshold ps) (full_view (vid_of ` {0..<n})) True
        (\<lambda>_. Some ()))"

lemma example_broadcast_4:
  "example_broadcast 4 = broadcast_state_new (example_certificate 0) (vid_of 0) 3 2 3
     (full_view (vid_of ` {0..<4})) True (\<lambda>_. Some ())"
proof -
  have "rp_echo_threshold (params_new 4) = 3" "rp_ready_threshold (params_new 4) = 2"
    "rp_delivery_threshold (params_new 4) = 3"
    by (simp_all add: params_new_exact)
  then show ?thesis by (simp only: example_broadcast_def Let_def)
qed

theorem broadcast_state_invariant_witness:
  "bs_inv lower_hex (vid_of ` {0..<4})
     (apply_messages lower_hex [MReady (vid_of 1), MReady (vid_of 2), MEcho (vid_of 9)] (example_broadcast 4))"
  unfolding example_broadcast_def Let_def by (rule broadcast_state_invariant) simp

text \<open>
  When a broadcast is delivered, the proof of delivery that \<open>into_delivered\<close> builds
  carries the certificate, its source subnet and the expected position, and the names of at
  least \<open>delivery_threshold\<close> pairwise distinct validators of \<open>V\<close>, each of which sent a Ready.
\<close>

lemma delivered_certificate_has_quorum:
  assumes "hex_laws H" and "hash_iter_laws iter" and "finite V"
    and s: "s = apply_messages H ms (broadcast_state_new cert vid e r d (full_view V) g signer)"
    and "is_delivered (bs_status s)"
    and "into_delivered iter (s\<lparr>bs_expected_position := Some pos\<rparr>) = Inr del"
  shows "cd_certificate del = cert \<and>
    pod_certificate_id (cd_proof_of_delivery del) = cert_id cert \<and>
    delivery_position (cd_proof_of_delivery del) =
      \<lparr>src_subnet_id = source_subnet_id cert, src_position = pos\<rparr> \<and>
    distinct (map fst (pod_readies (cd_proof_of_delivery del))) \<and>
    d \<le> length (pod_readies (cd_proof_of_delivery del)) \<and>
    fst ` set (pod_readies (cd_proof_of_delivery del)) =
      validator_id_to_string H ` {v \<in> V. MReady v \<in> set ms}"
proof -
  let ?R = "{v \<in> V. MReady v \<in> set ms}"
  have inv: "bs_inv H V s"
    unfolding s using \<open>finite V\<close> by (intro apply_messages_inv broadcast_state_new_inv)
  have seen: "readies_seen V s = ?R"
    unfolding s using \<open>finite V\<close> by (simp add: apply_messages_seen broadcast_state_new_inv)
  have "finite ?R" using \<open>finite V\<close> by simp
  have readies: "bs_readies s = validator_id_to_string H ` ?R" and "d \<le> card ?R"
    using inv \<open>is_delivered (bs_status s)\<close> \<open>finite V\<close> s
    by (simp_all add: bs_inv_def bs_view_inv_def bs_status_inv_def flip: seen)
  then have it: "set (iter (bs_readies s)) = bs_readies s" "distinct (iter (bs_readies s))"
    using \<open>hash_iter_laws iter\<close> \<open>finite ?R\<close> by (simp_all add: hash_iter_laws_def)
  then have "length (iter (bs_readies s)) = card ?R"
    using readies card_image [OF inj_on_subset [OF inj_validator_id_to_string [OF \<open>hex_laws H\<close>] subset_UNIV]]
    by (metis distinct_card)
  with it assms(6) readies \<open>d \<le> card ?R\<close> show ?thesis
    by (auto simp: into_delivered_def s comp_def image_image)
qed

definition expected_events :: "bool \<Rightarrow> 'sig broadcast_state \<Rightarrow> 'sig protocol_event list" where
  "expected_events g s =
     (let cert = bs_certificate s; cid = cert_id cert; vid = bs_validator_id s;
          own = (case own_signature s of None \<Rightarrow> [] | Some sg \<Rightarrow> [sg]) in
      EvBroadcast cid # (if g then [EvGossip cert] else []) @
      (if bs_status s = Pending then [] else map (\<lambda>sg. EvEcho cid sg vid) own) @
      (if is_ready_sent (bs_status s) then map (\<lambda>sg. EvReady cid sg vid) own else []))"

definition bs_log_inv :: "bool \<Rightarrow> 'sig broadcast_state \<Rightarrow> bool" where
  "bs_log_inv g s \<longleftrightarrow> bs_events s = expected_events g s \<and> (bs_status s \<noteq> Pending \<longrightarrow> own_signature s \<noteq> None)"

lemma own_signature_frame [simp]:
  "own_signature (s\<lparr>bs_events := es\<rparr>) = own_signature s"
  "own_signature (s\<lparr>bs_status := st\<rparr>) = own_signature s"
  "own_signature (count_echo v s) = own_signature s"
  "own_signature (count_ready H v s) = own_signature s"
  by (simp_all add: own_signature_def)

lemma update_status_log:
  assumes "bs_log_inv g s"
  shows "bs_log_inv g (fst (update_status s))"
proof (cases s rule: update_status_cases)
  case (echo sg)
  then show ?thesis using assms by (simp add: bs_log_inv_def expected_events_def Let_def)
next
  case (ready sg)
  then show ?thesis using assms
    by (cases "bs_status s") (simp_all add: bs_log_inv_def expected_events_def Let_def)
next
  case deliver
  then show ?thesis using assms
    by (cases "bs_status s") (auto simp: bs_log_inv_def expected_events_def Let_def)
qed (use assms in simp)

lemma apply_messages_log:
  "bs_log_inv g s \<Longrightarrow> bs_log_inv g (apply_messages H ms s)"
proof (induction ms arbitrary: s)
  case (Cons m ms)
  have "bs_log_inv g (count_echo v s)" "bs_log_inv g (count_ready H v s)" for v
    using Cons.prems by (simp_all add: bs_log_inv_def expected_events_def Let_def)
  then have "bs_log_inv g (fst (apply_message H m s))"
    using Cons.prems by (cases m) (simp_all add: apply_echo_alt apply_ready_alt update_status_log)
  with Cons.IH show ?case by simp
qed simp

lemma broadcast_state_new_log:
  "bs_log_inv g (broadcast_state_new cert vid e r d view g signer)"
  unfolding broadcast_state_new_def Let_def
  by (intro update_status_log) (simp add: bs_log_inv_def expected_events_def)

text \<open>
  C20: The node sends exactly one Echo and, once and only if it is in a ready status, exactly
  one Ready after it, both for this certificate, under its own id and signature; before them
  it announced the broadcast and, when asked to, gossiped the certificate.
\<close>

theorem broadcast_events_exact:
  "let s = apply_messages H ms (broadcast_state_new cert vid e r d view g signer) in
   bs_events s = expected_events g s \<and> (bs_status s = Pending \<or> own_signature s = signer (signed_payload (cert_id cert) vid)
     \<and> own_signature s \<noteq> None)"
proof -
  let ?s = "apply_messages H ms (broadcast_state_new cert vid e r d view g signer)"
  have "bs_log_inv g ?s" by (intro apply_messages_log broadcast_state_new_log)
  then show ?thesis by (auto simp: bs_log_inv_def Let_def own_signature_def)
qed

text \<open>
  A message counts once. Applying a message that was applied before, or one of a sender
  outside the validator set, returns \<open>None\<close> and leaves the state as it is.
\<close>

lemma repeated_message_ignored:
  assumes "finite V"
    and "s = apply_messages H ms (broadcast_state_new cert vid e r d (full_view V) g signer)"
    and "m \<in> set ms \<or> (\<exists>v. v \<notin> V \<and> (m = MEcho v \<or> m = MReady v))"
  shows "apply_message H m s = (s, None)"
proof -
  have inv: "bs_inv H V s"
    using assms by (simp add: apply_messages_inv broadcast_state_new_inv)
  have "echoes_seen V s = {v \<in> V. MEcho v \<in> set ms}" "readies_seen V s = {v \<in> V. MReady v \<in> set ms}"
    using assms(1,2) by (simp_all add: apply_messages_seen broadcast_state_new_inv)
  moreover have "sv_echo (bs_subscriptions s) \<subseteq> V" "sv_ready (bs_subscriptions s) \<subseteq> V"
    using inv by (simp_all add: bs_inv_def bs_view_inv_def)
  ultimately show ?thesis
    using assms(3)
    by (cases m) (auto simp: apply_echo_alt apply_ready_alt echoes_seen_def readies_seen_def)
qed

lemma repeated_message_ignored_witness:
  "let s = apply_messages lower_hex [MReady (vid_of 1), MEcho (vid_of 2)] (example_broadcast 4)
   in apply_message lower_hex (MReady (vid_of 1)) s = (s, None)"
  unfolding example_broadcast_def Let_def
  by (rule repeated_message_ignored [OF _ refl]) simp_all

section \<open>The status as a function of the quorums\<close>

text \<open>
  The specification: the status the protocol prescribes for a validator that has heard the
  Echo of the validators \<open>E\<close> and the Ready of the validators \<open>R\<close>.
\<close>

definition quorum_status :: "nat \<Rightarrow> nat \<Rightarrow> nat \<Rightarrow> nat \<Rightarrow> nat \<Rightarrow> status" where
  "quorum_status e r d echoes readies =
     (if d \<le> readies then DeliveredWithReadySent
      else if e \<le> echoes \<or> r \<le> readies then ReadySent
      else EchoSent)"

definition state_quorum_status :: "validator_id set \<Rightarrow> 'sig broadcast_state \<Rightarrow> status" where
  "state_quorum_status V s = quorum_status (bs_echo_threshold s) (bs_ready_threshold s)
     (bs_delivery_threshold s) (card (echoes_seen V s)) (card (readies_seen V s))"

text \<open>One step of the code from a state that agrees with the specification before the message.\<close>

lemma update_status_quorum:
  assumes view: "bs_view_inv H V s" and sig: "own_signature s = Some sg"
    and st: "bs_status s = quorum_status (bs_echo_threshold s) (bs_ready_threshold s)
      (bs_delivery_threshold s) k l"
    and counts: "card (echoes_seen V s) = Suc k \<and> card (readies_seen V s) = l \<or>
      card (echoes_seen V s) = k \<and> card (readies_seen V s) = Suc l"
    and th: "bs_ready_threshold s < bs_delivery_threshold s"
  shows "bs_status (fst (update_status s)) = state_quorum_status V s"
proof -
  have sg: "bs_message_signer s (signed_payload (cert_id (bs_certificate s)) (bs_validator_id s)) = Some sg"
    using sig by (simp add: own_signature_def)
  consider "bs_status s = EchoSent" | "bs_status s = ReadySent" | "bs_status s = DeliveredWithReadySent"
    using st by (auto simp: quorum_status_def split: if_splits)
  then show ?thesis
    using st counts th
    by cases (auto simp: update_status_def Let_def sg reached_thresholds [OF view]
        state_quorum_status_def quorum_status_def split: if_splits)
qed

lemma apply_message_quorum:
  assumes inv: "bs_inv H V s" and sig: "own_signature s = Some sg"
    and st: "bs_status s = state_quorum_status V s"
    and th: "bs_ready_threshold s < bs_delivery_threshold s"
  shows "bs_status (fst (apply_message H m s)) = state_quorum_status V (fst (apply_message H m s))"
proof -
  have view: "bs_view_inv H V s" and fin: "finite (echoes_seen V s)" "finite (readies_seen V s)"
    using inv by (simp_all add: bs_inv_def bs_view_inv_def echoes_seen_def readies_seen_def)
  have "v \<in> sv_echo (bs_subscriptions s) \<Longrightarrow>
      bs_status (fst (update_status (count_echo v s))) = state_quorum_status V (count_echo v s)" for v
    using st th sig fin count_seen(1,2) [OF view, of v]
    by (intro update_status_quorum [OF count_view_inv(1) [OF view], of v sg
          "card (echoes_seen V s)" "card (readies_seen V s)"])
      (simp_all add: state_quorum_status_def echoes_seen_def [of V s])
  moreover have "v \<in> sv_ready (bs_subscriptions s) \<Longrightarrow>
      bs_status (fst (update_status (count_ready H v s))) = state_quorum_status V (count_ready H v s)" for v
    using st th sig fin count_seen(3,4) [OF view, of v]
    by (intro update_status_quorum [OF count_view_inv(2) [OF view, of v], of sg
          "card (echoes_seen V s)" "card (readies_seen V s)"])
      (simp_all add: state_quorum_status_def readies_seen_def [of V s])
  ultimately show ?thesis
    using st
    by (cases m) (simp_all add: apply_echo_alt apply_ready_alt state_quorum_status_def)
qed

lemma apply_messages_quorum:
  assumes "bs_inv H V s" and "own_signature s = Some sg" and "bs_status s = state_quorum_status V s"
    and "bs_ready_threshold s < bs_delivery_threshold s"
  shows "bs_status (apply_messages H ms s) = state_quorum_status V (apply_messages H ms s)"
  using assms
proof (induction ms arbitrary: s)
  case (Cons m ms)
  have "own_signature (fst (apply_message H m s)) = Some sg"
    using Cons.prems(2) by (simp add: own_signature_def)
  with Cons show ?case by (simp add: apply_message_inv apply_message_quorum)
qed simp

lemma fresh_status_quorum:
  assumes "finite V" and "signer (signed_payload (cert_id cert) vid) = Some sg"
    and "0 < e" and "0 < r" and "r < d"
    and s: "s = apply_messages H ms (broadcast_state_new cert vid e r d (full_view V) g signer)"
  shows "bs_status s = quorum_status e r d (card {v \<in> V. MEcho v \<in> set ms}) (card {v \<in> V. MReady v \<in> set ms})"
proof -
  let ?n = "broadcast_state_new cert vid e r d (full_view V) g signer"
  have "bs_status ?n = EchoSent"
    using assms by (simp add: broadcast_state_new_status)
  then have "bs_status ?n = state_quorum_status V ?n"
    using assms by (simp add: state_quorum_status_def quorum_status_def)
  then have "bs_status s = state_quorum_status V s"
    unfolding s using assms
    by (intro apply_messages_quorum [of _ _ _ sg]) (simp_all add: broadcast_state_new_inv own_signature_def)
  then show ?thesis
    using assms(1) by (simp add: s state_quorum_status_def apply_messages_seen broadcast_state_new_inv)
qed

text \<open>
  C5: With a working signer and the ready threshold below the delivery threshold, the status
  the code reaches after any sequence of messages, with any repetitions, outsiders and
  order, is the one the protocol prescribes for the sets of validators heard: delivered once
  \<open>delivery_threshold\<close> distinct validators sent Ready, else ready once the echo or the ready
  threshold is reached, else Echo sent.
\<close>

theorem status_refines_quorums:
  assumes "finite V" and "signer (signed_payload (cert_id cert) vid) = Some sg"
    and "0 < e" and "0 < r" and "r < d"
  shows "bs_status (apply_messages H ms (broadcast_state_new cert vid e r d (full_view V) g signer)) =
    quorum_status e r d (card {v \<in> V. MEcho v \<in> set ms}) (card {v \<in> V. MReady v \<in> set ms})"
  using assms by (rule fresh_status_quorum) (rule refl)

theorem status_refines_quorums_witness:
  "bs_status (apply_messages lower_hex
     [MReady (vid_of 1), MEcho (vid_of 2), MReady (vid_of 1), MReady (vid_of 9), MReady (vid_of 2),
      MReady (vid_of 3)] (example_broadcast 4)) = DeliveredWithReadySent"
proof -
  let ?ms = "[MReady (vid_of 1), MEcho (vid_of 2), MReady (vid_of 1), MReady (vid_of 9),
    MReady (vid_of 2), MReady (vid_of 3)]"
  have "{vid_of 1, vid_of 2, vid_of 3} \<subseteq> {v \<in> vid_of ` {0..<4}. MReady v \<in> set ?ms}"
    by auto
  from card_mono [OF _ this] have "3 \<le> card {v \<in> vid_of ` {0..<4}. MReady v \<in> set ?ms}"
    by (simp add: vid_of_def)
  then show ?thesis
    using status_refines_quorums [of "vid_of ` {0..<4}" "\<lambda>_. Some ()" "example_certificate 0" "vid_of 0" "()"
        3 2 3 lower_hex ?ms True]
    by (simp add: example_broadcast_4 quorum_status_def)
qed

lemma never_delivered_without_ready_step:
  assumes "bs_view_inv H V s" and "bs_ready_threshold s \<le> bs_delivery_threshold s" and "bs_status s \<noteq> Delivered"
  shows "bs_status (fst (update_status s)) \<noteq> Delivered"
  using assms(2,3)
  by (cases "bs_status s")
    (auto simp: update_status_def Let_def reached_thresholds [OF assms(1)] split: option.split)

lemma never_delivered_without_ready_run:
  assumes "bs_inv H V s" and "bs_ready_threshold s \<le> bs_delivery_threshold s" and "bs_status s \<noteq> Delivered"
  shows "bs_status (apply_messages H ms s) \<noteq> Delivered"
  using assms
proof (induction ms arbitrary: s)
  case (Cons m ms)
  have view: "bs_view_inv H V s" using Cons.prems by (simp add: bs_inv_def)
  have "bs_status (fst (apply_message H m s)) \<noteq> Delivered"
    using Cons.prems never_delivered_without_ready_step [OF count_view_inv(1) [OF view]]
      never_delivered_without_ready_step [OF count_view_inv(2) [OF view]]
    by (cases m) (simp_all add: apply_echo_alt apply_ready_alt)
  then show ?case
    using Cons.IH [OF apply_message_inv [OF Cons.prems(1)]] Cons.prems by simp
qed simp

text \<open>
  With the ready threshold at most the delivery threshold, as in every parameter set the
  node computes, the status \<open>Delivered\<close> (delivered without having sent Ready) is never
  reached, even when the signer fails.
\<close>

lemma never_delivered_without_ready:
  assumes "finite V" and "r \<le> d"
  shows "bs_status (apply_messages H ms (broadcast_state_new cert vid e r d (full_view V) g signer)) \<noteq> Delivered"
proof (rule never_delivered_without_ready_run [OF broadcast_state_new_inv [OF \<open>finite V\<close>]])
  show "bs_status (broadcast_state_new cert vid e r d (full_view V) g signer) \<noteq> Delivered"
    by (simp add: broadcast_state_new_status)
qed (use assms in simp_all)

lemma never_delivered_without_ready_witness:
  "bs_status (apply_messages lower_hex [MReady (vid_of 1), MReady (vid_of 2), MReady (vid_of 3)]
     (broadcast_state_new (example_certificate 0) (vid_of 0) 3 2 3 (full_view (vid_of ` {0..<4})) False
       (\<lambda>_. None :: unit option))) \<noteq> Delivered"
  by (rule never_delivered_without_ready) simp_all

text \<open>
  In a network of one or two validators the ready and the delivery threshold coincide,
  and the code, which takes one step per message, does not deliver when it reaches the
  delivery threshold: after the first Ready of another validator it sends its own Ready,
  reports \<open>ReadySent\<close>, and delivers at the next message that counts.
\<close>

lemma delivery_waits_for_next_message:
  assumes "finite V" and "v \<in> V" and "w \<in> V"
    and "signer (signed_payload (cert_id cert) vid) = Some sg"
    and "s = broadcast_state_new cert vid e 1 1 (full_view V) g signer"
  shows "snd (apply_ready H v s) = Some ReadySent \<and>
    reached_delivery_threshold (fst (apply_ready H v s)) \<and>
    \<not> is_delivered (bs_status (fst (apply_ready H v s))) \<and>
    snd (apply_echo w (fst (apply_ready H v s))) = Some DeliveredWithReadySent"
proof -
  have view: "bs_view_inv H V s" and st: "bs_status s = EchoSent" and full: "bs_subscriptions s = full_view V"
    using broadcast_state_new_inv [OF \<open>finite V\<close>, of H cert vid e 1 1 g signer] assms(4)
    by (simp_all add: assms(5) bs_inv_def broadcast_state_new_status)
  have th: "bs_ready_threshold s = 1" "bs_delivery_threshold s = 1" "own_signature s = Some sg"
    using assms(4) by (simp_all add: assms(5) own_signature_def)
  let ?c = "count_ready H v s"
  let ?t = "fst (apply_ready H v s)"
  have v: "v \<in> sv_ready (bs_subscriptions s)" using full \<open>v \<in> V\<close> by (simp add: full_view_def)
  note cv = count_view_inv(2) [OF view v] count_seen(3) [OF view v]
  have ready: "apply_ready H v s = update_status ?c" using v by (simp add: apply_ready_alt)
  have seen: "card (readies_seen V ?c) = 1"
    using cv(2) full by (simp add: readies_seen_def full_view_def)
  have tview: "bs_view_inv H V ?t" and tseen: "readies_seen V ?t = readies_seen V ?c"
    and w: "w \<in> sv_echo (bs_subscriptions ?t)" and th_t: "bs_delivery_threshold ?t = 1"
    using cv(1) full th \<open>w \<in> V\<close>
    by (simp_all add: ready bs_view_inv_def full_view_def count_ready_def)
  have t: "snd (apply_ready H v s) = Some ReadySent" "bs_status ?t = ReadySent"
    using update_status_to_ready [of ?c] st seen reached_thresholds(1) [OF cv(1)] th
    by (simp_all add: ready)
  have d: "reached_delivery_threshold ?t" "reached_delivery_threshold (count_echo w ?t)"
    using seen reached_thresholds(2) [OF tview] reached_thresholds(2) [OF count_view_inv(1) [OF tview, of w]]
    by (simp_all add: count_seen(2) [OF tview] tseen th_t)
  show ?thesis
    using t d w update_status_to_delivered(1) [of "count_echo w ?t"] by (simp add: apply_echo_alt)
qed

lemma delivery_waits_for_next_message_witness:
  "let s = example_broadcast 2; t = fst (apply_ready lower_hex (vid_of 1) s) in
   snd (apply_ready lower_hex (vid_of 1) s) = Some ReadySent \<and> \<not> is_delivered (bs_status t) \<and>
   reached_delivery_threshold t"
proof -
  have thresholds: "rp_echo_threshold (params_new 2) = 2" "rp_ready_threshold (params_new 2) = 1"
    "rp_delivery_threshold (params_new 2) = 1"
    by (simp_all add: params_new_exact)
  have "example_broadcast 2 = broadcast_state_new (example_certificate 0) (vid_of 0) 2 1 1
     (full_view (vid_of ` {0..<2})) True (\<lambda>_. Some ())"
    using thresholds by (simp only: example_broadcast_def Let_def)
  from delivery_waits_for_next_message [OF _ _ _ _ this, of "vid_of 1" "vid_of 0" "()" lower_hex]
  show ?thesis by (simp add: Let_def)
qed

lemma hash_iter_sorted: "hash_iter_laws (sorted_list_of_set :: utf8 set \<Rightarrow> utf8 list)"
  by (simp add: hash_iter_laws_def)

lemma delivered_certificate_has_quorum_witness:
  "\<exists>del. into_delivered sorted_list_of_set
     ((apply_messages lower_hex [MReady (vid_of 1), MReady (vid_of 2), MReady (vid_of 3)]
        (example_broadcast 4))\<lparr>bs_expected_position := Some 7\<rparr>) = Inr del \<and>
     3 \<le> length (pod_readies (cd_proof_of_delivery del))"
proof -
  let ?ms = "[MReady (vid_of 1), MReady (vid_of 2), MReady (vid_of 3)]"
  let ?s = "apply_messages lower_hex ?ms (example_broadcast 4)"
  obtain del where del: "into_delivered sorted_list_of_set (?s\<lparr>bs_expected_position := Some 7\<rparr>) = Inr del"
    by (simp add: into_delivered_def)
  have "{v \<in> vid_of ` {0..<4}. MReady v \<in> set ?ms} = {vid_of 1, vid_of 2, vid_of 3}"
    by auto
  then have "card {v \<in> vid_of ` {0..<4}. MReady v \<in> set ?ms} = 3"
    by (simp add: vid_of_def)
  then have "is_delivered (bs_status ?s)"
    unfolding example_broadcast_4
    by (subst fresh_status_quorum [OF _ _ _ _ _ refl]) (simp_all add: quorum_status_def)
  from delivered_certificate_has_quorum [OF lower_hex_laws hash_iter_sorted _
      arg_cong [OF example_broadcast_4, of "apply_messages lower_hex ?ms"] this del]
  show ?thesis using del by auto
qed

end
