(* ===== verification/Rocks.thy ===== *)
theory Rocks
  imports Core_Types
begin

text \<open>
  The column families of \<^verbatim>\<open>topos-tce-storage/src/rocks\<close>: the typed view \<open>DBColumn\<close> of a RocksDB
  column family, its iterators and its write batches (\<^verbatim>\<open>db_column.rs\<close>, \<^verbatim>\<open>iterator.rs\<close>,
  \<^verbatim>\<open>map.rs\<close>) and the errors of the storage (\<^verbatim>\<open>errors.rs\<close>).

  RocksDB is an argument: the record \<open>rocksdb\<close> over a type \<open>'db\<close> of database states, with
  \<open>rocksdb_laws\<close> for what its documentation promises. So is bincode: a \<open>codec\<close> per type.
  Keys are byte lists, as their order is what iterators depend on; a serialised value is an
  element of a type \<open>'b\<close>. A method that writes returns the new state of the database.
\<close>

section \<open>Errors\<close>

type_synonym rocks_error = utf8

datatype internal_storage_error =
    CertificateAlreadyExists
  | CertificateNotFound certificate_id
  | UnableToStartStorage
  | RocksDBError rocks_error
  | InvalidColumnFamily string
  | UnableToDeserializeValue
  | InvalidQueryArgument string
  | Bincode
  | ConcurrentDBBatchDetected
  | PositionError position_error bytes
  | InvalidSubnetId
  | MissingHeadForSubnet subnet_id
  | CertificateAlreadyExistsAtPosition u64 subnet_id

datatype storage_error =
    InternalStorage internal_storage_error
  | CommunicationChannelClosed
  | ResponseChannel
  | ShutdownCommunication

section \<open>RocksDB\<close>

datatype 'b batch_op = BatchPut string bytes 'b | BatchDelete string bytes

text \<open>
  Opening a directory with descriptors of the column families, the families of a database with the size of their prefix extractor, point reads, single and
  batched writes, the entries a raw iterator visits from the first key on, and the entries a
  prefix iterator visits from a key it was positioned at.
\<close>

record ('db, 'b) rocksdb =
  open_cf_descriptors :: "string list \<Rightarrow> (string \<times> nat option) list \<Rightarrow> rocks_error + 'db"
  cf_handle :: "'db \<Rightarrow> string \<Rightarrow> nat option option"
  get_pinned_cf :: "'db \<Rightarrow> string \<Rightarrow> bytes \<Rightarrow> rocks_error + 'b option"
  batched_multi_get_cf :: "'db \<Rightarrow> string \<Rightarrow> bytes list \<Rightarrow> (rocks_error + 'b option) list"
  put_cf :: "'db \<Rightarrow> string \<Rightarrow> bytes \<Rightarrow> 'b \<Rightarrow> rocks_error + 'db"
  delete_cf :: "'db \<Rightarrow> string \<Rightarrow> bytes \<Rightarrow> rocks_error + 'db"
  merge_cf :: "'db \<Rightarrow> string \<Rightarrow> bytes \<Rightarrow> 'b \<Rightarrow> rocks_error + 'db"
  write_batch :: "'db \<Rightarrow> 'b batch_op list \<Rightarrow> rocks_error + 'db"
  raw_iterator_cf :: "'db \<Rightarrow> string \<Rightarrow> (bytes \<times> 'b) list"
  prefix_iterator_cf :: "'db \<Rightarrow> string \<Rightarrow> bytes \<Rightarrow> (bytes \<times> 'b) list"

type_synonym 'b cf_maps = "string \<Rightarrow> bytes \<rightharpoonup> 'b"

definition cf_maps :: "('db, 'b) rocksdb \<Rightarrow> 'db \<Rightarrow> 'b cf_maps" where
  "cf_maps R db cf = map_of (raw_iterator_cf R db cf)"

fun apply_batch_op :: "'b batch_op \<Rightarrow> 'b cf_maps \<Rightarrow> 'b cf_maps" where
  "apply_batch_op (BatchPut cf k v) m = m(cf := (m cf)(k \<mapsto> v))"
| "apply_batch_op (BatchDelete cf k) m = m(cf := (m cf)(k := None))"

text \<open>
  A prefix iterator has \<open>prefix_same_as_start\<close>: in a family with a fixed prefix extractor it
  stops at the first key whose prefix differs from that of the key it was positioned at; a
  family with no extractor has no prefixes, and it runs to the end of the family.
\<close>

definition same_prefix :: "nat option \<Rightarrow> bytes \<Rightarrow> bytes \<Rightarrow> bool" where
  "same_prefix n k x = (case n of None \<Rightarrow> True | Some n \<Rightarrow> take n x = take n k)"

definition rocksdb_reads :: "('db, 'b) rocksdb \<Rightarrow> 'db \<Rightarrow> bool" where
  "rocksdb_reads R db \<longleftrightarrow>
     (\<forall>cf. sorted_wrt (<) (map fst (raw_iterator_cf R db cf))) \<and>
     (\<forall>cf k. (\<exists>e. get_pinned_cf R db cf k = Inl e) \<or> get_pinned_cf R db cf k = Inr (cf_maps R db cf k)) \<and>
     (\<forall>cf ks. list_all2 (\<lambda>k r. (\<exists>e. r = Inl e) \<or> r = Inr (cf_maps R db cf k)) ks
        (batched_multi_get_cf R db cf ks)) \<and>
     (\<forall>cf n k. cf_handle R db cf = Some n \<and> (\<forall>m. n = Some m \<longrightarrow> m \<le> length k) \<longrightarrow>
        prefix_iterator_cf R db cf k =
          filter (\<lambda>(x, _). k \<le> x \<and> same_prefix n k x) (raw_iterator_cf R db cf))"

definition rocksdb_writes :: "('db, 'b) rocksdb \<Rightarrow> 'db \<Rightarrow> bool" where
  "rocksdb_writes R db \<longleftrightarrow>
     (\<forall>cf k v db'. put_cf R db cf k v = Inr db' \<longrightarrow>
        cf_maps R db' = apply_batch_op (BatchPut cf k v) (cf_maps R db) \<and> cf_handle R db' = cf_handle R db) \<and>
     (\<forall>cf k db'. delete_cf R db cf k = Inr db' \<longrightarrow>
        cf_maps R db' = apply_batch_op (BatchDelete cf k) (cf_maps R db) \<and> cf_handle R db' = cf_handle R db) \<and>
     (\<forall>ops db'. write_batch R db ops = Inr db' \<longrightarrow>
        cf_maps R db' = fold apply_batch_op ops (cf_maps R db) \<and> cf_handle R db' = cf_handle R db)"

definition rocksdb_laws :: "('db, 'b) rocksdb \<Rightarrow> bool" where
  "rocksdb_laws R \<longleftrightarrow>
     (\<forall>db. rocksdb_reads R db \<and> rocksdb_writes R db) \<and>
     (\<forall>path cfs db. open_cf_descriptors R path cfs = Inr db \<longrightarrow>
        (\<forall>cf n. map_of cfs cf = Some n \<longrightarrow> cf_handle R db cf = Some n))"

text \<open>No operation fails with an error of the operating system or the device.\<close>

definition rocksdb_reliable :: "('db, 'b) rocksdb \<Rightarrow> bool" where
  "rocksdb_reliable R \<longleftrightarrow>
     (\<forall>db cf k. \<exists>r. get_pinned_cf R db cf k = Inr r) \<and>
     (\<forall>db cf ks. \<forall>r \<in> set (batched_multi_get_cf R db cf ks). \<exists>v. r = Inr v) \<and>
     (\<forall>db cf k v. \<exists>db'. put_cf R db cf k v = Inr db') \<and>
     (\<forall>db cf k. \<exists>db'. delete_cf R db cf k = Inr db') \<and>
     (\<forall>db ops. \<exists>db'. write_batch R db ops = Inr db')"

definition init_with_cfs ::
  "('db, 'b) rocksdb \<Rightarrow> string list \<Rightarrow> (string \<times> nat option) list \<Rightarrow> internal_storage_error + 'db" where
  "init_with_cfs R path cfs = map_err RocksDBError (open_cf_descriptors R path cfs)"

section \<open>Codecs\<close>

record ('t, 'e) codec =
  ser :: "'t \<Rightarrow> 'e option"
  de :: "'e \<Rightarrow> 't option"

text \<open>
  Keys have a fixed length big endian encoding \<open>enc\<close>. A value of the model that no value of
  the Rust type stands for (an id with a wrong number of bytes) has none.
\<close>

definition key_codec_laws :: "('k \<Rightarrow> bool) \<Rightarrow> ('k \<Rightarrow> bytes) \<Rightarrow> ('k, bytes) codec \<Rightarrow> bool" where
  "key_codec_laws ok enc c \<longleftrightarrow>
     (\<forall>k. ser c k = (if ok k then Some (enc k) else None) \<and> (ok k \<longrightarrow> de c (enc k) = Some k))"

definition value_codec_laws :: "('v, 'b) codec \<Rightarrow> bool" where
  "value_codec_laws c \<longleftrightarrow> (\<forall>v. \<exists>b. ser c v = Some b \<and> de c b = Some v)"

section \<open>Columns\<close>

text \<open>The databases a node opens; a column and a batch refer to one of them, as the \<open>Arc\<close> does.\<close>

datatype db_id = PerpetualDb | IndexDb | PendingDb

record ('k, 'v, 'b) db_column =
  col_db :: db_id
  col_cf :: string
  key_codec :: "('k, bytes) codec"
  val_codec :: "('v, 'b) codec"

definition db_column_cf ::
  "('db, 'b) rocksdb \<Rightarrow> ('k, 'v, 'b) db_column \<Rightarrow> 'db \<Rightarrow> internal_storage_error + string" where
  "db_column_cf R c db =
     (if cf_handle R db (col_cf c) = None then Inl (InvalidColumnFamily (col_cf c)) else Inr (col_cf c))"

definition be_fix_int_ser :: "('k, bytes) codec \<Rightarrow> 'k \<Rightarrow> internal_storage_error + bytes" where
  "be_fix_int_ser c k = ok_or Bincode (ser c k)"

definition db_column_insert ::
  "('db, 'b) rocksdb \<Rightarrow> ('k, 'v, 'b) db_column \<Rightarrow> 'k \<Rightarrow> 'v \<Rightarrow> 'db \<Rightarrow> internal_storage_error + 'db" where
  "db_column_insert R c key value db =
     and_then (db_column_cf R c db) (\<lambda>cf.
     and_then (be_fix_int_ser (key_codec c) key) (\<lambda>key_buf.
     and_then (ok_or Bincode (ser (val_codec c) value)) (\<lambda>value_buf.
     map_err RocksDBError (put_cf R db cf key_buf value_buf))))"

definition db_column_delete ::
  "('db, 'b) rocksdb \<Rightarrow> ('k, 'v, 'b) db_column \<Rightarrow> 'k \<Rightarrow> 'db \<Rightarrow> internal_storage_error + 'db" where
  "db_column_delete R c key db =
     and_then (be_fix_int_ser (key_codec c) key) (\<lambda>key_buf.
     and_then (db_column_cf R c db) (\<lambda>cf.
     map_err RocksDBError (delete_cf R db cf key_buf)))"

definition db_column_get ::
  "('db, 'b) rocksdb \<Rightarrow> ('k, 'v, 'b) db_column \<Rightarrow> 'k \<Rightarrow> 'db \<Rightarrow> internal_storage_error + 'v option" where
  "db_column_get R c key db =
     and_then (be_fix_int_ser (key_codec c) key) (\<lambda>key_buf.
     and_then (db_column_cf R c db) (\<lambda>cf.
     and_then (map_err RocksDBError (get_pinned_cf R db cf key_buf)) (\<lambda>r.
     (case r of
        None \<Rightarrow> Inr None
      | Some v \<Rightarrow> (case de (val_codec c) v of
            Some x \<Rightarrow> Inr (Some x)
          | None \<Rightarrow> Inl UnableToDeserializeValue)))))"

definition decode_value ::
  "('k, 'v, 'b) db_column \<Rightarrow> 'b option \<Rightarrow> internal_storage_error + 'v option" where
  "decode_value c e =
     (case e of
        Some v \<Rightarrow> (case de (val_codec c) v of Some x \<Rightarrow> Inr (Some x) | None \<Rightarrow> Inl Bincode)
      | None \<Rightarrow> Inr None)"

definition db_column_multi_get ::
  "('db, 'b) rocksdb \<Rightarrow> ('k, 'v, 'b) db_column \<Rightarrow> 'k list \<Rightarrow> 'db \<Rightarrow>
   internal_storage_error + 'v option list" where
  "db_column_multi_get R c keys db =
     (let keys = collect_results (map (be_fix_int_ser (key_codec c)) keys) in
      and_then (db_column_cf R c db) (\<lambda>cf.
      and_then keys (\<lambda>ks.
      and_then (collect_results (map (map_err RocksDBError) (batched_multi_get_cf R db cf ks))) (\<lambda>results.
      collect_results (map (decode_value c) results)))))"

definition db_column_merge ::
  "('db, 'b) rocksdb \<Rightarrow> ('k, 'v, 'b) db_column \<Rightarrow> 'k \<Rightarrow> 'v \<Rightarrow> 'db \<Rightarrow> internal_storage_error + 'db" where
  "db_column_merge R c key value db =
     and_then (be_fix_int_ser (key_codec c) key) (\<lambda>key_buf.
     and_then (ok_or Bincode (ser (val_codec c) value)) (\<lambda>value_buf.
     and_then (db_column_cf R c db) (\<lambda>cf.
     map_err RocksDBError (merge_cf R db cf key_buf value_buf))))"

section \<open>Batches\<close>

record 'b db_batch =
  batch_db :: db_id
  batch_ops :: "'b batch_op list"

definition db_batch_new :: "('k, 'v, 'b) db_column \<Rightarrow> 'b db_batch" where
  "db_batch_new c = \<lparr>batch_db = col_db c, batch_ops = []\<rparr>"

definition check_cross_batch :: "db_id \<Rightarrow> db_id \<Rightarrow> internal_storage_error + unit" where
  "check_cross_batch base current = (if base \<noteq> current then Inl ConcurrentDBBatchDetected else Inr ())"

definition batch_delete ::
  "('db, 'b) rocksdb \<Rightarrow> ('k, 'v, 'b) db_column \<Rightarrow> 'k \<Rightarrow> 'db \<Rightarrow> 'b db_batch \<Rightarrow>
   internal_storage_error + 'b db_batch" where
  "batch_delete R c key db b =
     and_then (check_cross_batch (batch_db b) (col_db c)) (\<lambda>_.
     and_then (be_fix_int_ser (key_codec c) key) (\<lambda>key_buffer.
     and_then (db_column_cf R c db) (\<lambda>cf.
     Inr (b\<lparr>batch_ops := batch_ops b @ [BatchDelete cf key_buffer]\<rparr>))))"

fun batch_put_all ::
  "('db, 'b) rocksdb \<Rightarrow> ('k, 'v, 'b) db_column \<Rightarrow> ('k \<times> 'v) list \<Rightarrow> 'db \<Rightarrow> 'b batch_op list \<Rightarrow>
   internal_storage_error + 'b batch_op list" where
  "batch_put_all R c [] db ops = Inr ops"
| "batch_put_all R c ((k, v) # kvs) db ops =
     and_then (be_fix_int_ser (key_codec c) k) (\<lambda>key_buffer.
     and_then (ok_or Bincode (ser (val_codec c) v)) (\<lambda>value_buffer.
     and_then (db_column_cf R c db) (\<lambda>cf.
     batch_put_all R c kvs db (ops @ [BatchPut cf key_buffer value_buffer]))))"

definition insert_batch ::
  "('db, 'b) rocksdb \<Rightarrow> ('k, 'v, 'b) db_column \<Rightarrow> ('k \<times> 'v) list \<Rightarrow> 'db \<Rightarrow> 'b db_batch \<Rightarrow>
   internal_storage_error + 'b db_batch" where
  "insert_batch R c kvs db b =
     and_then (check_cross_batch (batch_db b) (col_db c)) (\<lambda>_.
     and_then (batch_put_all R c kvs db (batch_ops b)) (\<lambda>ops.
     Inr (b\<lparr>batch_ops := ops\<rparr>)))"

definition batch_write ::
  "('db, 'b) rocksdb \<Rightarrow> 'b db_batch \<Rightarrow> 'db \<Rightarrow> internal_storage_error + 'db" where
  "batch_write R b db = map_err RocksDBError (write_batch R db (batch_ops b))"

definition multi_insert ::
  "('db, 'b) rocksdb \<Rightarrow> ('k, 'v, 'b) db_column \<Rightarrow> ('k \<times> 'v) list \<Rightarrow> 'db \<Rightarrow> internal_storage_error + 'db" where
  "multi_insert R c kvs db =
     and_then (insert_batch R c kvs db (db_batch_new c)) (\<lambda>b. batch_write R b db)"

section \<open>Iterators\<close>

text \<open>
  A \<open>ColumnIterator\<close> ends at the first entry whose key or value does not deserialise.
\<close>

fun column_iterator :: "('k, 'v, 'b) db_column \<Rightarrow> (bytes \<times> 'b) list \<Rightarrow> ('k \<times> 'v) list" where
  "column_iterator c [] = []"
| "column_iterator c ((kb, vb) # rest) =
     (case de (key_codec c) kb of
        None \<Rightarrow> []
      | Some k \<Rightarrow> (case de (val_codec c) vb of
            None \<Rightarrow> []
          | Some v \<Rightarrow> (k, v) # column_iterator c rest))"

definition db_column_iter ::
  "('db, 'b) rocksdb \<Rightarrow> ('k, 'v, 'b) db_column \<Rightarrow> 'db \<Rightarrow> internal_storage_error + ('k \<times> 'v) list" where
  "db_column_iter R c db =
     and_then (db_column_cf R c db) (\<lambda>cf. Inr (column_iterator c (raw_iterator_cf R db cf)))"

datatype iterator_mode = IterStart | IterEnd | IterFrom bytes

text \<open>From the last entry the iterator is still moved forward, so it yields at most that entry.\<close>

definition iter_with_mode ::
  "('db, 'b) rocksdb \<Rightarrow> ('k, 'v, 'b) db_column \<Rightarrow> iterator_mode \<Rightarrow> 'db \<Rightarrow>
   internal_storage_error failure + ('k \<times> 'v) list" where
  "iter_with_mode R c mode db =
     and_then (map_err Failed (db_column_cf R c db)) (\<lambda>cf.
     (let entries = raw_iterator_cf R db cf in
      case mode of
        IterStart \<Rightarrow> Inr (column_iterator c entries)
      | IterEnd \<Rightarrow> Inr (column_iterator c (drop (length entries - 1) entries))
      | IterFrom _ \<Rightarrow> Inl Panic))"

definition prefix_iter ::
  "('db, 'b) rocksdb \<Rightarrow> ('k, 'v, 'b) db_column \<Rightarrow> ('p, bytes) codec \<Rightarrow> 'p \<Rightarrow> 'db \<Rightarrow>
   internal_storage_error + ('k \<times> 'v) list" where
  "prefix_iter R c pc prefix db =
     and_then (db_column_cf R c db) (\<lambda>cf.
     and_then (be_fix_int_ser pc prefix) (\<lambda>p.
     Inr (column_iterator c (prefix_iterator_cf R db cf p))))"

definition prefix_iter_at ::
  "('db, 'b) rocksdb \<Rightarrow> ('k, 'v, 'b) db_column \<Rightarrow> ('p, bytes) codec \<Rightarrow> ('i, bytes) codec \<Rightarrow>
   'p \<Rightarrow> 'i \<Rightarrow> 'db \<Rightarrow> internal_storage_error + ('k \<times> 'v) list" where
  "prefix_iter_at R c pc ic prefix idx db =
     and_then (db_column_cf R c db) (\<lambda>cf.
     and_then (be_fix_int_ser pc prefix) (\<lambda>p.
     and_then (be_fix_int_ser ic idx) (\<lambda>i.
     Inr (column_iterator c (prefix_iterator_cf R db cf i)))))"

section \<open>A column as a map\<close>

definition column_laws :: "('k \<Rightarrow> bool) \<Rightarrow> ('k \<Rightarrow> bytes) \<Rightarrow> ('k, 'v, 'b) db_column \<Rightarrow> bool" where
  "column_laws ok enc c \<longleftrightarrow> key_codec_laws ok enc (key_codec c) \<and> value_codec_laws (val_codec c)"

definition column_view :: "('k, 'v, 'b) db_column \<Rightarrow> 'b cf_maps \<Rightarrow> 'k \<rightharpoonup> 'v" where
  "column_view c m k =
     Option.bind (ser (key_codec c) k) (\<lambda>kb. Option.bind (m (col_cf c) kb) (de (val_codec c)))"

text \<open>Every entry of the family is the encoding of a key and a value.\<close>

definition column_inv :: "('k, 'v, 'b) db_column \<Rightarrow> 'b cf_maps \<Rightarrow> bool" where
  "column_inv c m \<longleftrightarrow> (\<forall>kb vb. m (col_cf c) kb = Some vb \<longrightarrow>
     (\<exists>k v. ser (key_codec c) k = Some kb \<and> de (val_codec c) vb = Some v))"

lemma column_key:
  assumes "column_laws ok enc c"
  shows "ser (key_codec c) k = (if ok k then Some (enc k) else None)"
    and "ok k \<Longrightarrow> de (key_codec c) (enc k) = Some k"
  using assms by (simp_all add: column_laws_def key_codec_laws_def)

lemma column_key_inject:
  "column_laws ok enc c \<Longrightarrow> ok k \<Longrightarrow> ok k' \<Longrightarrow> enc k = enc k' \<longleftrightarrow> k = k'"
  by (metis column_key(2) option.inject)

lemma column_value:
  assumes "column_laws ok enc c"
  obtains vb where "ser (val_codec c) v = Some vb" "de (val_codec c) vb = Some v"
  using assms by (auto simp: column_laws_def value_codec_laws_def)

definition put_op :: "('k, 'v, 'b) db_column \<Rightarrow> 'k \<times> 'v \<Rightarrow> 'b batch_op" where
  "put_op c = (\<lambda>(k, v). BatchPut (col_cf c) (the (ser (key_codec c) k)) (the (ser (val_codec c) v)))"

lemma column_view_put:
  assumes "column_laws ok enc c" and "ok k"
  shows "column_view c (apply_batch_op (put_op c (k, v)) m) = (column_view c m)(k \<mapsto> v)"
proof -
  obtain vb where "ser (val_codec c) v = Some vb" "de (val_codec c) vb = Some v"
    using column_value [OF assms(1)] by blast
  then show ?thesis
    using assms(2)
    by (auto simp: column_view_def put_op_def column_key(1) [OF assms(1)]
        column_key_inject [OF assms(1)] fun_eq_iff)
qed

lemma column_inv_put:
  assumes "column_laws ok enc c" and "ok k" and "column_inv c m"
  shows "column_inv c (apply_batch_op (put_op c (k, v)) m)"
proof -
  obtain vb where "ser (val_codec c) v = Some vb" "de (val_codec c) vb = Some v"
    using column_value [OF assms(1)] by blast
  then show ?thesis
    using assms(2,3) by (auto simp: column_inv_def put_op_def column_key(1) [OF assms(1)])
qed

lemma column_view_delete:
  assumes "column_laws ok enc c" and "ok k"
  shows "column_view c (apply_batch_op (BatchDelete (col_cf c) (enc k)) m) = (column_view c m)(k := None)"
  using assms(2)
  by (auto simp: column_view_def column_key(1) [OF assms(1)] column_key_inject [OF assms(1)] fun_eq_iff)

lemma column_inv_delete:
  "column_inv c m \<Longrightarrow> column_inv c (apply_batch_op (BatchDelete cf kb) m)"
  by (auto simp: column_inv_def)

fun batch_op_cf :: "'b batch_op \<Rightarrow> string" where
  "batch_op_cf (BatchPut cf _ _) = cf"
| "batch_op_cf (BatchDelete cf _) = cf"

lemma batch_op_cf_put [simp]: "batch_op_cf (put_op c kv) = col_cf c"
  by (cases kv) (simp add: put_op_def)

text \<open>A batch changes only the families its operations name.\<close>

lemma apply_batch_other:
  "\<forall>op \<in> set ops. batch_op_cf op \<noteq> cf \<Longrightarrow> fold apply_batch_op ops m cf = m cf"
proof (induction ops arbitrary: m)
  case (Cons op ops)
  then show ?case by (cases op) auto
qed simp

lemma column_other_family:
  assumes "\<forall>op \<in> set ops. batch_op_cf op \<noteq> col_cf c"
  shows "column_view c (fold apply_batch_op ops m) = column_view c m"
    and "column_inv c (fold apply_batch_op ops m) = column_inv c m"
  by (simp_all add: column_view_def column_inv_def apply_batch_other [OF assms] fun_eq_iff)

lemma column_view_puts:
  assumes "column_laws ok enc c" and "\<forall>(k, v) \<in> set kvs. ok k"
  shows "column_view c (fold apply_batch_op (map (put_op c) kvs) m) = column_view c m ++ map_of (rev kvs)"
  using assms(2)
proof (induction kvs arbitrary: m)
  case (Cons kv kvs)
  then show ?case
    by (cases kv) (auto simp: column_view_put [OF assms(1)] map_add_def fun_eq_iff split: option.splits)
qed simp

lemma column_puts_other:
  assumes "col_cf c' \<noteq> col_cf c"
  shows "column_view c (fold apply_batch_op (map (put_op c') kvs) m) = column_view c m"
    and "column_inv c (fold apply_batch_op (map (put_op c') kvs) m) = column_inv c m"
  using assms by (simp_all add: column_other_family)

lemma column_inv_puts:
  assumes "column_laws ok enc c" and "\<forall>(k, v) \<in> set kvs. ok k" and "column_inv c m"
  shows "column_inv c (fold apply_batch_op (map (put_op c) kvs) m)"
  using assms(2,3)
proof (induction kvs arbitrary: m)
  case (Cons kv kvs)
  then show ?case by (cases kv) (simp add: column_inv_put [OF assms(1)])
qed simp

section \<open>What the methods of a column return\<close>

definition column_ready :: "('db, 'b) rocksdb \<Rightarrow> ('k, 'v, 'b) db_column \<Rightarrow> 'db \<Rightarrow> bool" where
  "column_ready R c db \<longleftrightarrow> cf_handle R db (col_cf c) \<noteq> None \<and> column_inv c (cf_maps R db)"

abbreviation col_map :: "('db, 'b) rocksdb \<Rightarrow> ('k, 'v, 'b) db_column \<Rightarrow> 'db \<Rightarrow> 'k \<rightharpoonup> 'v" where
  "col_map R c db \<equiv> column_view c (cf_maps R db)"

lemma rocksdb_lawsD:
  assumes "rocksdb_laws R"
  shows "rocksdb_reads R db" and "rocksdb_writes R db"
  using assms by (simp_all add: rocksdb_laws_def)

lemma put_cf_law:
  "rocksdb_laws R \<Longrightarrow> put_cf R db cf k v = Inr db' \<Longrightarrow>
     cf_maps R db' = apply_batch_op (BatchPut cf k v) (cf_maps R db) \<and> cf_handle R db' = cf_handle R db"
  using rocksdb_lawsD(2) [of R db] unfolding rocksdb_writes_def by blast

lemma delete_cf_law:
  "rocksdb_laws R \<Longrightarrow> delete_cf R db cf k = Inr db' \<Longrightarrow>
     cf_maps R db' = apply_batch_op (BatchDelete cf k) (cf_maps R db) \<and> cf_handle R db' = cf_handle R db"
  using rocksdb_lawsD(2) [of R db] unfolding rocksdb_writes_def by blast

lemma write_batch_law:
  "rocksdb_laws R \<Longrightarrow> write_batch R db ops = Inr db' \<Longrightarrow>
     cf_maps R db' = fold apply_batch_op ops (cf_maps R db) \<and> cf_handle R db' = cf_handle R db"
  using rocksdb_lawsD(2) [of R db] unfolding rocksdb_writes_def by blast

lemma get_pinned_cf_law:
  "rocksdb_laws R \<Longrightarrow> get_pinned_cf R db cf k = Inr r \<Longrightarrow> r = cf_maps R db cf k"
  using rocksdb_lawsD(1) [of R db] unfolding rocksdb_reads_def by (metis Inr_not_Inl sum.inject(2))

lemma raw_iterator_sorted:
  "rocksdb_laws R \<Longrightarrow> sorted_wrt (<) (map fst (raw_iterator_cf R db cf))"
  using rocksdb_lawsD(1) [of R db] unfolding rocksdb_reads_def by blast

lemma prefix_iterator_law:
  "rocksdb_laws R \<Longrightarrow> cf_handle R db cf = Some n \<Longrightarrow> (\<And>m. n = Some m \<Longrightarrow> m \<le> length k) \<Longrightarrow>
     prefix_iterator_cf R db cf k =
       filter (\<lambda>(x, _). k \<le> x \<and> same_prefix n k x) (raw_iterator_cf R db cf)"
  using rocksdb_lawsD(1) [of R db] unfolding rocksdb_reads_def by blast

lemma multi_get_law:
  "rocksdb_laws R \<Longrightarrow>
     list_all2 (\<lambda>k r. (\<exists>e. r = Inl e) \<or> r = Inr (cf_maps R db cf k)) ks (batched_multi_get_cf R db cf ks)"
  using rocksdb_lawsD(1) [of R db] unfolding rocksdb_reads_def by blast

lemma db_column_get_eq:
  assumes "rocksdb_laws R" and laws: "column_laws ok enc c" and "column_ready R c db" and "ok k"
  shows "db_column_get R c k db = Inr (col_map R c db k) \<or>
    (\<exists>e. get_pinned_cf R db (col_cf c) (enc k) = Inl e \<and> db_column_get R c k db = Inl (RocksDBError e))"
proof (cases "get_pinned_cf R db (col_cf c) (enc k)")
  case (Inl e)
  then show ?thesis
    using assms(3,4)
    by (simp add: db_column_get_def be_fix_int_ser_def column_key(1) [OF laws]
        db_column_cf_def column_ready_def)
next
  case (Inr r)
  then have r: "r = cf_maps R db (col_cf c) (enc k)"
    by (rule get_pinned_cf_law [OF assms(1)])
  have "de (val_codec c) vb \<noteq> None" if "r = Some vb" for vb
    using assms(3) that r by (fastforce simp: column_ready_def column_inv_def)
  then show ?thesis
    using assms(3,4) Inr r
    by (auto simp: db_column_get_def be_fix_int_ser_def column_key(1) [OF laws]
        db_column_cf_def column_ready_def column_view_def split: option.split)
qed

lemma db_column_get_ok:
  assumes "rocksdb_laws R" and "column_laws ok enc c" and "column_ready R c db" and "ok k"
    and "db_column_get R c k db = Inr r"
  shows "r = col_map R c db k"
  using db_column_get_eq [OF assms(1-4)] assms(5) by auto

lemma db_column_get_reliable:
  assumes "rocksdb_laws R" and "rocksdb_reliable R" and "column_laws ok enc c" and "column_ready R c db"
    and "ok k"
  shows "db_column_get R c k db = Inr (col_map R c db k)"
proof -
  obtain r where "get_pinned_cf R db (col_cf c) (enc k) = Inr r"
    using assms(2) unfolding rocksdb_reliable_def by metis
  then show ?thesis using db_column_get_eq [OF assms(1,3-5)] by simp
qed

lemma db_column_insert_ok:
  assumes "rocksdb_laws R" and laws: "column_laws ok enc c" and "column_ready R c db"
    and "db_column_insert R c k v db = Inr db'"
  shows "ok k" and "cf_maps R db' = apply_batch_op (put_op c (k, v)) (cf_maps R db)"
    and "cf_handle R db' = cf_handle R db"
proof -
  obtain vb where vb: "ser (val_codec c) v = Some vb" "de (val_codec c) vb = Some v"
    using column_value [OF laws] by blast
  have ok: "ok k" and "put_cf R db (col_cf c) (enc k) vb = Inr db'"
    using assms(4) vb
    by (auto simp: db_column_insert_def be_fix_int_ser_def column_key(1) [OF laws] result_simps
        db_column_cf_def split: if_splits)
  then show "ok k" "cf_maps R db' = apply_batch_op (put_op c (k, v)) (cf_maps R db)"
    "cf_handle R db' = cf_handle R db"
    using put_cf_law [OF assms(1)] vb by (auto simp: put_op_def column_key(1) [OF laws])
qed

lemma db_column_insert_reliable:
  assumes "rocksdb_reliable R" and laws: "column_laws ok enc c" and "column_ready R c db" and "ok k"
  shows "\<exists>db'. db_column_insert R c k v db = Inr db'"
proof -
  obtain vb where "ser (val_codec c) v = Some vb"
    using column_value [OF laws] by blast
  moreover obtain db' where "put_cf R db (col_cf c) (enc k) vb = Inr db'"
    using assms(1) unfolding rocksdb_reliable_def by metis
  ultimately show ?thesis
    using assms(3,4)
    by (auto simp: db_column_insert_def be_fix_int_ser_def column_key(1) [OF laws] result_simps
        db_column_cf_def column_ready_def)
qed

lemma db_column_delete_ok:
  assumes "rocksdb_laws R" and laws: "column_laws ok enc c"
    and "db_column_delete R c k db = Inr db'"
  shows "ok k" and "cf_maps R db' = apply_batch_op (BatchDelete (col_cf c) (enc k)) (cf_maps R db)"
    and "cf_handle R db' = cf_handle R db"
proof -
  have ok: "ok k" and "delete_cf R db (col_cf c) (enc k) = Inr db'"
    using assms(3)
    by (auto simp: db_column_delete_def be_fix_int_ser_def column_key(1) [OF laws] result_simps
        db_column_cf_def split: if_splits)
  then show "ok k" "cf_maps R db' = apply_batch_op (BatchDelete (col_cf c) (enc k)) (cf_maps R db)"
    "cf_handle R db' = cf_handle R db"
    using delete_cf_law [OF assms(1)] by auto
qed

lemma db_column_delete_reliable:
  assumes "rocksdb_reliable R" and laws: "column_laws ok enc c" and "column_ready R c db" and "ok k"
  shows "\<exists>db'. db_column_delete R c k db = Inr db'"
proof -
  obtain db' where "delete_cf R db (col_cf c) (enc k) = Inr db'"
    using assms(1) unfolding rocksdb_reliable_def by metis
  then show ?thesis
    using assms(3,4)
    by (auto simp: db_column_delete_def be_fix_int_ser_def column_key(1) [OF laws] result_simps
        db_column_cf_def column_ready_def)
qed

lemma batch_put_all_eq:
  assumes laws: "column_laws ok enc c" and cf: "cf_handle R db (col_cf c) \<noteq> None"
  shows "batch_put_all R c kvs db ops =
    (if \<forall>(k, v) \<in> set kvs. ok k then Inr (ops @ map (put_op c) kvs) else Inl Bincode)"
proof (induction kvs arbitrary: ops)
  case (Cons kv kvs)
  obtain k v where kv: "kv = (k, v)" by force
  obtain vb where "ser (val_codec c) v = Some vb"
    using column_value [OF laws] by blast
  then show ?case
    using Cons cf
    by (auto simp: kv be_fix_int_ser_def column_key(1) [OF laws] db_column_cf_def put_op_def)
qed simp

lemma insert_batch_eq:
  assumes "column_laws ok enc c" and "cf_handle R db (col_cf c) \<noteq> None" and "batch_db b = col_db c"
  shows "insert_batch R c kvs db b =
    (if \<forall>(k, v) \<in> set kvs. ok k then Inr (b\<lparr>batch_ops := batch_ops b @ map (put_op c) kvs\<rparr>)
     else Inl Bincode)"
  using assms by (auto simp: insert_batch_def check_cross_batch_def batch_put_all_eq [OF assms(1,2)])

lemma insert_batch_ok:
  assumes "column_laws ok enc c" and "cf_handle R db (col_cf c) \<noteq> None" and "batch_db b = col_db c"
    and "\<forall>(k, v) \<in> set kvs. ok k"
  shows "insert_batch R c kvs db b = Inr (b\<lparr>batch_ops := batch_ops b @ map (put_op c) kvs\<rparr>)"
  using insert_batch_eq [OF assms(1-3)] assms(4) by simp

lemma batch_write_ok:
  assumes "rocksdb_laws R" and "batch_write R b db = Inr db'"
  shows "cf_maps R db' = fold apply_batch_op (batch_ops b) (cf_maps R db)"
    and "cf_handle R db' = cf_handle R db"
  using assms write_batch_law [OF assms(1)] by (auto simp: batch_write_def result_simps)

lemma batch_write_reliable:
  "rocksdb_reliable R \<Longrightarrow> \<exists>db'. batch_write R b db = Inr db'"
  unfolding rocksdb_reliable_def batch_write_def by (metis map_err_Inr_iff)

section \<open>What the iterators yield\<close>

definition column_items :: "('db, 'b) rocksdb \<Rightarrow> ('k, 'v, 'b) db_column \<Rightarrow> 'db \<Rightarrow> ('k \<times> 'v) list" where
  "column_items R c db = column_iterator c (raw_iterator_cf R db (col_cf c))"

definition entry_ok :: "('k, 'v, 'b) db_column \<Rightarrow> bytes \<times> 'b \<Rightarrow> bool" where
  "entry_ok c = (\<lambda>(kb, vb). (\<exists>k. ser (key_codec c) k = Some kb) \<and> de (val_codec c) vb \<noteq> None)"

lemma column_iterator_filter:
  assumes laws: "column_laws ok enc c" and "\<forall>e \<in> set es. entry_ok c e"
  shows "column_iterator c (filter (\<lambda>(x, _). P x) es) = filter (\<lambda>(k, _). P (enc k)) (column_iterator c es)"
  using assms(2)
proof (induction es)
  case (Cons e es)
  then obtain k kb vb v where "e = (kb, vb)" "ser (key_codec c) k = Some kb" "de (val_codec c) vb = Some v"
    by (cases e) (auto simp: entry_ok_def)
  with Cons show ?case
    by (auto simp: column_key [OF laws] split: if_splits)
qed simp

lemma entry_okE:
  assumes "column_laws ok enc c" and "entry_ok c e"
  obtains k vb v where "e = (enc k, vb)" "ok k" "de (val_codec c) vb = Some v"
  using assms by (cases e) (auto simp: entry_ok_def column_key(1) split: if_splits)

lemma column_iterator_keys_conj:
  assumes laws: "column_laws ok enc c" and "\<forall>e \<in> set es. entry_ok c e"
  shows "map (enc \<circ> fst) (column_iterator c es) = map fst es \<and>
    (\<forall>(k, v) \<in> set (column_iterator c es). ok k) \<and>
    (\<forall>k. map_of (column_iterator c es) k =
      Option.bind (ser (key_codec c) k) (\<lambda>kb. Option.bind (map_of es kb) (de (val_codec c))))"
  using assms(2)
proof (induction es)
  case Nil
  then show ?case by (simp add: split: bind_splits)
next
  case (Cons e es)
  then have "entry_ok c e" by simp
  then obtain k' vb v where e: "e = (enc k', vb)" "ok k'" "de (val_codec c) vb = Some v"
    by (rule entry_okE [OF laws])
  have "column_iterator c (e # es) = (k', v) # column_iterator c es"
    using e by (simp add: column_key [OF laws])
  moreover have "map_of ((k', v) # column_iterator c es) k =
      Option.bind (ser (key_codec c) k) (\<lambda>kb. Option.bind (map_of (e # es) kb) (de (val_codec c)))" for k
    using Cons e by (cases "k = k'"; cases "ok k") (auto simp: column_key [OF laws] column_key_inject [OF laws])
  ultimately show ?case using Cons e by simp
qed

lemmas column_iterator_keys =
  column_iterator_keys_conj [THEN conjunct1]
  column_iterator_keys_conj [THEN conjunct2, THEN conjunct1]
  column_iterator_keys_conj [THEN conjunct2, THEN conjunct2, THEN spec]

lemma column_entries_ok:
  assumes "rocksdb_laws R" and "column_ready R c db"
  shows "\<forall>e \<in> set (raw_iterator_cf R db (col_cf c)). entry_ok c e"
proof
  fix e assume e: "e \<in> set (raw_iterator_cf R db (col_cf c))"
  obtain kb vb where [simp]: "e = (kb, vb)" by force
  have "distinct (map fst (raw_iterator_cf R db (col_cf c)))"
    using raw_iterator_sorted [OF assms(1)] by (simp add: strict_sorted_iff)
  then have "cf_maps R db (col_cf c) kb = Some vb"
    using e by (simp add: cf_maps_def)
  then show "entry_ok c e"
    using assms(2) by (fastforce simp: column_ready_def column_inv_def entry_ok_def)
qed

lemma column_items_spec:
  assumes "rocksdb_laws R" and laws: "column_laws ok enc c" and "column_ready R c db"
  shows "map_of (column_items R c db) = col_map R c db"
    and "sorted_wrt (\<lambda>x y. enc (fst x) < enc (fst y)) (column_items R c db)"
    and "distinct (map fst (column_items R c db))"
    and "\<forall>(k, v) \<in> set (column_items R c db). ok k"
proof -
  note keys = column_iterator_keys [OF laws column_entries_ok [OF assms(1,3)], folded column_items_def]
  show "map_of (column_items R c db) = col_map R c db"
    by (rule ext) (simp add: keys(3) column_view_def cf_maps_def)
  have sorted: "sorted_wrt (<) (map (enc \<circ> fst) (column_items R c db))"
    using raw_iterator_sorted [OF assms(1)] by (simp only: keys(1))
  then show "sorted_wrt (\<lambda>x y. enc (fst x) < enc (fst y)) (column_items R c db)"
    by (simp add: sorted_wrt_map)
  have "distinct (map enc (map fst (column_items R c db)))"
    using sorted by (simp add: strict_sorted_iff)
  then show "distinct (map fst (column_items R c db))"
    by (simp only: distinct_map)
  show "\<forall>(k, v) \<in> set (column_items R c db). ok k" by (rule keys(2))
qed

lemma db_column_iter_eq:
  "column_ready R c db \<Longrightarrow> db_column_iter R c db = Inr (column_items R c db)"
  by (simp add: db_column_iter_def db_column_cf_def column_ready_def column_items_def)

text \<open>
  A prefix iterator positioned at the bytes \<open>p\<close> yields the entries from \<open>p\<close> on, and of these the
  ones with its prefix when the family has a prefix extractor.
\<close>

definition prefix_items ::
  "('db, 'b) rocksdb \<Rightarrow> ('k, 'v, 'b) db_column \<Rightarrow> ('k \<Rightarrow> bytes) \<Rightarrow> nat option \<Rightarrow> bytes \<Rightarrow> 'db \<Rightarrow> ('k \<times> 'v) list" where
  "prefix_items R c enc n p db = filter (\<lambda>(k, _). p \<le> enc k \<and> same_prefix n p (enc k)) (column_items R c db)"

lemma prefix_iterator_items:
  assumes "rocksdb_laws R" and "column_laws ok enc c" and "column_ready R c db"
    and "cf_handle R db (col_cf c) = Some n" and "\<And>m. n = Some m \<Longrightarrow> m \<le> length p"
  shows "column_iterator c (prefix_iterator_cf R db (col_cf c) p) = prefix_items R c enc n p db"
  using column_iterator_filter [OF assms(2) column_entries_ok [OF assms(1,3)]]
  by (simp add: prefix_iterator_law [OF assms(1,4,5)] prefix_items_def column_items_def)

text \<open>
  A stream is the part of a column with one prefix, indexed by positions: a prefix iterator
  yields its entries by increasing position.
\<close>

lemma prefix_items_stream:
  fixes mk :: "'i :: {linorder, finite} \<Rightarrow> 'k"
  assumes "rocksdb_laws R" and laws: "column_laws ok enc c" and ready: "column_ready R c db"
    and mk: "\<And>k. ok k \<Longrightarrow> p \<le> enc k \<and> same_prefix n p (enc k) \<longleftrightarrow> (\<exists>i. k = mk i)"
    and mono: "\<And>i j. enc (mk i) < enc (mk j) \<longleftrightarrow> i < j" and ok: "\<And>i. ok (mk i)"
  shows "prefix_items R c enc n p db =
    map (\<lambda>i. (mk i, the (col_map R c db (mk i)))) (sorted_list_of_set {i. col_map R c db (mk i) \<noteq> None})"
proof -
  note spec = column_items_spec [OF assms(1) laws ready]
  let ?L = "prefix_items R c enc n p db"
  define ix where "ix k = (THE i. k = mk i)" for k
  have "mk i = mk j \<longleftrightarrow> i = j" for i j
    using mono [of i j] mono [of j i] by (metis less_irrefl linorder_neqE)
  then have ix [simp]: "ix (mk i) = i" for i by (simp add: ix_def)
  have L: "\<exists>i. kv = (mk i, the (col_map R c db (mk i))) \<and> col_map R c db (mk i) \<noteq> None" if mem: "kv \<in> set ?L" for kv
  proof -
    obtain k v where k: "kv = (k, v)" by force
    then have kv: "kv = (k, v)" "(k, v) \<in> set (column_items R c db)" "p \<le> enc k" "same_prefix n p (enc k)"
      using mem by (auto simp: prefix_items_def)
    then have "ok k" "col_map R c db k = Some v"
      using spec(4) map_of_is_SomeI [OF spec(3)] by (auto simp: spec(1))
    moreover obtain i where "k = mk i" using mk [OF \<open>ok k\<close>] kv by blast
    ultimately show ?thesis using kv by auto
  qed
  have in_L: "(mk i, the (col_map R c db (mk i))) \<in> set ?L" if "col_map R c db (mk i) \<noteq> None" for i
    using that mk [OF ok, of i] by (auto simp: prefix_items_def spec(1) [symmetric] dest: map_of_SomeD)
  have "sorted_wrt (\<lambda>x y. enc (fst x) < enc (fst y)) ?L"
    unfolding prefix_items_def by (rule sorted_wrt_filter [OF spec(2)])
  moreover have "ix (fst x) < ix (fst y)"
    if "x \<in> set ?L" "y \<in> set ?L" "enc (fst x) < enc (fst y)" for x y
    using L [OF that(1)] L [OF that(2)] that(3) by (auto simp: mono)
  ultimately have "sorted_wrt (\<lambda>x y. ix (fst x) < ix (fst y)) ?L"
    by (rule sorted_wrt_mono_rel [rotated])
  then have "sorted_wrt (<) (map (ix \<circ> fst) ?L)" by (simp add: sorted_wrt_map)
  moreover have "set ?L = (\<lambda>i. (mk i, the (col_map R c db (mk i)))) ` {i. col_map R c db (mk i) \<noteq> None}"
    using L in_L by blast
  then have "set (map (ix \<circ> fst) ?L) = {i. col_map R c db (mk i) \<noteq> None}"
    by (simp add: image_image)
  ultimately have "map (ix \<circ> fst) ?L = sorted_list_of_set {i. col_map R c db (mk i) \<noteq> None}"
    by (intro strict_sorted_equal) simp_all
  moreover have "map (\<lambda>i. (mk i, the (col_map R c db (mk i)))) (map (ix \<circ> fst) ?L) = ?L"
    unfolding map_map by (rule map_idI) (use L in force)
  ultimately show ?thesis by simp
qed

lemma prefix_iter_eq:
  assumes "rocksdb_laws R" and "column_laws ok enc c" and "column_ready R c db"
    and "cf_handle R db (col_cf c) = Some n" and "key_codec_laws okp encp pc"
    and "okp p" and "\<And>m. n = Some m \<Longrightarrow> m \<le> length (encp p)"
  shows "prefix_iter R c pc p db = Inr (prefix_items R c enc n (encp p) db)"
  using assms prefix_iterator_items [OF assms(1-4,7)]
  by (simp add: prefix_iter_def db_column_cf_def be_fix_int_ser_def key_codec_laws_def)

lemma prefix_iter_at_eq:
  assumes "rocksdb_laws R" and "column_laws ok enc c" and "column_ready R c db"
    and "cf_handle R db (col_cf c) = Some n" and "ser pc p \<noteq> None"
    and "ser ic i = Some ib" and "\<And>m. n = Some m \<Longrightarrow> m \<le> length ib"
  shows "prefix_iter_at R c pc ic p i db = Inr (prefix_items R c enc n ib db)"
  using assms prefix_iterator_items [OF assms(1-4,7)]
  by (auto simp: prefix_iter_at_def db_column_cf_def be_fix_int_ser_def)

lemma db_column_multi_get_ok:
  assumes "rocksdb_laws R" and laws: "column_laws ok enc c" and ready: "column_ready R c db"
    and keys: "\<forall>k \<in> set ks. ok k" and "db_column_multi_get R c ks db = Inr vs"
  shows "vs = map (col_map R c db) ks"
proof -
  have kser: "collect_results (map (be_fix_int_ser (key_codec c)) ks) = Inr (map enc ks)"
    using keys by (intro collect_results_map_ok) (simp add: be_fix_int_ser_def column_key(1) [OF laws])
  obtain rs where rs: "map (map_err RocksDBError) (batched_multi_get_cf R db (col_cf c) (map enc ks)) = map Inr rs"
    and vs: "map (decode_value c) rs = map Inr vs"
    using assms(5) ready
    by (auto simp: db_column_multi_get_def Let_def kser db_column_cf_def column_ready_def result_simps)
  from rs have len: "length rs = length (batched_multi_get_cf R db (col_cf c) (map enc ks))"
    by (metis length_map)
  have law: "list_all2 (\<lambda>k r. (\<exists>e. r = Inl e) \<or> r = Inr (cf_maps R db (col_cf c) k)) (map enc ks)
      (batched_multi_get_cf R db (col_cf c) (map enc ks))"
    by (rule multi_get_law [OF assms(1)])
  then have len': "length rs = length ks" using len list_all2_lengthD [OF law] by simp
  show ?thesis
  proof (rule nth_equalityI)
    show "length vs = length (map (col_map R c db) ks)" using vs len' by (metis length_map)
    fix i assume "i < length vs"
    then have i: "i < length ks" using vs len' by (metis length_map)
    have "map_err RocksDBError (batched_multi_get_cf R db (col_cf c) (map enc ks) ! i) = Inr (rs ! i)"
      using rs i len len' by (metis nth_map)
    then have "rs ! i = cf_maps R db (col_cf c) (enc (ks ! i))"
      using list_all2_nthD [OF law] i by (fastforce simp: result_simps)
    moreover have "decode_value c (rs ! i) = Inr (vs ! i)" using vs i len' by (metis length_map nth_map)
    ultimately show "vs ! i = map (col_map R c db) ks ! i"
      using i keys by (auto simp: decode_value_def column_view_def column_key(1) [OF laws] split: option.splits)
  qed
qed

lemma db_column_multi_get_reliable:
  assumes "rocksdb_laws R" and "rocksdb_reliable R" and laws: "column_laws ok enc c"
    and ready: "column_ready R c db" and keys: "\<forall>k \<in> set ks. ok k"
  shows "db_column_multi_get R c ks db = Inr (map (col_map R c db) ks)"
proof -
  let ?rs = "batched_multi_get_cf R db (col_cf c) (map enc ks)"
  let ?vs = "map (cf_maps R db (col_cf c)) (map enc ks)"
  have "list_all2 (\<lambda>k r. r = Inr (cf_maps R db (col_cf c) k)) (map enc ks) ?rs"
    using multi_get_law [OF assms(1), where ks = "map enc ks" and db = db and cf = "col_cf c"] assms(2)
    unfolding rocksdb_reliable_def list_all2_conv_all_nth by (metis Inr_not_Inl nth_mem)
  then have rs: "?rs = map Inr ?vs"
    by (auto simp: list_all2_conv_all_nth intro: nth_equalityI)
  have "decode_value c v = Inr (Option.bind v (de (val_codec c)))" if "v \<in> set ?vs" for v
    using that ready by (fastforce simp: decode_value_def column_ready_def column_inv_def split: option.split)
  then have dec: "collect_results (map (decode_value c) ?vs) = Inr (map (\<lambda>v. Option.bind v (de (val_codec c))) ?vs)"
    by (rule collect_results_map_ok)
  have "collect_results (map (be_fix_int_ser (key_codec c)) ks) = Inr (map enc ks)"
    using keys by (intro collect_results_map_ok) (simp add: be_fix_int_ser_def column_key(1) [OF laws])
  moreover have "collect_results (map (map_err RocksDBError) ?rs) = Inr ?vs"
    unfolding collect_results_Inr_iff by (simp add: rs)
  moreover have "map (\<lambda>v. Option.bind v (de (val_codec c))) ?vs = map (col_map R c db) ks"
    using keys by (simp add: column_view_def column_key(1) [OF laws])
  moreover have "db_column_cf R c db = Inr (col_cf c)"
    using ready by (simp add: db_column_cf_def column_ready_def)
  ultimately show ?thesis
    by (simp only: db_column_multi_get_def Let_def and_then.simps dec)
qed

end
