(* ===== verification/Tables.thy ===== *)
theory Tables
  imports Rocks
begin

text \<open>
  The tables of the stores: \<^verbatim>\<open>constant.rs\<close>, \<^verbatim>\<open>rocks/constants.rs\<close>, \<^verbatim>\<open>rocks/types.rs\<close>,
  \<^verbatim>\<open>validator/tables.rs\<close>, \<^verbatim>\<open>index/mod.rs\<close> and the shared types of \<^verbatim>\<open>lib.rs\<close> of
  \<^verbatim>\<open>topos-tce-storage\<close>. The codecs of bincode for the key and value types are the record
  \<open>bincode\<close> with \<open>bincode_laws\<close>; the last section gives an in-memory database and codecs that
  satisfy the laws. Creating the directories of a database is not modelled.
\<close>

section \<open>Types\<close>

type_synonym pending_certificate_id = u64

datatype target_source_list_key = TargetSourceListKey (tsl_target: subnet_id) (tsl_source: subnet_id)

record certificate_positions =
  cp_targets :: "subnet_id \<rightharpoonup> certificate_target_stream_position"
  cp_source :: certificate_source_stream_position

record source_head =
  sh_certificate_id :: certificate_id
  sh_subnet_id :: subnet_id
  sh_position :: position

definition TARGET_STREAMS_PREFIX_SIZE :: nat where
  "TARGET_STREAMS_PREFIX_SIZE = 32 * 2"

definition SOURCE_STREAMS_PREFIX_SIZE :: nat where
  "SOURCE_STREAMS_PREFIX_SIZE = 32"

section \<open>Codecs of the keys and values\<close>

record 'b bincode =
  bk_certificate_id :: "(certificate_id, bytes) codec"
  bk_source_position :: "(certificate_source_stream_position, bytes) codec"
  bk_target_position :: "(certificate_target_stream_position, bytes) codec"
  bk_target_source :: "(target_source_list_key, bytes) codec"
  bk_subnet_id :: "(subnet_id, bytes) codec"
  bk_subnet_pair :: "(subnet_id \<times> subnet_id, bytes) codec"
  bk_u64 :: "(u64, bytes) codec"
  bk_proof :: "(proof_of_delivery, bytes) codec"
  bv_delivered :: "(certificate_delivered, 'b) codec"
  bv_certificate_id :: "(certificate_id, 'b) codec"
  bv_proof :: "(proof_of_delivery, 'b) codec"
  bv_position :: "(position, 'b) codec"
  bv_head :: "(certificate_id \<times> position, 'b) codec"
  bv_bool :: "(bool, 'b) codec"
  bv_certificate :: "(certificate, 'b) codec"
  bv_u64 :: "(u64, 'b) codec"

definition wf_source_position :: "certificate_source_stream_position \<Rightarrow> bool" where
  "wf_source_position p \<longleftrightarrow> wf_subnet_id (src_subnet_id p)"

definition wf_target_position :: "certificate_target_stream_position \<Rightarrow> bool" where
  "wf_target_position p \<longleftrightarrow> wf_subnet_id (tgt_target_subnet_id p) \<and> wf_subnet_id (tgt_source_subnet_id p)"

definition wf_target_source :: "target_source_list_key \<Rightarrow> bool" where
  "wf_target_source k \<longleftrightarrow> wf_subnet_id (tsl_target k) \<and> wf_subnet_id (tsl_source k)"

definition wf_subnet_pair :: "subnet_id \<times> subnet_id \<Rightarrow> bool" where
  "wf_subnet_pair k \<longleftrightarrow> wf_subnet_id (fst k) \<and> wf_subnet_id (snd k)"

definition enc_source_position :: "certificate_source_stream_position \<Rightarrow> bytes" where
  "enc_source_position p = sid_array (src_subnet_id p) @ be_bytes64 (src_position p)"

definition enc_target_position :: "certificate_target_stream_position \<Rightarrow> bytes" where
  "enc_target_position p =
     sid_array (tgt_target_subnet_id p) @ sid_array (tgt_source_subnet_id p) @ be_bytes64 (tgt_position p)"

definition enc_target_source :: "target_source_list_key \<Rightarrow> bytes" where
  "enc_target_source k = sid_array (tsl_target k) @ sid_array (tsl_source k)"

definition enc_subnet_pair :: "subnet_id \<times> subnet_id \<Rightarrow> bytes" where
  "enc_subnet_pair k = sid_array (fst k) @ sid_array (snd k)"

text \<open>
  The documented layout of the fixed-width big endian encoding: an array is its bytes, an
  integer its bytes from the most significant on, a struct or tuple its fields in order.
\<close>

definition bincode_laws :: "'b bincode \<Rightarrow> bool" where
  "bincode_laws B \<longleftrightarrow>
     key_codec_laws wf_certificate_id cid_array (bk_certificate_id B) \<and>
     key_codec_laws wf_source_position enc_source_position (bk_source_position B) \<and>
     key_codec_laws wf_target_position enc_target_position (bk_target_position B) \<and>
     key_codec_laws wf_target_source enc_target_source (bk_target_source B) \<and>
     key_codec_laws wf_subnet_id sid_array (bk_subnet_id B) \<and>
     key_codec_laws wf_subnet_pair enc_subnet_pair (bk_subnet_pair B) \<and>
     key_codec_laws (\<lambda>_. True) be_bytes64 (bk_u64 B) \<and>
     (\<forall>p. \<exists>rest. ser (bk_proof B) p = Some (cid_array (pod_certificate_id p) @ rest)) \<and>
     value_codec_laws (bv_delivered B) \<and> value_codec_laws (bv_certificate_id B) \<and>
     value_codec_laws (bv_proof B) \<and> value_codec_laws (bv_position B) \<and>
     value_codec_laws (bv_head B) \<and> value_codec_laws (bv_bool B) \<and>
     value_codec_laws (bv_certificate B) \<and> value_codec_laws (bv_u64 B)"

section \<open>The tables\<close>

definition certificates_col :: "'b bincode \<Rightarrow> (certificate_id, certificate_delivered, 'b) db_column" where
  "certificates_col B = \<lparr>col_db = PerpetualDb, col_cf = ''certificates'',
     key_codec = bk_certificate_id B, val_codec = bv_delivered B\<rparr>"

definition streams_col :: "'b bincode \<Rightarrow> (certificate_source_stream_position, certificate_id, 'b) db_column" where
  "streams_col B = \<lparr>col_db = PerpetualDb, col_cf = ''streams'',
     key_codec = bk_source_position B, val_codec = bv_certificate_id B\<rparr>"

definition unverified_col :: "'b bincode \<Rightarrow> (certificate_id, proof_of_delivery, 'b) db_column" where
  "unverified_col B = \<lparr>col_db = PerpetualDb, col_cf = ''unverified'',
     key_codec = bk_certificate_id B, val_codec = bv_proof B\<rparr>"

definition target_streams_col :: "'b bincode \<Rightarrow> (certificate_target_stream_position, certificate_id, 'b) db_column" where
  "target_streams_col B = \<lparr>col_db = IndexDb, col_cf = ''target_streams'',
     key_codec = bk_target_position B, val_codec = bv_certificate_id B\<rparr>"

definition target_source_list_col :: "'b bincode \<Rightarrow> (target_source_list_key, position, 'b) db_column" where
  "target_source_list_col B = \<lparr>col_db = IndexDb, col_cf = ''target_source_list'',
     key_codec = bk_target_source B, val_codec = bv_position B\<rparr>"

definition source_list_col :: "'b bincode \<Rightarrow> (subnet_id, certificate_id \<times> position, 'b) db_column" where
  "source_list_col B = \<lparr>col_db = IndexDb, col_cf = ''source_list'',
     key_codec = bk_subnet_id B, val_codec = bv_head B\<rparr>"

definition source_list_per_target_col :: "'b bincode \<Rightarrow> (subnet_id \<times> subnet_id, bool, 'b) db_column" where
  "source_list_per_target_col B = \<lparr>col_db = IndexDb, col_cf = ''delivered_certificates_per_source_for_target'',
     key_codec = bk_subnet_pair B, val_codec = bv_bool B\<rparr>"

definition pending_pool_col :: "'b bincode \<Rightarrow> (pending_certificate_id, certificate, 'b) db_column" where
  "pending_pool_col B = \<lparr>col_db = PendingDb, col_cf = ''pending_pool'',
     key_codec = bk_u64 B, val_codec = bv_certificate B\<rparr>"

definition pending_pool_index_col :: "'b bincode \<Rightarrow> (certificate_id, pending_certificate_id, 'b) db_column" where
  "pending_pool_index_col B = \<lparr>col_db = PendingDb, col_cf = ''pending_pool_index'',
     key_codec = bk_certificate_id B, val_codec = bv_u64 B\<rparr>"

definition precedence_pool_col :: "'b bincode \<Rightarrow> (certificate_id, certificate, 'b) db_column" where
  "precedence_pool_col B = \<lparr>col_db = PendingDb, col_cf = ''precedence_pool'',
     key_codec = bk_certificate_id B, val_codec = bv_certificate B\<rparr>"

section \<open>Opening the databases\<close>

definition perpetual_cfs :: "(string \<times> nat option) list" where
  "perpetual_cfs = [(''certificates'', None), (''streams'', Some SOURCE_STREAMS_PREFIX_SIZE),
     (''epoch_chain'', None), (''unverified'', None)]"

definition index_cfs :: "(string \<times> nat option) list" where
  "index_cfs = [(''target_streams'', Some TARGET_STREAMS_PREFIX_SIZE), (''target_source_list'', None),
     (''source_list'', None), (''delivered_certificates_per_source_for_target'', None)]"

definition pending_cfs :: "(string \<times> nat option) list" where
  "pending_cfs = [(''pending_pool'', None), (''pending_pool_index'', None), (''precedence_pool'', None)]"

definition open_or_panic ::
  "('db, 'b) rocksdb \<Rightarrow> string list \<Rightarrow> (string \<times> nat option) list \<Rightarrow> storage_error failure + 'db" where
  "open_or_panic R path cfs = map_err (\<lambda>_. Panic) (init_with_cfs R path cfs)"

definition perpetual_tables_open ::
  "('db, 'b) rocksdb \<Rightarrow> string list \<Rightarrow> storage_error failure + 'db" where
  "perpetual_tables_open R path = open_or_panic R (path @ [''perpetual'']) perpetual_cfs"

definition index_tables_open ::
  "('db, 'b) rocksdb \<Rightarrow> string list \<Rightarrow> storage_error failure + 'db" where
  "index_tables_open R path = open_or_panic R (path @ [''index'']) index_cfs"

text \<open>The counter of pending ids starts at zero whatever the table holds.\<close>

definition pending_tables_open ::
  "('db, 'b) rocksdb \<Rightarrow> string list \<Rightarrow> storage_error failure + (u64 \<times> 'db)" where
  "pending_tables_open R path =
     and_then (open_or_panic R (path @ [''pending'']) pending_cfs) (\<lambda>db. Inr (0, db))"

section \<open>The laws of the tables\<close>

lemmas table_defs = certificates_col_def streams_col_def unverified_col_def target_streams_col_def
  target_source_list_col_def source_list_col_def source_list_per_target_col_def
  pending_pool_col_def pending_pool_index_col_def precedence_pool_col_def

named_theorems table_simps \<open>database, family and laws of the tables\<close>

lemma table_cf [simp, table_simps]:
  "col_cf (certificates_col B) = ''certificates''" "col_cf (streams_col B) = ''streams''"
  "col_cf (unverified_col B) = ''unverified''" "col_cf (target_streams_col B) = ''target_streams''"
  "col_cf (target_source_list_col B) = ''target_source_list''" "col_cf (source_list_col B) = ''source_list''"
  "col_cf (source_list_per_target_col B) = ''delivered_certificates_per_source_for_target''"
  "col_cf (pending_pool_col B) = ''pending_pool''" "col_cf (pending_pool_index_col B) = ''pending_pool_index''"
  "col_cf (precedence_pool_col B) = ''precedence_pool''"
  by (simp_all add: table_defs)

lemma table_db [simp, table_simps]:
  "col_db (certificates_col B) = PerpetualDb" "col_db (streams_col B) = PerpetualDb"
  "col_db (unverified_col B) = PerpetualDb" "col_db (target_streams_col B) = IndexDb"
  "col_db (target_source_list_col B) = IndexDb" "col_db (source_list_col B) = IndexDb"
  "col_db (source_list_per_target_col B) = IndexDb" "col_db (pending_pool_col B) = PendingDb"
  "col_db (pending_pool_index_col B) = PendingDb" "col_db (precedence_pool_col B) = PendingDb"
  by (simp_all add: table_defs)

lemma table_laws:
  assumes "bincode_laws B"
  shows "column_laws wf_certificate_id cid_array (certificates_col B)"
    and "column_laws wf_source_position enc_source_position (streams_col B)"
    and "column_laws wf_certificate_id cid_array (unverified_col B)"
    and "column_laws wf_target_position enc_target_position (target_streams_col B)"
    and "column_laws wf_target_source enc_target_source (target_source_list_col B)"
    and "column_laws wf_subnet_id sid_array (source_list_col B)"
    and "column_laws wf_subnet_pair enc_subnet_pair (source_list_per_target_col B)"
    and "column_laws (\<lambda>_. True) be_bytes64 (pending_pool_col B)"
    and "column_laws wf_certificate_id cid_array (pending_pool_index_col B)"
    and "column_laws wf_certificate_id cid_array (precedence_pool_col B)"
  using assms by (simp_all add: bincode_laws_def column_laws_def table_defs)

lemma prefix_codec_laws:
  assumes "bincode_laws B"
  shows "key_codec_laws wf_subnet_id sid_array (bk_subnet_id B)"
    and "key_codec_laws wf_target_source enc_target_source (bk_target_source B)"
    and "\<exists>rest. ser (bk_proof B) p = Some (cid_array (pod_certificate_id p) @ rest)"
  using assms by (simp_all add: bincode_laws_def)

end
