(* ===== verification/Reference_Store.thy ===== *)
theory Reference_Store
  imports Tables
begin

text \<open>
  A database in memory and codecs for the tables that satisfy \<open>rocksdb_laws\<close>,
  \<open>rocksdb_reliable\<close> and \<open>bincode_laws\<close>: the assumptions the stores make of RocksDB and
  bincode are consistent, and the properties of the stores apply to concrete stores.
\<close>

section \<open>A database in memory\<close>

record 'b mem_db =
  mem_cfs :: "(string \<times> nat option) list"
  mem_data :: "string \<Rightarrow> (bytes \<times> 'b) list"

fun sorted_put :: "bytes \<Rightarrow> 'b \<Rightarrow> (bytes \<times> 'b) list \<Rightarrow> (bytes \<times> 'b) list" where
  "sorted_put k v [] = [(k, v)]"
| "sorted_put k v ((x, w) # es) =
     (if k < x then (k, v) # (x, w) # es
      else if k = x then (k, v) # es
      else (x, w) # sorted_put k v es)"

definition sort_entries :: "(bytes \<times> 'b) list \<Rightarrow> (bytes \<times> 'b) list" where
  "sort_entries es = foldr (\<lambda>(k, v). sorted_put k v) es []"

lemma set_keys_sorted_put [simp]: "fst ` set (sorted_put k v es) = insert k (fst ` set es)"
  by (induction k v es rule: sorted_put.induct) auto

lemma map_of_sorted_put: "map_of (sorted_put k v es) = (map_of es)(k \<mapsto> v)"
  by (induction es) (auto simp: fun_eq_iff)

lemma sorted_sorted_put:
  "sorted_wrt (<) (map fst es) \<Longrightarrow> sorted_wrt (<) (map fst (sorted_put k v es))"
proof (induction es)
  case (Cons e es)
  obtain x w where e: "e = (x, w)" by force
  have "\<forall>y \<in> fst ` set (sorted_put k v es). x < y" if "\<not> k < x" "k \<noteq> x"
    using that Cons.prems e by (auto simp: image_iff)
  with Cons e show ?case by (auto simp: image_iff)
qed simp

lemma sort_entries_props [simp]:
  "sorted_wrt (<) (map fst (sort_entries es))" "map_of (sort_entries es) = map_of es"
  by (induction es) (auto simp: sort_entries_def sorted_sorted_put map_of_sorted_put)

definition mem_put :: "string \<Rightarrow> bytes \<Rightarrow> 'b \<Rightarrow> 'b mem_db \<Rightarrow> 'b mem_db" where
  "mem_put cf k v db = db\<lparr>mem_data := (mem_data db)(cf := (k, v) # mem_data db cf)\<rparr>"

definition mem_delete :: "string \<Rightarrow> bytes \<Rightarrow> 'b mem_db \<Rightarrow> 'b mem_db" where
  "mem_delete cf k db = db\<lparr>mem_data := (mem_data db)(cf := filter (\<lambda>(x, _). x \<noteq> k) (mem_data db cf))\<rparr>"

fun mem_apply :: "'b batch_op \<Rightarrow> 'b mem_db \<Rightarrow> 'b mem_db" where
  "mem_apply (BatchPut cf k v) db = mem_put cf k v db"
| "mem_apply (BatchDelete cf k) db = mem_delete cf k db"

definition mem_rocks :: "('b mem_db, 'b) rocksdb" where
  "mem_rocks =
     \<lparr>open_cf_descriptors = (\<lambda>_ cfs. Inr \<lparr>mem_cfs = cfs, mem_data = (\<lambda>_. [])\<rparr>),
      cf_handle = (\<lambda>db. map_of (mem_cfs db)),
      get_pinned_cf = (\<lambda>db cf k. Inr (map_of (mem_data db cf) k)),
      batched_multi_get_cf = (\<lambda>db cf. map (\<lambda>k. Inr (map_of (mem_data db cf) k))),
      put_cf = (\<lambda>db cf k v. Inr (mem_put cf k v db)),
      delete_cf = (\<lambda>db cf k. Inr (mem_delete cf k db)),
      merge_cf = (\<lambda>db cf k v. Inl []),
      write_batch = (\<lambda>db ops. Inr (fold mem_apply ops db)),
      raw_iterator_cf = (\<lambda>db cf. sort_entries (mem_data db cf)),
      prefix_iterator_cf = (\<lambda>db cf k.
        filter (\<lambda>(x, _). k \<le> x \<and>
            (case map_of (mem_cfs db) cf of None \<Rightarrow> True | Some n \<Rightarrow> same_prefix n k x))
          (sort_entries (mem_data db cf)))\<rparr>"

lemma mem_rocks_simps [simp]:
  "open_cf_descriptors mem_rocks path cfs = Inr \<lparr>mem_cfs = cfs, mem_data = (\<lambda>_. [])\<rparr>"
  "cf_handle mem_rocks db = map_of (mem_cfs db)"
  "get_pinned_cf mem_rocks db cf k = Inr (map_of (mem_data db cf) k)"
  "batched_multi_get_cf mem_rocks db cf ks = map (\<lambda>k. Inr (map_of (mem_data db cf) k)) ks"
  "put_cf mem_rocks db cf k v = Inr (mem_put cf k v db)"
  "delete_cf mem_rocks db cf k = Inr (mem_delete cf k db)"
  "write_batch mem_rocks db ops = Inr (fold mem_apply ops db)"
  "raw_iterator_cf mem_rocks db cf = sort_entries (mem_data db cf)"
  "prefix_iterator_cf mem_rocks db cf k =
     filter (\<lambda>(x, _). k \<le> x \<and>
         (case map_of (mem_cfs db) cf of None \<Rightarrow> True | Some n \<Rightarrow> same_prefix n k x))
       (sort_entries (mem_data db cf))"
  by (simp_all add: mem_rocks_def)

lemma cf_maps_mem [simp]: "cf_maps mem_rocks db cf = map_of (mem_data db cf)"
  by (simp add: cf_maps_def)

lemma map_of_filter_ne: "map_of (filter (\<lambda>(x, _). x \<noteq> k) es) = (map_of es)(k := None)"
  by (induction es) (auto simp: fun_eq_iff)

lemma cf_maps_mem_apply:
  "cf_maps mem_rocks (mem_apply op db) = apply_batch_op op (cf_maps mem_rocks db)"
  "mem_cfs (mem_apply op db) = mem_cfs db"
  by (cases op; auto simp: mem_put_def mem_delete_def map_of_filter_ne fun_eq_iff)+

lemma cf_maps_mem_fold:
  "cf_maps mem_rocks (fold mem_apply ops db) = fold apply_batch_op ops (cf_maps mem_rocks db) \<and>
   mem_cfs (fold mem_apply ops db) = mem_cfs db"
  by (induction ops arbitrary: db) (auto simp: cf_maps_mem_apply)

lemma mem_rocks_laws: "rocksdb_laws (mem_rocks :: ('b mem_db, 'b) rocksdb)"
proof -
  have "rocksdb_writes mem_rocks db" for db :: "'b mem_db"
    using cf_maps_mem_apply(1) [of "BatchPut _ _ _" db] cf_maps_mem_apply(1) [of "BatchDelete _ _" db]
      cf_maps_mem_fold [of _ db]
    unfolding rocksdb_writes_def by (simp add: mem_put_def mem_delete_def del: apply_batch_op.simps)
  moreover have "rocksdb_reads mem_rocks db" for db :: "'b mem_db"
    unfolding rocksdb_reads_def by (auto simp: list_all2_conv_all_nth)
  ultimately show ?thesis
    by (simp add: rocksdb_laws_def)
qed

lemma mem_rocks_reliable: "rocksdb_reliable mem_rocks"
  by (auto simp: rocksdb_reliable_def)

section \<open>Codecs\<close>

datatype mem_value =
    MDelivered certificate_delivered
  | MCertificateId certificate_id
  | MProof proof_of_delivery
  | MPosition position
  | MHead "certificate_id \<times> position"
  | MBool bool
  | MCertificate certificate
  | MU64 u64

definition mem_key :: "('k \<Rightarrow> bool) \<Rightarrow> ('k \<Rightarrow> bytes) \<Rightarrow> (bytes \<Rightarrow> 'k) \<Rightarrow> ('k, bytes) codec" where
  "mem_key ok enc dec = \<lparr>ser = (\<lambda>k. if ok k then Some (enc k) else None),
     de = (\<lambda>b. if ok (dec b) then Some (dec b) else None)\<rparr>"

definition dec_u64 :: "bytes \<Rightarrow> u64" where
  "dec_u64 b = of_nat (bytes_value b)"

lemma dec_u64_be [simp]: "dec_u64 (be_bytes64 w) = w"
  by (simp add: dec_u64_def)

definition mem_bincode :: "mem_value bincode" where
  "mem_bincode =
     \<lparr>bk_certificate_id = mem_key wf_certificate_id cid_array CertificateId,
      bk_source_position = mem_key wf_source_position enc_source_position
        (\<lambda>b. \<lparr>src_subnet_id = SubnetId (take 32 b), src_position = dec_u64 (drop 32 b)\<rparr>),
      bk_target_position = mem_key wf_target_position enc_target_position
        (\<lambda>b. \<lparr>tgt_target_subnet_id = SubnetId (take 32 b), tgt_source_subnet_id = SubnetId (take 32 (drop 32 b)),
             tgt_position = dec_u64 (drop 64 b)\<rparr>),
      bk_target_source = mem_key wf_target_source enc_target_source
        (\<lambda>b. TargetSourceListKey (SubnetId (take 32 b)) (SubnetId (drop 32 b))),
      bk_subnet_id = mem_key wf_subnet_id sid_array SubnetId,
      bk_subnet_pair = mem_key wf_subnet_pair enc_subnet_pair
        (\<lambda>b. (SubnetId (take 32 b), SubnetId (drop 32 b))),
      bk_u64 = mem_key (\<lambda>_. True) be_bytes64 dec_u64,
      bk_proof = \<lparr>ser = (\<lambda>p. Some (cid_array (pod_certificate_id p))), de = (\<lambda>_. None)\<rparr>,
      bv_delivered = \<lparr>ser = Some \<circ> MDelivered, de = (\<lambda>b. case b of MDelivered x \<Rightarrow> Some x | _ \<Rightarrow> None)\<rparr>,
      bv_certificate_id = \<lparr>ser = Some \<circ> MCertificateId, de = (\<lambda>b. case b of MCertificateId x \<Rightarrow> Some x | _ \<Rightarrow> None)\<rparr>,
      bv_proof = \<lparr>ser = Some \<circ> MProof, de = (\<lambda>b. case b of MProof x \<Rightarrow> Some x | _ \<Rightarrow> None)\<rparr>,
      bv_position = \<lparr>ser = Some \<circ> MPosition, de = (\<lambda>b. case b of MPosition x \<Rightarrow> Some x | _ \<Rightarrow> None)\<rparr>,
      bv_head = \<lparr>ser = Some \<circ> MHead, de = (\<lambda>b. case b of MHead x \<Rightarrow> Some x | _ \<Rightarrow> None)\<rparr>,
      bv_bool = \<lparr>ser = Some \<circ> MBool, de = (\<lambda>b. case b of MBool x \<Rightarrow> Some x | _ \<Rightarrow> None)\<rparr>,
      bv_certificate = \<lparr>ser = Some \<circ> MCertificate, de = (\<lambda>b. case b of MCertificate x \<Rightarrow> Some x | _ \<Rightarrow> None)\<rparr>,
      bv_u64 = \<lparr>ser = Some \<circ> MU64, de = (\<lambda>b. case b of MU64 x \<Rightarrow> Some x | _ \<Rightarrow> None)\<rparr>\<rparr>"

lemma mem_key_laws:
  "(\<And>k. ok k \<Longrightarrow> dec (enc k) = k) \<Longrightarrow> key_codec_laws ok enc (mem_key ok enc dec)"
  by (simp add: key_codec_laws_def mem_key_def)

lemma mem_bincode_laws: "bincode_laws mem_bincode"
  unfolding bincode_laws_def mem_bincode_def
  by (auto intro!: mem_key_laws simp: value_codec_laws_def enc_source_position_def enc_target_position_def
      enc_target_source_def enc_subnet_pair_def wf_source_position_def wf_target_position_def
      wf_target_source_def wf_subnet_pair_def wf_subnet_id_def SUBNET_ID_LENGTH_def)

end
