(* ===== verification/Full_Node.thy ===== *)
theory Full_Node
  imports Reference_Store
begin

text \<open>
  The store of delivered certificates, \<^verbatim>\<open>topos-tce-storage/src/fullnode/mod.rs\<close>: the tables
  of the certificates and of the source streams (the perpetual database) and the indexes (the index
  database). An operation that writes returns the new store with its result, as an error may
  come after a first database was written. The locks taken around an insertion are in
  \<^verbatim>\<open>Locking\<close>; here an insertion runs alone.
\<close>

section \<open>The store\<close>

record ('db, 'b) store_env =
  env_rocks :: "('db, 'b) rocksdb"
  env_bincode :: "'b bincode"

record 'db fullnode_store =
  fs_perpetual :: 'db
  fs_index :: 'db

definition last_entry :: "'a list \<Rightarrow> 'a option" where
  "last_entry xs = (if xs = [] then None else Some (last xs))"

definition next_target_position ::
  "('db, 'b) store_env \<Rightarrow> subnet_id \<Rightarrow> subnet_id \<Rightarrow> 'db \<Rightarrow>
   internal_storage_error + certificate_target_stream_position" where
  "next_target_position E target source index =
     and_then (prefix_iter (env_rocks E) (target_streams_col (env_bincode E)) (bk_target_source (env_bincode E))
       (TargetSourceListKey target source) index) (\<lambda>items.
     (case last_entry items of
        None \<Rightarrow> Inr \<lparr>tgt_target_subnet_id = target, tgt_source_subnet_id = source, tgt_position = position_ZERO\<rparr>
      | Some (target_stream_position, _) \<Rightarrow>
          and_then (map_err (\<lambda>error. PositionError error (sid_array source))
            (increment (tgt_position target_stream_position))) (\<lambda>p.
          Inr (target_stream_position\<lparr>tgt_position := p\<rparr>))))"

text \<open>
  The loop over the target subnets; it reads the stored streams, not the batch under
  construction.
\<close>

fun insert_targets ::
  "('db, 'b) store_env \<Rightarrow> 'db \<Rightarrow> subnet_id \<Rightarrow> certificate_id \<Rightarrow> subnet_id list \<Rightarrow>
   (subnet_id \<rightharpoonup> certificate_target_stream_position) \<Rightarrow>
   (certificate_target_stream_position \<times> certificate_id) list \<Rightarrow> 'b db_batch \<Rightarrow>
   internal_storage_error + ((subnet_id \<rightharpoonup> certificate_target_stream_position) \<times>
     (certificate_target_stream_position \<times> certificate_id) list \<times> 'b db_batch)" where
  "insert_targets E index source cid [] positions targets index_batch = Inr (positions, targets, index_batch)"
| "insert_targets E index source cid (t # ts) positions targets index_batch =
     and_then (next_target_position E t source index) (\<lambda>target.
     and_then (insert_batch (env_rocks E) (target_source_list_col (env_bincode E))
       [(TargetSourceListKey t source, tgt_position target)] index index_batch) (\<lambda>index_batch.
     insert_targets E index source cid ts (positions(t \<mapsto> target)) (targets @ [(target, cid)]) index_batch))"

definition stream_position_update ::
  "certificate_id \<Rightarrow> position \<Rightarrow> (certificate_id \<times> position) option \<Rightarrow> (certificate_id \<times> position) option" where
  "stream_position_update cid expected head =
     (case (case head of
              None \<Rightarrow> None
            | Some (_, pos) \<Rightarrow> if expected > pos then Some (cid, expected) else None) of
        Some x \<Rightarrow> Some x
      | None \<Rightarrow> Some (cid, expected))"

text \<open>Everything before the first write: the checks and the two batches.\<close>

definition prepare_delivered ::
  "('db, 'b) store_env \<Rightarrow> certificate_delivered \<Rightarrow> 'db fullnode_store \<Rightarrow>
   internal_storage_error + ('b db_batch \<times> 'b db_batch \<times> certificate_positions)" where
  "prepare_delivered E cd s =
     (let R = env_rocks E; B = env_bincode E;
          subnet_id = source_subnet_id (cd_certificate cd);
          certificate_id = cert_id (cd_certificate cd);
          expected_position = delivery_position (cd_proof_of_delivery cd);
          batch = db_batch_new (certificates_col B);
          index_batch = db_batch_new (target_streams_col B) in
      and_then (db_column_get R (streams_col B) expected_position (fs_perpetual s)) (\<lambda>taken.
      if taken \<noteq> None
      then Inl (CertificateAlreadyExistsAtPosition (src_position expected_position) (src_subnet_id expected_position))
      else
      and_then (db_column_get R (source_list_col B) subnet_id (fs_index s)) (\<lambda>head.
      let update_stream_position = stream_position_update certificate_id (src_position expected_position) head in
      and_then (insert_batch R (certificates_col B) [(certificate_id, cd)] (fs_perpetual s) batch) (\<lambda>batch.
      and_then (insert_batch R (streams_col B) [(expected_position, certificate_id)] (fs_perpetual s) batch) (\<lambda>batch.
      and_then (case update_stream_position of
          Some current \<Rightarrow> insert_batch R (source_list_col B) [(subnet_id, current)] (fs_index s) index_batch
        | None \<Rightarrow> Inr index_batch) (\<lambda>index_batch.
      and_then (insert_targets E (fs_index s) subnet_id certificate_id (target_subnets (cd_certificate cd))
        Map.empty [] index_batch) (\<lambda>(positions, targets, index_batch).
      and_then (insert_batch R (target_streams_col B) targets (fs_index s) index_batch) (\<lambda>index_batch.
      and_then (insert_batch R (source_list_per_target_col B)
        (map (\<lambda>t. ((t, subnet_id), True)) (target_subnets (cd_certificate cd))) (fs_index s) index_batch) (\<lambda>index_batch.
      Inr (batch, index_batch, \<lparr>cp_targets = positions, cp_source = expected_position\<rparr>))))))))))"

text \<open>The two writes, in this order; the second is not undone when it fails.\<close>

definition commit_delivered ::
  "('db, 'b) store_env \<Rightarrow> 'b db_batch \<times> 'b db_batch \<times> certificate_positions \<Rightarrow> 'db fullnode_store \<Rightarrow>
   'db fullnode_store \<times> (storage_error + certificate_positions)" where
  "commit_delivered E = (\<lambda>(batch, index_batch, positions) s.
     (case batch_write (env_rocks E) batch (fs_perpetual s) of
        Inl e \<Rightarrow> (s, Inl (InternalStorage e))
      | Inr perpetual \<Rightarrow>
          (let s = s\<lparr>fs_perpetual := perpetual\<rparr> in
           case batch_write (env_rocks E) index_batch (fs_index s) of
             Inl e \<Rightarrow> (s, Inl (InternalStorage e))
           | Inr index \<Rightarrow> (s\<lparr>fs_index := index\<rparr>, Inr positions))))"

definition insert_certificate_delivered ::
  "('db, 'b) store_env \<Rightarrow> certificate_delivered \<Rightarrow> 'db fullnode_store \<Rightarrow>
   'db fullnode_store \<times> (storage_error + certificate_positions)" where
  "insert_certificate_delivered E cd s =
     (case prepare_delivered E cd s of
        Inl e \<Rightarrow> (s, Inl (InternalStorage e))
      | Inr prepared \<Rightarrow> commit_delivered E prepared s)"

fun insert_certificates_delivered ::
  "('db, 'b) store_env \<Rightarrow> certificate_delivered list \<Rightarrow> 'db fullnode_store \<Rightarrow>
   'db fullnode_store \<times> (storage_error + unit)" where
  "insert_certificates_delivered E [] s = (s, Inr ())"
| "insert_certificates_delivered E (cd # cds) s =
     (case insert_certificate_delivered E cd s of
        (s, Inl e) \<Rightarrow> (s, Inl e)
      | (s, Inr _) \<Rightarrow> insert_certificates_delivered E cds s)"

section \<open>Reading\<close>

definition get_source_head ::
  "('db, 'b) store_env \<Rightarrow> subnet_id \<Rightarrow> 'db fullnode_store \<Rightarrow> storage_error + source_head option" where
  "get_source_head E subnet s =
     and_then (map_err InternalStorage
       (db_column_get (env_rocks E) (source_list_col (env_bincode E)) subnet (fs_index s))) (\<lambda>r.
     Inr (map_option (\<lambda>(cid, pos). \<lparr>sh_certificate_id = cid, sh_subnet_id = subnet, sh_position = pos\<rparr>) r))"

definition get_certificate ::
  "('db, 'b) store_env \<Rightarrow> certificate_id \<Rightarrow> 'db fullnode_store \<Rightarrow> storage_error + certificate_delivered option" where
  "get_certificate E cid s = map_err InternalStorage
     (db_column_get (env_rocks E) (certificates_col (env_bincode E)) cid (fs_perpetual s))"

definition get_certificates ::
  "('db, 'b) store_env \<Rightarrow> certificate_id list \<Rightarrow> 'db fullnode_store \<Rightarrow>
   storage_error + certificate_delivered option list" where
  "get_certificates E cids s = map_err InternalStorage
     (db_column_multi_get (env_rocks E) (certificates_col (env_bincode E)) cids (fs_perpetual s))"

definition last_delivered_position_for_subnet ::
  "('db, 'b) store_env \<Rightarrow> subnet_id \<Rightarrow> 'db fullnode_store \<Rightarrow>
   storage_error + certificate_source_stream_position option" where
  "last_delivered_position_for_subnet E subnet s =
     and_then (map_err InternalStorage (prefix_iter (env_rocks E) (streams_col (env_bincode E))
       (bk_subnet_id (env_bincode E)) subnet (fs_perpetual s))) (\<lambda>items.
     Inr (map_option fst (last_entry items)))"

text \<open>Collecting the entries into a \<open>HashMap\<close>: a later entry replaces an earlier one.\<close>

definition get_checkpoint ::
  "('db, 'b) store_env \<Rightarrow> 'db fullnode_store \<Rightarrow> storage_error + (subnet_id \<rightharpoonup> source_head)" where
  "get_checkpoint E s =
     and_then (map_err InternalStorage
       (db_column_iter (env_rocks E) (source_list_col (env_bincode E)) (fs_index s))) (\<lambda>items.
     Inr (map_of (rev (map (\<lambda>(subnet, (cid, pos)).
       (subnet, \<lparr>sh_certificate_id = cid, sh_subnet_id = subnet, sh_position = pos\<rparr>)) items))))"

text \<open>
  The last step of both stream reads: the certificates found, each with its position; an
  entry whose certificate is missing or has another id is left out.
\<close>

definition attach_positions ::
  "(certificate_id \<times> 'p) list \<Rightarrow> certificate_delivered option list \<Rightarrow> (certificate_delivered \<times> 'p) list" where
  "attach_positions xs certs =
     List.map_filter (\<lambda>((cid, pos), cert).
       (case cert of
          None \<Rightarrow> None
        | Some c \<Rightarrow> if cert_id (cd_certificate c) = cid then Some (c, pos) else None)) (zip xs certs)"

definition get_source_stream_certificates_from_position ::
  "('db, 'b) store_env \<Rightarrow> certificate_source_stream_position \<Rightarrow> nat \<Rightarrow> 'db fullnode_store \<Rightarrow>
   storage_error + (certificate_delivered \<times> certificate_source_stream_position) list" where
  "get_source_stream_certificates_from_position E from limit s =
     (let R = env_rocks E; B = env_bincode E in
      and_then (map_err InternalStorage
        (prefix_iter R (streams_col B) (bk_subnet_id B) (src_subnet_id from) (fs_perpetual s))) (\<lambda>items.
      and_then (map_err (\<lambda>_. InternalStorage (InvalidQueryArgument ''Unable to parse Position''))
        (position_to_usize (src_position from))) (\<lambda>skip.
      let x = map (\<lambda>(k, v). (v, k)) (take limit (drop skip items)) in
      and_then (map_err InternalStorage
        (db_column_multi_get R (certificates_col B) (map fst x) (fs_perpetual s))) (\<lambda>certificates.
      Inr (attach_positions x certificates)))))"

definition get_target_stream_certificates_from_position ::
  "('db, 'b) store_env \<Rightarrow> certificate_target_stream_position \<Rightarrow> nat \<Rightarrow> 'db fullnode_store \<Rightarrow>
   storage_error + (certificate_delivered \<times> certificate_target_stream_position) list" where
  "get_target_stream_certificates_from_position E pos limit s =
     (let R = env_rocks E; B = env_bincode E;
          prefix = TargetSourceListKey (tgt_target_subnet_id pos) (tgt_source_subnet_id pos) in
      and_then (map_err InternalStorage
        (prefix_iter R (target_streams_col B) (bk_target_source B) prefix (fs_index s))) (\<lambda>items.
      and_then (map_err (\<lambda>_. InternalStorage (InvalidQueryArgument ''Unable to parse Position''))
        (position_to_usize (tgt_position pos))) (\<lambda>skip.
      let x = map (\<lambda>(k, v). (v, k)) (take limit (drop skip items)) in
      and_then (map_err InternalStorage
        (db_column_multi_get R (certificates_col B) (map fst x) (fs_perpetual s))) (\<lambda>certificates.
      Inr (attach_positions x certificates)))))"

definition get_target_source_subnet_list ::
  "('db, 'b) store_env \<Rightarrow> subnet_id \<Rightarrow> 'db fullnode_store \<Rightarrow> storage_error + subnet_id list" where
  "get_target_source_subnet_list E target s =
     and_then (map_err InternalStorage (prefix_iter (env_rocks E) (source_list_per_target_col (env_bincode E))
       (bk_subnet_id (env_bincode E)) target (fs_index s))) (\<lambda>items.
     Inr (map (\<lambda>((_, source), _). source) items))"

section \<open>The store as maps\<close>

record fullnode_view =
  fv_certificates :: "certificate_id \<rightharpoonup> certificate_delivered"
  fv_streams :: "certificate_source_stream_position \<rightharpoonup> certificate_id"
  fv_unverified :: "certificate_id \<rightharpoonup> proof_of_delivery"
  fv_target_streams :: "certificate_target_stream_position \<rightharpoonup> certificate_id"
  fv_target_source_list :: "target_source_list_key \<rightharpoonup> position"
  fv_source_list :: "subnet_id \<rightharpoonup> certificate_id \<times> position"
  fv_source_list_per_target :: "subnet_id \<times> subnet_id \<rightharpoonup> bool"

definition fullnode_view :: "('db, 'b) store_env \<Rightarrow> 'db fullnode_store \<Rightarrow> fullnode_view" where
  "fullnode_view E s =
     \<lparr>fv_certificates = col_map (env_rocks E) (certificates_col (env_bincode E)) (fs_perpetual s),
      fv_streams = col_map (env_rocks E) (streams_col (env_bincode E)) (fs_perpetual s),
      fv_unverified = col_map (env_rocks E) (unverified_col (env_bincode E)) (fs_perpetual s),
      fv_target_streams = col_map (env_rocks E) (target_streams_col (env_bincode E)) (fs_index s),
      fv_target_source_list = col_map (env_rocks E) (target_source_list_col (env_bincode E)) (fs_index s),
      fv_source_list = col_map (env_rocks E) (source_list_col (env_bincode E)) (fs_index s),
      fv_source_list_per_target = col_map (env_rocks E) (source_list_per_target_col (env_bincode E)) (fs_index s)\<rparr>"

definition env_laws :: "('db, 'b) store_env \<Rightarrow> bool" where
  "env_laws E \<longleftrightarrow> rocksdb_laws (env_rocks E) \<and> bincode_laws (env_bincode E)"

definition families_opened :: "('db, 'b) store_env \<Rightarrow> (string \<times> nat option) list \<Rightarrow> 'db \<Rightarrow> bool" where
  "families_opened E cfs db \<longleftrightarrow> (\<forall>cf n. map_of cfs cf = Some n \<longrightarrow> cf_handle (env_rocks E) db cf = Some n)"

text \<open>The families are open with their prefix extractors and hold encodings only.\<close>

definition perpetual_ready :: "('db, 'b) store_env \<Rightarrow> 'db \<Rightarrow> bool" where
  "perpetual_ready E db \<longleftrightarrow> families_opened E perpetual_cfs db \<and>
     column_inv (certificates_col (env_bincode E)) (cf_maps (env_rocks E) db) \<and>
     column_inv (streams_col (env_bincode E)) (cf_maps (env_rocks E) db) \<and>
     column_inv (unverified_col (env_bincode E)) (cf_maps (env_rocks E) db)"

definition index_ready :: "('db, 'b) store_env \<Rightarrow> 'db \<Rightarrow> bool" where
  "index_ready E db \<longleftrightarrow> families_opened E index_cfs db \<and>
     column_inv (target_streams_col (env_bincode E)) (cf_maps (env_rocks E) db) \<and>
     column_inv (target_source_list_col (env_bincode E)) (cf_maps (env_rocks E) db) \<and>
     column_inv (source_list_col (env_bincode E)) (cf_maps (env_rocks E) db) \<and>
     column_inv (source_list_per_target_col (env_bincode E)) (cf_maps (env_rocks E) db)"

definition fullnode_ready :: "('db, 'b) store_env \<Rightarrow> 'db fullnode_store \<Rightarrow> bool" where
  "fullnode_ready E s \<longleftrightarrow> env_laws E \<and> perpetual_ready E (fs_perpetual s) \<and> index_ready E (fs_index s)"

lemma fullnode_laws:
  assumes "fullnode_ready E s"
  shows "rocksdb_laws (env_rocks E)" and "bincode_laws (env_bincode E)"
  using assms by (simp_all add: fullnode_ready_def env_laws_def)

lemma fullnode_handles:
  assumes "fullnode_ready E s"
  shows "cf_handle (env_rocks E) (fs_perpetual s) ''certificates'' = Some None"
    and "cf_handle (env_rocks E) (fs_perpetual s) ''streams'' = Some (Some 32)"
    and "cf_handle (env_rocks E) (fs_perpetual s) ''unverified'' = Some None"
    and "cf_handle (env_rocks E) (fs_index s) ''target_streams'' = Some (Some 64)"
    and "cf_handle (env_rocks E) (fs_index s) ''target_source_list'' = Some None"
    and "cf_handle (env_rocks E) (fs_index s) ''source_list'' = Some None"
    and "cf_handle (env_rocks E) (fs_index s) ''delivered_certificates_per_source_for_target'' = Some None"
  using assms
  by (simp_all add: fullnode_ready_def perpetual_ready_def index_ready_def families_opened_def
      perpetual_cfs_def index_cfs_def TARGET_STREAMS_PREFIX_SIZE_def SOURCE_STREAMS_PREFIX_SIZE_def)

lemma fullnode_columns_ready:
  assumes "fullnode_ready E s"
  shows "column_ready (env_rocks E) (certificates_col (env_bincode E)) (fs_perpetual s)"
    and "column_ready (env_rocks E) (streams_col (env_bincode E)) (fs_perpetual s)"
    and "column_ready (env_rocks E) (unverified_col (env_bincode E)) (fs_perpetual s)"
    and "column_ready (env_rocks E) (target_streams_col (env_bincode E)) (fs_index s)"
    and "column_ready (env_rocks E) (target_source_list_col (env_bincode E)) (fs_index s)"
    and "column_ready (env_rocks E) (source_list_col (env_bincode E)) (fs_index s)"
    and "column_ready (env_rocks E) (source_list_per_target_col (env_bincode E)) (fs_index s)"
  using assms fullnode_handles [OF assms]
  by (simp_all add: column_ready_def fullnode_ready_def perpetual_ready_def index_ready_def)

section \<open>Streams\<close>

abbreviation target_position :: "subnet_id \<Rightarrow> subnet_id \<Rightarrow> position \<Rightarrow> certificate_target_stream_position" where
  "target_position t s p \<equiv> \<lparr>tgt_target_subnet_id = t, tgt_source_subnet_id = s, tgt_position = p\<rparr>"

abbreviation source_position :: "subnet_id \<Rightarrow> position \<Rightarrow> certificate_source_stream_position" where
  "source_position s p \<equiv> \<lparr>src_subnet_id = s, src_position = p\<rparr>"

definition target_positions :: "fullnode_view \<Rightarrow> subnet_id \<Rightarrow> subnet_id \<Rightarrow> position set" where
  "target_positions v t s = {p. fv_target_streams v (target_position t s p) \<noteq> None}"

definition source_positions :: "fullnode_view \<Rightarrow> subnet_id \<Rightarrow> position set" where
  "source_positions v s = {p. fv_streams v (source_position s p) \<noteq> None}"

definition target_stream ::
  "fullnode_view \<Rightarrow> subnet_id \<Rightarrow> subnet_id \<Rightarrow> (certificate_target_stream_position \<times> certificate_id) list" where
  "target_stream v t s = map (\<lambda>p. (target_position t s p, the (fv_target_streams v (target_position t s p))))
     (sorted_list_of_set (target_positions v t s))"

definition source_stream ::
  "fullnode_view \<Rightarrow> subnet_id \<Rightarrow> (certificate_source_stream_position \<times> certificate_id) list" where
  "source_stream v s = map (\<lambda>p. (source_position s p, the (fv_streams v (source_position s p))))
     (sorted_list_of_set (source_positions v s))"

lemma wf_subnet_length: "wf_subnet_id s \<Longrightarrow> length (sid_array s) = 32"
  by (simp add: wf_subnet_id_def SUBNET_ID_LENGTH_def)

lemma sid_array_inject [simp]: "sid_array s = sid_array t \<longleftrightarrow> s = t"
  by (cases s; cases t) simp

lemma append_self_le [simp]: "xs \<le> xs @ ys" for xs :: "'a :: linorder list"
  by (induction xs) auto

lemma prefix_iter_source_stream:
  assumes "fullnode_ready E s" and "wf_subnet_id subnet"
  shows "prefix_iter (env_rocks E) (streams_col (env_bincode E)) (bk_subnet_id (env_bincode E)) subnet
    (fs_perpetual s) = Inr (source_stream (fullnode_view E s) subnet)"
proof -
  let ?R = "env_rocks E" and ?B = "env_bincode E"
  note laws = fullnode_laws [OF assms(1)] and ready = fullnode_columns_ready(2) [OF assms(1)]
  note len = wf_subnet_length [OF assms(2)]
  have "prefix_iter ?R (streams_col ?B) (bk_subnet_id ?B) subnet (fs_perpetual s) =
      Inr (prefix_items ?R (streams_col ?B) enc_source_position (Some 32) (sid_array subnet) (fs_perpetual s))"
    using fullnode_handles(2) [OF assms(1)] assms(2) len
    by (intro prefix_iter_eq [OF laws(1) table_laws(2) [OF laws(2)] ready _ prefix_codec_laws(1) [OF laws(2)]])
      simp_all
  also have "prefix_items ?R (streams_col ?B) enc_source_position (Some 32) (sid_array subnet) (fs_perpetual s) =
      source_stream (fullnode_view E s) subnet"
    unfolding source_stream_def source_positions_def fullnode_view_def fullnode_view.simps
  proof (rule prefix_items_stream [OF laws(1) table_laws(2) [OF laws(2)] ready])
    fix k assume "wf_source_position k"
    then have "length (sid_array (src_subnet_id k)) = 32"
      by (simp add: wf_source_position_def wf_subnet_length)
    then show "sid_array subnet \<le> enc_source_position k \<and> same_prefix (Some 32) (sid_array subnet) (enc_source_position k)
        \<longleftrightarrow> (\<exists>p. k = source_position subnet p)"
      using len by (cases k) (auto simp: enc_source_position_def same_prefix_def)
  qed (use assms(2) len in \<open>simp_all add: enc_source_position_def append_less_iff wf_source_position_def\<close>)
  finally show ?thesis .
qed

lemma prefix_iter_target_stream:
  assumes "fullnode_ready E s" and "wf_subnet_id t" and "wf_subnet_id u"
  shows "prefix_iter (env_rocks E) (target_streams_col (env_bincode E)) (bk_target_source (env_bincode E))
    (TargetSourceListKey t u) (fs_index s) = Inr (target_stream (fullnode_view E s) t u)"
proof -
  let ?R = "env_rocks E" and ?B = "env_bincode E" and ?p = "sid_array t @ sid_array u"
  note laws = fullnode_laws [OF assms(1)] and ready = fullnode_columns_ready(4) [OF assms(1)]
  note len = wf_subnet_length [OF assms(2)] wf_subnet_length [OF assms(3)]
  have "prefix_iter ?R (target_streams_col ?B) (bk_target_source ?B) (TargetSourceListKey t u) (fs_index s) =
      Inr (prefix_items ?R (target_streams_col ?B) enc_target_position (Some 64)
        (enc_target_source (TargetSourceListKey t u)) (fs_index s))"
    using fullnode_handles(4) [OF assms(1)] assms(2,3) len
    by (intro prefix_iter_eq [OF laws(1) table_laws(4) [OF laws(2)] ready _ prefix_codec_laws(2) [OF laws(2)]])
      (simp_all add: wf_target_source_def enc_target_source_def)
  also have "enc_target_source (TargetSourceListKey t u) = ?p" by (simp add: enc_target_source_def)
  also have "prefix_items ?R (target_streams_col ?B) enc_target_position (Some 64) ?p (fs_index s) =
      target_stream (fullnode_view E s) t u"
    unfolding target_stream_def target_positions_def fullnode_view_def fullnode_view.simps
  proof (rule prefix_items_stream [OF laws(1) table_laws(4) [OF laws(2)] ready])
    fix k assume "wf_target_position k"
    then have l: "length (sid_array (tgt_target_subnet_id k)) = 32" "length (sid_array (tgt_source_subnet_id k)) = 32"
      by (simp_all add: wf_target_position_def wf_subnet_length)
    then have "take 64 (enc_target_position k) = sid_array (tgt_target_subnet_id k) @ sid_array (tgt_source_subnet_id k)"
      by (simp add: enc_target_position_def)
    then have "same_prefix (Some 64) ?p (enc_target_position k) \<longleftrightarrow>
        sid_array (tgt_target_subnet_id k) @ sid_array (tgt_source_subnet_id k) = ?p"
      using len by (simp add: same_prefix_def)
    then show "?p \<le> enc_target_position k \<and> same_prefix (Some 64) ?p (enc_target_position k)
        \<longleftrightarrow> (\<exists>p. k = target_position t u p)"
      using len l by (cases k) (auto simp: enc_target_position_def simp flip: append_assoc)
  qed (use assms(2,3) len in \<open>simp_all add: enc_target_position_def append_less_iff wf_target_position_def\<close>)
  finally show ?thesis .
qed

section \<open>The insertion on the maps\<close>

text \<open>
  The specification of an insertion: the position after the last of each target stream, and
  the entries it adds to every table.
\<close>

definition next_position :: "fullnode_view \<Rightarrow> subnet_id \<Rightarrow> subnet_id \<Rightarrow> position_error + position" where
  "next_position v t s =
     (if target_positions v t s = {} then Inr position_ZERO else increment (Max (target_positions v t s)))"

abbreviation next_pos :: "fullnode_view \<Rightarrow> subnet_id \<Rightarrow> subnet_id \<Rightarrow> position" where
  "next_pos v t s \<equiv> projr (next_position v t s)"

definition delivered_positions :: "fullnode_view \<Rightarrow> certificate_delivered \<Rightarrow> certificate_positions" where
  "delivered_positions v cd =
     \<lparr>cp_targets = (\<lambda>t. if t \<in> set (target_subnets (cd_certificate cd))
        then Some (target_position t (source_subnet_id (cd_certificate cd))
          (next_pos v t (source_subnet_id (cd_certificate cd)))) else None),
      cp_source = delivery_position (cd_proof_of_delivery cd)\<rparr>"

definition deliver_view :: "certificate_delivered \<Rightarrow> fullnode_view \<Rightarrow> fullnode_view" where
  "deliver_view cd v =
     (let cert = cd_certificate cd; cid = cert_id cert; source = source_subnet_id cert;
          pos = delivery_position (cd_proof_of_delivery cd) in
      v\<lparr>fv_certificates := (fv_certificates v)(cid \<mapsto> cd),
        fv_streams := (fv_streams v)(pos \<mapsto> cid),
        fv_source_list := (fv_source_list v)(source \<mapsto> (cid, src_position pos)),
        fv_target_streams := (\<lambda>p. if tgt_target_subnet_id p \<in> set (target_subnets cert) \<and>
            tgt_source_subnet_id p = source \<and> tgt_position p = next_pos v (tgt_target_subnet_id p) source
          then Some cid else fv_target_streams v p),
        fv_target_source_list := (\<lambda>k. if tsl_target k \<in> set (target_subnets cert) \<and> tsl_source k = source
          then Some (next_pos v (tsl_target k) source) else fv_target_source_list v k),
        fv_source_list_per_target := (\<lambda>(t, u). if t \<in> set (target_subnets cert) \<and> u = source
          then Some True else fv_source_list_per_target v (t, u))\<rparr>)"

definition wf_delivered :: "certificate_delivered \<Rightarrow> bool" where
  "wf_delivered cd \<longleftrightarrow> wf_certificate (cd_certificate cd) \<and>
     wf_source_position (delivery_position (cd_proof_of_delivery cd))"

lemma wf_deliveredD:
  assumes "wf_delivered cd"
  shows "wf_certificate_id (cert_id (cd_certificate cd))"
    and "wf_subnet_id (source_subnet_id (cd_certificate cd))"
    and "wf_source_position (delivery_position (cd_proof_of_delivery cd))"
    and "t \<in> set (target_subnets (cd_certificate cd)) \<Longrightarrow> wf_subnet_id t"
  using assms by (auto simp: wf_delivered_def wf_certificate_def)

lemma next_target_position_eq:
  assumes "fullnode_ready E s" and "wf_subnet_id t" and "wf_subnet_id u"
  shows "next_target_position E t u (fs_index s) =
    (case next_position (fullnode_view E s) t u of
       Inl e \<Rightarrow> Inl (PositionError e (sid_array u))
     | Inr p \<Rightarrow> Inr (target_position t u p))"
proof -
  let ?P = "target_positions (fullnode_view E s) t u"
  note stream = prefix_iter_target_stream [OF assms]
  show ?thesis
  proof (cases "?P = {}")
    case True
    then show ?thesis
      by (simp add: next_target_position_def stream target_stream_def last_entry_def next_position_def)
  next
    case False
    then have "sorted_list_of_set ?P \<noteq> []" by simp
    then have "last_entry (target_stream (fullnode_view E s) t u) = Some (target_position t u (Max ?P),
        the (fv_target_streams (fullnode_view E s) (target_position t u (Max ?P))))"
      using False by (simp add: last_entry_def target_stream_def last_map last_sorted_list_of_set)
    then show ?thesis
      using False
      by (cases "increment (Max ?P)") (simp_all add: next_target_position_def stream next_position_def)
  qed
qed

lemma insert_targets_eq:
  assumes "fullnode_ready E s" and u: "wf_subnet_id u" and "\<forall>t \<in> set ts. wf_subnet_id t"
    and "batch_db ib = IndexDb" and "\<forall>t \<in> set ts. next_position (fullnode_view E s) t u = Inr (np t)"
  shows "insert_targets E (fs_index s) u cid ts positions targets ib =
    Inr (positions ++ (\<lambda>t. if t \<in> set ts then Some (target_position t u (np t)) else None),
      targets @ map (\<lambda>t. (target_position t u (np t), cid)) ts,
      ib\<lparr>batch_ops := batch_ops ib @ map (put_op (target_source_list_col (env_bincode E)))
        (map (\<lambda>t. (TargetSourceListKey t u, np t)) ts)\<rparr>)"
  using assms(3-)
proof (induction ts arbitrary: positions targets ib)
  case (Cons t ts)
  let ?c = "target_source_list_col (env_bincode E)"
  have "insert_batch (env_rocks E) ?c [(TargetSourceListKey t u, np t)] (fs_index s) ib =
      Inr (ib\<lparr>batch_ops := batch_ops ib @ [put_op ?c (TargetSourceListKey t u, np t)]\<rparr>)"
    using Cons.prems u fullnode_handles(5) [OF assms(1)]
    by (subst insert_batch_ok [OF table_laws(5) [OF fullnode_laws(2) [OF assms(1)]]])
      (simp_all add: wf_target_source_def)
  moreover have "positions(t \<mapsto> target_position t u (np t)) ++
        (\<lambda>t. if t \<in> set ts then Some (target_position t u (np t)) else None) =
      positions ++ (\<lambda>x. if x \<in> set (t # ts) then Some (target_position x u (np x)) else None)"
    by (auto simp: map_add_def fun_eq_iff)
  ultimately show ?case
    using Cons by (simp add: next_target_position_eq [OF assms(1) _ u])
qed simp

lemma insert_targets_error:
  assumes "fullnode_ready E s" and u: "wf_subnet_id u" and "\<forall>t \<in> set ts. wf_subnet_id t"
    and "batch_db ib = IndexDb"
    and "t \<in> set ts" and "next_position (fullnode_view E s) t u = Inl e"
  shows "\<exists>e. insert_targets E (fs_index s) u cid ts positions targets ib = Inl (PositionError e (sid_array u))"
  using assms(3-)
proof (induction ts arbitrary: positions targets ib)
  case (Cons x ts)
  let ?c = "target_source_list_col (env_bincode E)"
  show ?case
  proof (cases "next_position (fullnode_view E s) x u")
    case (Inl e')
    then show ?thesis using Cons.prems by (simp add: next_target_position_eq [OF assms(1) _ u])
  next
    case (Inr p)
    then have "t \<in> set ts" using Cons.prems by auto
    moreover have "insert_batch (env_rocks E) ?c [(TargetSourceListKey x u, p)] (fs_index s) ib =
        Inr (ib\<lparr>batch_ops := batch_ops ib @ [put_op ?c (TargetSourceListKey x u, p)]\<rparr>)"
      using Cons.prems u fullnode_handles(5) [OF assms(1)]
      by (subst insert_batch_ok [OF table_laws(5) [OF fullnode_laws(2) [OF assms(1)]]])
        (simp_all add: wf_target_source_def)
    ultimately show ?thesis
      using Cons Inr by (simp add: next_target_position_eq [OF assms(1) _ u])
  qed
qed simp

definition perpetual_ops :: "('db, 'b) store_env \<Rightarrow> certificate_delivered \<Rightarrow> 'b batch_op list" where
  "perpetual_ops E cd =
     (let B = env_bincode E; cid = cert_id (cd_certificate cd) in
      map (put_op (certificates_col B)) [(cid, cd)] @
      map (put_op (streams_col B)) [(delivery_position (cd_proof_of_delivery cd), cid)])"

definition index_ops :: "('db, 'b) store_env \<Rightarrow> fullnode_view \<Rightarrow> certificate_delivered \<Rightarrow> 'b batch_op list" where
  "index_ops E v cd =
     (let B = env_bincode E; cert = cd_certificate cd; cid = cert_id cert; u = source_subnet_id cert;
          pos = src_position (delivery_position (cd_proof_of_delivery cd)) in
      map (put_op (source_list_col B)) [(u, (cid, pos))] @
      map (put_op (target_source_list_col B))
        (map (\<lambda>t. (TargetSourceListKey t u, next_pos v t u)) (target_subnets cert)) @
      map (put_op (target_streams_col B))
        (map (\<lambda>t. (target_position t u (next_pos v t u), cid)) (target_subnets cert)) @
      map (put_op (source_list_per_target_col B)) (map (\<lambda>t. ((t, u), True)) (target_subnets cert)))"

definition targets_available :: "fullnode_view \<Rightarrow> certificate_delivered \<Rightarrow> bool" where
  "targets_available v cd \<longleftrightarrow> (\<forall>t \<in> set (target_subnets (cd_certificate cd)).
     \<exists>p. next_position v t (source_subnet_id (cd_certificate cd)) = Inr p)"

text \<open>The head of the source stream is replaced whatever it was.\<close>

lemma stream_position_update_always:
  "stream_position_update cid pos head = Some (cid, pos)"
  by (cases head) (auto simp: stream_position_update_def)

lemma prepare_after_reads:
  assumes ready: "fullnode_ready E s" and wf: "wf_delivered cd"
    and "db_column_get (env_rocks E) (streams_col (env_bincode E))
      (delivery_position (cd_proof_of_delivery cd)) (fs_perpetual s) = Inr None"
    and "db_column_get (env_rocks E) (source_list_col (env_bincode E))
      (source_subnet_id (cd_certificate cd)) (fs_index s) = Inr head"
  shows "targets_available (fullnode_view E s) cd \<Longrightarrow> prepare_delivered E cd s =
      Inr (\<lparr>batch_db = PerpetualDb, batch_ops = perpetual_ops E cd\<rparr>,
        \<lparr>batch_db = IndexDb, batch_ops = index_ops E (fullnode_view E s) cd\<rparr>,
        delivered_positions (fullnode_view E s) cd)"
    and "\<not> targets_available (fullnode_view E s) cd \<Longrightarrow> \<exists>e. prepare_delivered E cd s =
      Inl (PositionError e (sid_array (source_subnet_id (cd_certificate cd))))"
proof -
  let ?R = "env_rocks E" and ?B = "env_bincode E" and ?u = "source_subnet_id (cd_certificate cd)"
  let ?ts = "target_subnets (cd_certificate cd)" and ?v = "fullnode_view E s"
  note T = table_laws [OF fullnode_laws(2) [OF ready]] and H = fullnode_handles [OF ready]
  note W = wf_deliveredD [OF wf]
  have wfts: "\<forall>t \<in> set ?ts. wf_subnet_id t" using W(4) by blast
  note batches = insert_batch_ok [OF T(1)] insert_batch_ok [OF T(2)] insert_batch_ok [OF T(6)]
    insert_batch_ok [OF T(4)] insert_batch_ok [OF T(7)]
  have keys: "\<forall>(k, v) \<in> set (map (\<lambda>t. (target_position t ?u (next_pos ?v t ?u), cid)) ?ts). wf_target_position k"
    "\<forall>(k, v) \<in> set (map (\<lambda>t. ((t, ?u), True)) ?ts). wf_subnet_pair k" for cid :: certificate_id
    using W(2) wfts by (auto simp: wf_target_position_def wf_subnet_pair_def)
  {
    assume "targets_available ?v cd"
    then have np: "\<forall>t \<in> set ?ts. next_position ?v t ?u = Inr (next_pos ?v t ?u)"
      by (auto simp: targets_available_def)
    show "prepare_delivered E cd s =
      Inr (\<lparr>batch_db = PerpetualDb, batch_ops = perpetual_ops E cd\<rparr>,
        \<lparr>batch_db = IndexDb, batch_ops = index_ops E ?v cd\<rparr>, delivered_positions ?v cd)"
      using W(1-3) H keys
      by (simp add: prepare_delivered_def Let_def assms(3,4) stream_position_update_always batches
          insert_targets_eq [OF ready W(2) wfts _ np] db_batch_new_def perpetual_ops_def index_ops_def
          delivered_positions_def)
  next
    assume "\<not> targets_available ?v cd"
    then obtain t e where "t \<in> set ?ts" "next_position ?v t ?u = Inl e"
      unfolding targets_available_def by (metis old.sum.exhaust)
    note err = insert_targets_error [OF ready W(2) wfts _ this]
    let ?ib = "\<lparr>batch_db = IndexDb, batch_ops = [put_op (source_list_col ?B) (?u, cert_id (cd_certificate cd),
      src_position (delivery_position (cd_proof_of_delivery cd)))]\<rparr>"
    obtain e' where "insert_targets E (fs_index s) ?u (cert_id (cd_certificate cd)) ?ts Map.empty [] ?ib =
        Inl (PositionError e' (sid_array ?u))"
      using err [of ?ib "cert_id (cd_certificate cd)" Map.empty "[]"] by auto
    then show "\<exists>e. prepare_delivered E cd s = Inl (PositionError e (sid_array ?u))"
      using W(1-3) H
      by (simp add: prepare_delivered_def Let_def assms(3,4) stream_position_update_always batches
          db_batch_new_def)
  }
qed

lemma prepare_delivered_cases:
  assumes ready: "fullnode_ready E s" and wf: "wf_delivered cd"
  obtains (db_error) e where "prepare_delivered E cd s = Inl (RocksDBError e)" "\<not> rocksdb_reliable (env_rocks E)"
  | (taken) "fv_streams (fullnode_view E s) (delivery_position (cd_proof_of_delivery cd)) \<noteq> None"
      "prepare_delivered E cd s = Inl (CertificateAlreadyExistsAtPosition
        (src_position (delivery_position (cd_proof_of_delivery cd)))
        (src_subnet_id (delivery_position (cd_proof_of_delivery cd))))"
  | (full) e where "fv_streams (fullnode_view E s) (delivery_position (cd_proof_of_delivery cd)) = None"
      "\<not> targets_available (fullnode_view E s) cd"
      "prepare_delivered E cd s = Inl (PositionError e (sid_array (source_subnet_id (cd_certificate cd))))"
  | (ok) "fv_streams (fullnode_view E s) (delivery_position (cd_proof_of_delivery cd)) = None"
      "targets_available (fullnode_view E s) cd"
      "prepare_delivered E cd s =
        Inr (\<lparr>batch_db = PerpetualDb, batch_ops = perpetual_ops E cd\<rparr>,
          \<lparr>batch_db = IndexDb, batch_ops = index_ops E (fullnode_view E s) cd\<rparr>,
          delivered_positions (fullnode_view E s) cd)"
proof -
  let ?R = "env_rocks E" and ?B = "env_bincode E"
  let ?pos = "delivery_position (cd_proof_of_delivery cd)" and ?u = "source_subnet_id (cd_certificate cd)"
  note laws = fullnode_laws [OF ready] and cols = fullnode_columns_ready [OF ready] and W = wf_deliveredD [OF wf]
  have rel: "\<not> rocksdb_reliable ?R" if "get_pinned_cf ?R db cf k = Inl e" for db cf k e
    using that unfolding rocksdb_reliable_def by (metis Inr_not_Inl)
  have v: "fv_streams (fullnode_view E s) = col_map ?R (streams_col ?B) (fs_perpetual s)"
    by (simp add: fullnode_view_def)
  consider (e1) e where "db_column_get ?R (streams_col ?B) ?pos (fs_perpetual s) = Inl (RocksDBError e)" "\<not> rocksdb_reliable ?R"
    | (e2) e where "db_column_get ?R (streams_col ?B) ?pos (fs_perpetual s) = Inr None"
        "db_column_get ?R (source_list_col ?B) ?u (fs_index s) = Inl (RocksDBError e)" "\<not> rocksdb_reliable ?R"
    | (t) "db_column_get ?R (streams_col ?B) ?pos (fs_perpetual s) = Inr (fv_streams (fullnode_view E s) ?pos)"
        "fv_streams (fullnode_view E s) ?pos \<noteq> None"
    | (r) head where "db_column_get ?R (streams_col ?B) ?pos (fs_perpetual s) = Inr None"
        "fv_streams (fullnode_view E s) ?pos = None"
        "db_column_get ?R (source_list_col ?B) ?u (fs_index s) = Inr head"
    using db_column_get_eq [OF laws(1) table_laws(2) [OF laws(2)] cols(2) W(3)]
      db_column_get_eq [OF laws(1) table_laws(6) [OF laws(2)] cols(6) W(2)] rel v by metis
  then show thesis
  proof cases
    case e1
    then show thesis by (intro db_error) (simp_all add: prepare_delivered_def Let_def)
  next
    case e2
    then show thesis by (intro db_error) (simp_all add: prepare_delivered_def Let_def)
  next
    case t
    then show thesis by (intro taken) (auto simp: prepare_delivered_def Let_def)
  next
    case r
    show thesis
    proof (cases "targets_available (fullnode_view E s) cd")
      case True
      then show thesis using prepare_after_reads(1) [OF ready wf r(1,3)] r(2) by (intro ok) simp_all
    next
      case False
      with prepare_after_reads(2) [OF ready wf r(1,3)] r(2) full show thesis by blast
    qed
  qed
qed

lemma perpetual_ops_view:
  assumes "bincode_laws (env_bincode E)" and "wf_delivered cd"
  shows "column_view (certificates_col (env_bincode E)) (fold apply_batch_op (perpetual_ops E cd) m) =
      (column_view (certificates_col (env_bincode E)) m)(cert_id (cd_certificate cd) \<mapsto> cd)"
    and "column_view (streams_col (env_bincode E)) (fold apply_batch_op (perpetual_ops E cd) m) =
      (column_view (streams_col (env_bincode E)) m)
        (delivery_position (cd_proof_of_delivery cd) \<mapsto> cert_id (cd_certificate cd))"
    and "column_view (unverified_col (env_bincode E)) (fold apply_batch_op (perpetual_ops E cd) m) =
      column_view (unverified_col (env_bincode E)) m"
    and "column_inv (certificates_col (env_bincode E)) m \<Longrightarrow>
      column_inv (certificates_col (env_bincode E)) (fold apply_batch_op (perpetual_ops E cd) m)"
    and "column_inv (streams_col (env_bincode E)) m \<Longrightarrow>
      column_inv (streams_col (env_bincode E)) (fold apply_batch_op (perpetual_ops E cd) m)"
    and "column_inv (unverified_col (env_bincode E)) (fold apply_batch_op (perpetual_ops E cd) m) =
      column_inv (unverified_col (env_bincode E)) m"
  using table_laws [OF assms(1)] wf_deliveredD [OF assms(2)]
  unfolding perpetual_ops_def Let_def fold_append comp_def
  by (simp_all add: column_view_puts column_inv_puts column_puts_other del: list.map fold_simps)

lemma index_ops_keys:
  assumes "wf_delivered cd"
  shows "\<forall>(k, x) \<in> set (map (\<lambda>t. (TargetSourceListKey t (source_subnet_id (cd_certificate cd)), f t))
      (target_subnets (cd_certificate cd))). wf_target_source k"
    and "\<forall>(k, x) \<in> set (map (\<lambda>t. (target_position t (source_subnet_id (cd_certificate cd)) (g t), cid))
      (target_subnets (cd_certificate cd))). wf_target_position k"
    and "\<forall>(k, x) \<in> set (map (\<lambda>t. ((t, source_subnet_id (cd_certificate cd)), True))
      (target_subnets (cd_certificate cd))). wf_subnet_pair k"
  using wf_deliveredD(2,4) [OF assms]
  by (auto simp: wf_target_source_def wf_target_position_def wf_subnet_pair_def)

lemma index_ops_view:
  assumes "bincode_laws (env_bincode E)" and "wf_delivered cd"
  defines "u \<equiv> source_subnet_id (cd_certificate cd)" and "ts \<equiv> set (target_subnets (cd_certificate cd))"
  shows "column_view (source_list_col (env_bincode E)) (fold apply_batch_op (index_ops E v cd) m) =
      (column_view (source_list_col (env_bincode E)) m)
        (u \<mapsto> (cert_id (cd_certificate cd), src_position (delivery_position (cd_proof_of_delivery cd))))"
    and "column_view (target_source_list_col (env_bincode E)) (fold apply_batch_op (index_ops E v cd) m) k1 =
      (if tsl_target k1 \<in> ts \<and> tsl_source k1 = u then Some (next_pos v (tsl_target k1) u)
       else column_view (target_source_list_col (env_bincode E)) m k1)"
    and "column_view (target_streams_col (env_bincode E)) (fold apply_batch_op (index_ops E v cd) m) k2 =
      (if tgt_target_subnet_id k2 \<in> ts \<and> tgt_source_subnet_id k2 = u \<and>
          tgt_position k2 = next_pos v (tgt_target_subnet_id k2) u
       then Some (cert_id (cd_certificate cd)) else column_view (target_streams_col (env_bincode E)) m k2)"
    and "column_view (source_list_per_target_col (env_bincode E)) (fold apply_batch_op (index_ops E v cd) m) (t, t') =
      (if t \<in> ts \<and> t' = u then Some True
       else column_view (source_list_per_target_col (env_bincode E)) m (t, t'))"
proof -
  note L = table_laws [OF assms(1)] and W = wf_deliveredD [OF assms(2)] and K = index_ops_keys [OF assms(2)]
  show "column_view (source_list_col (env_bincode E)) (fold apply_batch_op (index_ops E v cd) m) =
      (column_view (source_list_col (env_bincode E)) m)
        (u \<mapsto> (cert_id (cd_certificate cd), src_position (delivery_position (cd_proof_of_delivery cd))))"
    using W(2) unfolding index_ops_def Let_def fold_append comp_def u_def
    by (simp add: column_view_puts [OF L(6)] column_puts_other del: list.map fold_simps map_map)
  show "column_view (target_source_list_col (env_bincode E)) (fold apply_batch_op (index_ops E v cd) m) k1 =
      (if tsl_target k1 \<in> ts \<and> tsl_source k1 = u then Some (next_pos v (tsl_target k1) u)
       else column_view (target_source_list_col (env_bincode E)) m k1)"
    unfolding index_ops_def Let_def fold_append comp_def u_def ts_def
    by (cases k1) (simp add: column_puts_other column_view_puts [OF L(5) K(1)]
        map_add_graph [where sel = tsl_target and F = "\<lambda>t. TargetSourceListKey t (source_subnet_id (cd_certificate cd))"]
        del: list.map fold_simps map_map)
  show "column_view (target_streams_col (env_bincode E)) (fold apply_batch_op (index_ops E v cd) m) k2 =
      (if tgt_target_subnet_id k2 \<in> ts \<and> tgt_source_subnet_id k2 = u \<and>
          tgt_position k2 = next_pos v (tgt_target_subnet_id k2) u
       then Some (cert_id (cd_certificate cd)) else column_view (target_streams_col (env_bincode E)) m k2)"
    unfolding index_ops_def Let_def fold_append comp_def u_def ts_def
    by (cases k2) (simp add: column_puts_other column_view_puts [OF L(4) K(2)]
        map_add_graph [where sel = tgt_target_subnet_id and F = "\<lambda>t. target_position t (source_subnet_id (cd_certificate cd))
          (next_pos v t (source_subnet_id (cd_certificate cd)))"]
        del: list.map fold_simps map_map)
  show "column_view (source_list_per_target_col (env_bincode E)) (fold apply_batch_op (index_ops E v cd) m) (t, t') =
      (if t \<in> ts \<and> t' = u then Some True
       else column_view (source_list_per_target_col (env_bincode E)) m (t, t'))"
    unfolding index_ops_def Let_def fold_append comp_def u_def ts_def
    by (simp add: column_puts_other column_view_puts [OF L(7) K(3)]
        map_add_graph [where sel = fst and F = "\<lambda>t. (t, source_subnet_id (cd_certificate cd))"]
        del: list.map fold_simps map_map)
qed

lemma index_ops_inv:
  assumes "bincode_laws (env_bincode E)" and "wf_delivered cd"
  shows "column_inv (source_list_col (env_bincode E)) m \<Longrightarrow>
      column_inv (source_list_col (env_bincode E)) (fold apply_batch_op (index_ops E v cd) m)"
    and "column_inv (target_source_list_col (env_bincode E)) m \<Longrightarrow>
      column_inv (target_source_list_col (env_bincode E)) (fold apply_batch_op (index_ops E v cd) m)"
    and "column_inv (target_streams_col (env_bincode E)) m \<Longrightarrow>
      column_inv (target_streams_col (env_bincode E)) (fold apply_batch_op (index_ops E v cd) m)"
    and "column_inv (source_list_per_target_col (env_bincode E)) m \<Longrightarrow>
      column_inv (source_list_per_target_col (env_bincode E)) (fold apply_batch_op (index_ops E v cd) m)"
  using wf_deliveredD(2) [OF assms(2)]
  unfolding index_ops_def Let_def fold_append comp_def
  by (simp_all add: column_puts_other column_inv_puts [OF table_laws(6) [OF assms(1)]]
      column_inv_puts [OF table_laws(5) [OF assms(1)] index_ops_keys(1) [OF assms(2)]]
      column_inv_puts [OF table_laws(4) [OF assms(1)] index_ops_keys(2) [OF assms(2)]]
      column_inv_puts [OF table_laws(7) [OF assms(1)] index_ops_keys(3) [OF assms(2)]]
      del: list.map fold_simps map_map)

lemma perpetual_ready_write:
  assumes "env_laws E" and "wf_delivered cd" and "perpetual_ready E db"
    and "batch_write (env_rocks E) \<lparr>batch_db = PerpetualDb, batch_ops = perpetual_ops E cd\<rparr> db = Inr db'"
  shows "perpetual_ready E db'"
    and "cf_maps (env_rocks E) db' = fold apply_batch_op (perpetual_ops E cd) (cf_maps (env_rocks E) db)"
proof -
  have laws: "rocksdb_laws (env_rocks E)" "bincode_laws (env_bincode E)"
    using assms(1) by (simp_all add: env_laws_def)
  note w = batch_write_ok [OF laws(1) assms(4)]
  show "cf_maps (env_rocks E) db' = fold apply_batch_op (perpetual_ops E cd) (cf_maps (env_rocks E) db)"
    using w by simp
  with assms(3) w(2) show "perpetual_ready E db'"
    by (simp add: perpetual_ready_def families_opened_def perpetual_ops_view [OF laws(2) assms(2)])
qed

lemma index_ready_write:
  assumes "env_laws E" and "wf_delivered cd" and "index_ready E db"
    and "batch_write (env_rocks E) \<lparr>batch_db = IndexDb, batch_ops = index_ops E v cd\<rparr> db = Inr db'"
  shows "index_ready E db'"
    and "cf_maps (env_rocks E) db' = fold apply_batch_op (index_ops E v cd) (cf_maps (env_rocks E) db)"
proof -
  have laws: "rocksdb_laws (env_rocks E)" "bincode_laws (env_bincode E)"
    using assms(1) by (simp_all add: env_laws_def)
  note w = batch_write_ok [OF laws(1) assms(4)]
  show "cf_maps (env_rocks E) db' = fold apply_batch_op (index_ops E v cd) (cf_maps (env_rocks E) db)"
    using w by simp
  with assms(3) w(2) show "index_ready E db'"
    by (simp add: index_ready_def families_opened_def index_ops_inv [OF laws(2) assms(2)])
qed

text \<open>Only the tables of the perpetual database after the first of the two writes.\<close>

definition half_delivered_view :: "certificate_delivered \<Rightarrow> fullnode_view \<Rightarrow> fullnode_view" where
  "half_delivered_view cd v =
     v\<lparr>fv_certificates := (fv_certificates v)(cert_id (cd_certificate cd) \<mapsto> cd),
       fv_streams := (fv_streams v)(delivery_position (cd_proof_of_delivery cd) \<mapsto> cert_id (cd_certificate cd))\<rparr>"

lemma view_after_perpetual_write:
  assumes "bincode_laws (env_bincode E)" and "wf_delivered cd"
    and "cf_maps (env_rocks E) p = fold apply_batch_op (perpetual_ops E cd) (cf_maps (env_rocks E) (fs_perpetual s))"
  shows "fullnode_view E (s\<lparr>fs_perpetual := p\<rparr>) = half_delivered_view cd (fullnode_view E s)"
  using assms(3)
  by (simp add: fullnode_view_def half_delivered_view_def perpetual_ops_view [OF assms(1,2)])

lemma view_after_index_write:
  assumes "bincode_laws (env_bincode E)" and "wf_delivered cd"
    and "fullnode_view E s = half_delivered_view cd v"
    and "cf_maps (env_rocks E) i = fold apply_batch_op (index_ops E v cd) (cf_maps (env_rocks E) (fs_index s))"
  shows "fullnode_view E (s\<lparr>fs_index := i\<rparr>) = deliver_view cd v"
proof -
  note V = index_ops_view [OF assms(1,2), of v "cf_maps (env_rocks E) (fs_index s)", folded assms(4)]
  have old: "col_map (env_rocks E) (source_list_col (env_bincode E)) (fs_index s) = fv_source_list v"
    "col_map (env_rocks E) (target_source_list_col (env_bincode E)) (fs_index s) = fv_target_source_list v"
    "col_map (env_rocks E) (target_streams_col (env_bincode E)) (fs_index s) = fv_target_streams v"
    "col_map (env_rocks E) (source_list_per_target_col (env_bincode E)) (fs_index s) = fv_source_list_per_target v"
    "col_map (env_rocks E) (certificates_col (env_bincode E)) (fs_perpetual s) =
      (fv_certificates v)(cert_id (cd_certificate cd) \<mapsto> cd)"
    "col_map (env_rocks E) (streams_col (env_bincode E)) (fs_perpetual s) =
      (fv_streams v)(delivery_position (cd_proof_of_delivery cd) \<mapsto> cert_id (cd_certificate cd))"
    "col_map (env_rocks E) (unverified_col (env_bincode E)) (fs_perpetual s) = fv_unverified v"
    using assms(3) by (cases v, simp add: fullnode_view_def half_delivered_view_def)+
  show ?thesis
    by (cases v) (auto simp: fullnode_view_def deliver_view_def Let_def fun_eq_iff V old)
qed

section \<open>The outcomes of an insertion\<close>

lemma commit_delivered_cases:
  assumes ready: "fullnode_ready E s" and wf: "wf_delivered cd"
    and out: "commit_delivered E (\<lparr>batch_db = PerpetualDb, batch_ops = perpetual_ops E cd\<rparr>,
        \<lparr>batch_db = IndexDb, batch_ops = index_ops E (fullnode_view E s) cd\<rparr>, pos) s = (s', r)"
  obtains (no_write) e where "r = Inl (InternalStorage (RocksDBError e))" "s' = s" "\<not> rocksdb_reliable (env_rocks E)"
  | (half) e where "r = Inl (InternalStorage (RocksDBError e))" "\<not> rocksdb_reliable (env_rocks E)"
      "fullnode_ready E s'" "fullnode_view E s' = half_delivered_view cd (fullnode_view E s)"
  | (written) "r = Inr pos" "fullnode_ready E s'" "fullnode_view E s' = deliver_view cd (fullnode_view E s)"
proof -
  let ?R = "env_rocks E" and ?v = "fullnode_view E s"
  let ?b = "\<lparr>batch_db = PerpetualDb, batch_ops = perpetual_ops E cd\<rparr>"
  let ?i = "\<lparr>batch_db = IndexDb, batch_ops = index_ops E ?v cd\<rparr>"
  have env: "env_laws E" and p: "perpetual_ready E (fs_perpetual s)" and i: "index_ready E (fs_index s)"
    using ready by (simp_all add: fullnode_ready_def)
  note bin = fullnode_laws(2) [OF ready]
  have rel: "\<not> rocksdb_reliable ?R \<and> (\<exists>e'. e = RocksDBError e')" if "batch_write ?R b db = Inl e" for b db e
    using that batch_write_reliable [of ?R b db] by (auto simp: batch_write_def result_simps)
  show thesis
  proof (cases "batch_write ?R ?b (fs_perpetual s)")
    case (Inl e)
    with out rel [OF Inl] no_write show thesis by (auto simp: commit_delivered_def)
  next
    case (Inr db)
    note w = perpetual_ready_write [OF env wf p Inr]
    let ?s = "s\<lparr>fs_perpetual := db\<rparr>"
    have s: "fullnode_ready E ?s" "fullnode_view E ?s = half_delivered_view cd ?v"
      using w i env view_after_perpetual_write [OF bin wf] by (simp_all add: fullnode_ready_def)
    show thesis
    proof (cases "batch_write ?R ?i (fs_index s)")
      case (Inl e)
      with out Inr s rel [OF Inl] half show thesis by (auto simp: commit_delivered_def)
    next
      case i': (Inr idx)
      note x = index_ready_write [OF env wf i i']
      have "fullnode_ready E (?s\<lparr>fs_index := idx\<rparr>)"
        using s(1) x(1) by (simp add: fullnode_ready_def)
      moreover have "fullnode_view E (?s\<lparr>fs_index := idx\<rparr>) = deliver_view cd ?v"
        using view_after_index_write [OF bin wf s(2), of idx] x(2) by simp
      ultimately show thesis
        using out Inr i' written by (auto simp: commit_delivered_def)
    qed
  qed
qed

lemma insert_delivered_cases:
  assumes "fullnode_ready E s" and "wf_delivered cd" and "insert_certificate_delivered E cd s = (s', r)"
  obtains (db_error) e where "r = Inl (InternalStorage (RocksDBError e))" "\<not> rocksdb_reliable (env_rocks E)" "s' = s"
  | (half) e where "r = Inl (InternalStorage (RocksDBError e))" "\<not> rocksdb_reliable (env_rocks E)"
      "fv_streams (fullnode_view E s) (delivery_position (cd_proof_of_delivery cd)) = None"
      "fullnode_ready E s'" "fullnode_view E s' = half_delivered_view cd (fullnode_view E s)"
  | (taken) "fv_streams (fullnode_view E s) (delivery_position (cd_proof_of_delivery cd)) \<noteq> None" "s' = s"
      "r = Inl (InternalStorage (CertificateAlreadyExistsAtPosition
        (src_position (delivery_position (cd_proof_of_delivery cd)))
        (src_subnet_id (delivery_position (cd_proof_of_delivery cd)))))"
  | (full) e where "fv_streams (fullnode_view E s) (delivery_position (cd_proof_of_delivery cd)) = None"
      "\<not> targets_available (fullnode_view E s) cd" "s' = s"
      "r = Inl (InternalStorage (PositionError e (sid_array (source_subnet_id (cd_certificate cd)))))"
  | (ok) "fv_streams (fullnode_view E s) (delivery_position (cd_proof_of_delivery cd)) = None"
      "targets_available (fullnode_view E s) cd" "r = Inr (delivered_positions (fullnode_view E s) cd)"
      "fullnode_ready E s'" "fullnode_view E s' = deliver_view cd (fullnode_view E s)"
  using assms(1,2)
proof (cases rule: prepare_delivered_cases)
  case (db_error e)
  then show thesis using assms(3) by (intro that(1) [of e]) (simp_all add: insert_certificate_delivered_def)
next
  case taken
  then show thesis using assms(3) by (intro that(3)) (simp_all add: insert_certificate_delivered_def)
next
  case (full e)
  then show thesis using assms(3) by (intro that(4) [of e]) (simp_all add: insert_certificate_delivered_def)
next
  case ok
  then have "commit_delivered E (\<lparr>batch_db = PerpetualDb, batch_ops = perpetual_ops E cd\<rparr>,
      \<lparr>batch_db = IndexDb, batch_ops = index_ops E (fullnode_view E s) cd\<rparr>,
      delivered_positions (fullnode_view E s) cd) s = (s', r)"
    using assms(3) by (simp add: insert_certificate_delivered_def)
  from assms(1,2) this show thesis
  proof (cases rule: commit_delivered_cases)
    case (no_write e)
    then show thesis by (intro that(1))
  next
    case (half e)
    then show thesis using ok(1) by (intro that(2))
  next
    case written
    then show thesis using ok(1,2) by (intro that(5))
  qed
qed

text \<open>
  C4: An insertion refines the specification on maps. With a database that does not fail it
  rejects a position that is taken and a target stream that is full, leaving the store as it was, and
  otherwise returns the new positions and leaves exactly the tables of \<open>deliver_view\<close>: the
  certificate, its place in the source stream, the next place of every target stream, the
  head of the source and the index entries.
\<close>

theorem insert_certificate_delivered_refines:
  assumes "fullnode_ready E s" and "rocksdb_reliable (env_rocks E)" and "wf_delivered cd"
  defines "v \<equiv> fullnode_view E s" and "pos \<equiv> delivery_position (cd_proof_of_delivery cd)"
  shows "if fv_streams v pos \<noteq> None then
      insert_certificate_delivered E cd s = (s, Inl (InternalStorage
        (CertificateAlreadyExistsAtPosition (src_position pos) (src_subnet_id pos))))
    else if \<not> targets_available v cd then
      \<exists>e. insert_certificate_delivered E cd s =
        (s, Inl (InternalStorage (PositionError e (sid_array (source_subnet_id (cd_certificate cd))))))
    else \<exists>s'. insert_certificate_delivered E cd s = (s', Inr (delivered_positions v cd)) \<and>
      fullnode_ready E s' \<and> fullnode_view E s' = deliver_view cd v"
proof -
  obtain s' r where out: "insert_certificate_delivered E cd s = (s', r)" by force
  from assms(1,3) out show ?thesis
    by (cases rule: insert_delivered_cases) (use assms(2) out in \<open>auto simp: v_def pos_def\<close>)
qed

section \<open>Consistency of the tables\<close>

definition down_closed :: "position set \<Rightarrow> bool" where
  "down_closed P \<longleftrightarrow> (\<forall>p \<in> P. \<forall>q < p. q \<in> P)"

text \<open>
  Every place of a stream and every head names a stored certificate, every stored certificate
  is at its place, target streams have no gaps, and the indexes of the target streams agree
  with them.
\<close>

definition consistent_certificates :: "fullnode_view \<Rightarrow> bool" where
  "consistent_certificates v \<longleftrightarrow>
     (\<forall>cid cd. fv_certificates v cid = Some cd \<longrightarrow> cert_id (cd_certificate cd) = cid \<and>
        wf_certificate_id cid \<and> fv_streams v (delivery_position (cd_proof_of_delivery cd)) = Some cid) \<and>
     (\<forall>p cid. fv_streams v p = Some cid \<longrightarrow> fv_certificates v cid \<noteq> None) \<and>
     (\<forall>p cid. fv_target_streams v p = Some cid \<longrightarrow> fv_certificates v cid \<noteq> None) \<and>
     (\<forall>u cid p. fv_source_list v u = Some (cid, p) \<longrightarrow> fv_streams v (source_position u p) = Some cid)"

lemma consistent_certificatesI:
  assumes "\<And>cid cd. fv_certificates v cid = Some cd \<Longrightarrow> cert_id (cd_certificate cd) = cid"
    and "\<And>cid cd. fv_certificates v cid = Some cd \<Longrightarrow> wf_certificate_id cid"
    and "\<And>cid cd. fv_certificates v cid = Some cd \<Longrightarrow>
      fv_streams v (delivery_position (cd_proof_of_delivery cd)) = Some cid"
    and "\<And>p cid. fv_streams v p = Some cid \<Longrightarrow> fv_certificates v cid \<noteq> None"
    and "\<And>p cid. fv_target_streams v p = Some cid \<Longrightarrow> fv_certificates v cid \<noteq> None"
    and "\<And>u cid p. fv_source_list v u = Some (cid, p) \<Longrightarrow> fv_streams v (source_position u p) = Some cid"
  shows "consistent_certificates v"
  using assms unfolding consistent_certificates_def by blast

lemma consistent_certificatesD:
  assumes "consistent_certificates v"
  shows "fv_certificates v cid = Some cd \<Longrightarrow> cert_id (cd_certificate cd) = cid"
    and "fv_certificates v cid = Some cd \<Longrightarrow> wf_certificate_id cid"
    and "fv_certificates v cid = Some cd \<Longrightarrow>
      fv_streams v (delivery_position (cd_proof_of_delivery cd)) = Some cid"
    and "fv_streams v p = Some cid \<Longrightarrow> fv_certificates v cid \<noteq> None"
    and "fv_target_streams v p' = Some cid \<Longrightarrow> fv_certificates v cid \<noteq> None"
    and "fv_source_list v u = Some (cid, q) \<Longrightarrow> fv_streams v (source_position u q) = Some cid"
  using assms unfolding consistent_certificates_def by blast+

definition consistent_targets :: "fullnode_view \<Rightarrow> bool" where
  "consistent_targets v \<longleftrightarrow>
     (\<forall>t u. down_closed (target_positions v t u) \<and>
        fv_target_source_list v (TargetSourceListKey t u) =
          (if target_positions v t u = {} then None else Some (Max (target_positions v t u))) \<and>
        fv_source_list_per_target v (t, u) = (if target_positions v t u = {} then None else Some True))"

definition store_consistent :: "fullnode_view \<Rightarrow> bool" where
  "store_consistent v \<longleftrightarrow> consistent_certificates v \<and> consistent_targets v"

lemma increment_covers:
  "increment m = Inr p \<Longrightarrow> q < p \<Longrightarrow> q \<le> m"
  using increment_unat [of m p] by (simp add: word_le_nat_alt word_less_nat_alt)

lemma target_positions_deliver:
  "target_positions (deliver_view cd v) t u =
    (if t \<in> set (target_subnets (cd_certificate cd)) \<and> u = source_subnet_id (cd_certificate cd)
     then insert (next_pos v t u) (target_positions v t u) else target_positions v t u)"
  by (auto simp: target_positions_def deliver_view_def Let_def)

lemma next_pos_new_max:
  assumes "next_position v t u = Inr p" and "down_closed (target_positions v t u)"
  shows "down_closed (insert p (target_positions v t u))"
    and "Max (insert p (target_positions v t u)) = p"
    and "p \<notin> target_positions v t u"
proof -
  let ?P = "target_positions v t u"
  show "down_closed (insert p ?P)"
  proof (cases "?P = {}")
    case True
    then show ?thesis using assms(1) by (simp add: next_position_def down_closed_def position_ZERO_def)
  next
    case False
    then have "increment (Max ?P) = Inr p" and "Max ?P \<in> ?P"
      using assms(1) by (simp_all add: next_position_def)
    then show ?thesis
      using assms(2) increment_covers by (fastforce simp: down_closed_def order.order_iff_strict)
  qed
  have above: "q < p" if "q \<in> ?P" for q
    using that assms(1) increment_greater [of "Max ?P" p] Max_ge [of ?P q]
    by (auto simp: next_position_def split: if_splits)
  then show "Max (insert p ?P) = p" by (intro Max_eqI) (auto simp: less_imp_le)
  show "p \<notin> ?P" using above by blast
qed

lemma deliver_view_consistent_targets:
  assumes "consistent_targets v" and "targets_available v cd"
  shows "consistent_targets (deliver_view cd v)"
proof -
  let ?ts = "set (target_subnets (cd_certificate cd))" and ?s = "source_subnet_id (cd_certificate cd)"
  have "down_closed (target_positions (deliver_view cd v) t u) \<and>
      fv_target_source_list (deliver_view cd v) (TargetSourceListKey t u) =
        (if target_positions (deliver_view cd v) t u = {} then None
         else Some (Max (target_positions (deliver_view cd v) t u))) \<and>
      fv_source_list_per_target (deliver_view cd v) (t, u) =
        (if target_positions (deliver_view cd v) t u = {} then None else Some True)" for t u
  proof (cases "t \<in> ?ts \<and> u = ?s")
    case True
    then obtain p where p: "next_position v t u = Inr p"
      using assms(2) by (auto simp: targets_available_def)
    have "down_closed (target_positions v t u)" using assms(1) by (simp add: consistent_targets_def)
    note new = next_pos_new_max [OF p this]
    show ?thesis
      unfolding target_positions_deliver using True new p by (simp add: deliver_view_def Let_def)
  next
    case False
    then show ?thesis
      unfolding target_positions_deliver using assms(1)
      by (auto simp: deliver_view_def Let_def consistent_targets_def)
  qed
  then show ?thesis by (simp add: consistent_targets_def)
qed

text \<open>A proof of delivery places the certificate in the stream of its own source subnet.\<close>

definition own_stream :: "certificate_delivered \<Rightarrow> bool" where
  "own_stream cd \<longleftrightarrow> src_subnet_id (delivery_position (cd_proof_of_delivery cd)) = source_subnet_id (cd_certificate cd)"

lemma half_delivered_consistent:
  assumes "store_consistent v" and "wf_delivered cd"
    and free: "fv_streams v (delivery_position (cd_proof_of_delivery cd)) = None"
  shows "store_consistent (half_delivered_view cd v)"
proof -
  let ?v = "half_delivered_view cd v" and ?p = "delivery_position (cd_proof_of_delivery cd)"
  have old: "consistent_certificates v" using assms(1) by (simp add: store_consistent_def)
  have "target_positions ?v = target_positions v"
    by (simp add: target_positions_def half_delivered_view_def fun_eq_iff)
  then have "consistent_targets ?v"
    using assms(1) by (simp add: store_consistent_def consistent_targets_def half_delivered_view_def)
  moreover have "consistent_certificates ?v"
    by (rule consistent_certificatesI)
      (use free wf_deliveredD(1) [OF assms(2)] in \<open>auto simp: half_delivered_view_def
        dest: consistent_certificatesD [OF old] split: if_splits\<close>)
  ultimately show ?thesis by (simp add: store_consistent_def)
qed

lemma deliver_view_consistent:
  assumes "store_consistent v" and "wf_delivered cd" and "own_stream cd"
    and free: "fv_streams v (delivery_position (cd_proof_of_delivery cd)) = None"
    and "targets_available v cd"
  shows "store_consistent (deliver_view cd v)"
proof -
  let ?p = "delivery_position (cd_proof_of_delivery cd)"
  have half: "consistent_certificates (half_delivered_view cd v)"
    using half_delivered_consistent [OF assms(1,2,4)] by (simp add: store_consistent_def)
  have p: "source_position (source_subnet_id (cd_certificate cd)) (src_position ?p) = ?p"
    using assms(3) by (cases ?p) (simp add: own_stream_def)
  have same: "fv_certificates (deliver_view cd v) = fv_certificates (half_delivered_view cd v)"
    "fv_streams (deliver_view cd v) = fv_streams (half_delivered_view cd v)"
    by (simp_all add: deliver_view_def half_delivered_view_def Let_def)
  have target: "fv_certificates (half_delivered_view cd v) cid \<noteq> None"
    if "fv_target_streams (deliver_view cd v) q = Some cid" for q cid
    using that consistent_certificatesD(5) [OF half, of q cid]
    by (auto simp: deliver_view_def half_delivered_view_def Let_def split: if_splits)
  have head: "fv_streams (half_delivered_view cd v) (source_position u q) = Some cid"
    if "fv_source_list (deliver_view cd v) u = Some (cid, q)" for u cid q
    using that p consistent_certificatesD(6) [OF half, of u cid q]
    by (auto simp: deliver_view_def half_delivered_view_def Let_def split: if_splits)
  have "consistent_certificates (deliver_view cd v)"
    by (rule consistent_certificatesI)
      (simp_all only: same consistent_certificatesD [OF half] target head not_False_eq_True)
  then show ?thesis
    using assms(1,5) deliver_view_consistent_targets by (simp add: store_consistent_def)
qed

lemma insert_delivered_consistent:
  assumes "fullnode_ready E s" and "store_consistent (fullnode_view E s)" and "wf_delivered cd" and "own_stream cd"
    and "insert_certificate_delivered E cd s = (s', r)"
  shows "fullnode_ready E s' \<and> store_consistent (fullnode_view E s')"
  using assms(1,3,5)
  by (cases rule: insert_delivered_cases)
    (use assms in \<open>auto simp: half_delivered_consistent deliver_view_consistent\<close>)


section \<open>A concrete store\<close>

definition mem_env :: "(mem_value mem_db, mem_value) store_env" where
  "mem_env = \<lparr>env_rocks = mem_rocks, env_bincode = mem_bincode\<rparr>"

definition empty_fullnode :: "mem_value mem_db fullnode_store" where
  "empty_fullnode =
     \<lparr>fs_perpetual = \<lparr>mem_cfs = perpetual_cfs, mem_data = (\<lambda>_. [])\<rparr>,
      fs_index = \<lparr>mem_cfs = index_cfs, mem_data = (\<lambda>_. [])\<rparr>\<rparr>"

lemma empty_fullnode_ready: "fullnode_ready mem_env empty_fullnode"
  by (simp add: fullnode_ready_def env_laws_def mem_env_def mem_rocks_laws mem_bincode_laws perpetual_ready_def
      index_ready_def families_opened_def column_inv_def empty_fullnode_def)

lemma mem_env_reliable: "rocksdb_reliable (env_rocks mem_env)"
  by (simp add: mem_env_def mem_rocks_reliable)

definition empty_view :: fullnode_view where
  "empty_view = \<lparr>fv_certificates = Map.empty, fv_streams = Map.empty, fv_unverified = Map.empty,
     fv_target_streams = Map.empty, fv_target_source_list = Map.empty, fv_source_list = Map.empty,
     fv_source_list_per_target = Map.empty\<rparr>"

lemma empty_mem_column: "column_view c (cf_maps mem_rocks \<lparr>mem_cfs = cfs, mem_data = (\<lambda>_. [])\<rparr>) = Map.empty"
  by (auto simp: column_view_def fun_eq_iff split: bind_splits)

lemma empty_fullnode_view: "fullnode_view mem_env empty_fullnode = empty_view"
  by (simp add: fullnode_view_def mem_env_def empty_fullnode_def empty_view_def empty_mem_column)

lemma empty_view_consistent: "store_consistent empty_view"
  by (simp add: store_consistent_def consistent_certificates_def consistent_targets_def empty_view_def
      target_positions_def down_closed_def)

definition example_delivered :: "nat \<Rightarrow> position \<Rightarrow> certificate_delivered" where
  "example_delivered n p =
     \<lparr>cd_certificate = example_certificate n,
      cd_proof_of_delivery = \<lparr>pod_certificate_id = cert_id (example_certificate n),
        delivery_position = source_position (source_subnet_id (example_certificate n)) p,
        pod_readies = [], threshold = 3\<rparr>\<rparr>"

lemma example_delivered_wf [simp]: "wf_delivered (example_delivered n p)" "own_stream (example_delivered n p)"
  using wf_example_certificate [of n]
  by (simp_all add: wf_delivered_def own_stream_def example_delivered_def wf_certificate_def wf_source_position_def)

theorem insert_certificate_delivered_refines_witness:
  "\<exists>s'. insert_certificate_delivered mem_env (example_delivered 1 0) empty_fullnode =
       (s', Inr (delivered_positions empty_view (example_delivered 1 0))) \<and>
     fullnode_view mem_env s' = deliver_view (example_delivered 1 0) empty_view"
  using insert_certificate_delivered_refines [OF empty_fullnode_ready mem_env_reliable, of "example_delivered 1 0"]
  by (auto simp: empty_fullnode_view targets_available_def next_position_def target_positions_def
      empty_view_def split: if_splits)


end
