(* ===== verification/Store.thy ===== *)
theory Store
  imports Tables
begin

text \<open>
  The traits \<open>WriteStore\<close> and \<open>ReadStore\<close> of \<^verbatim>\<open>topos-tce-storage/src/store.rs\<close> as locales: what
  a client may rely on when it inserts delivered certificates and reads them back. \<open>certs\<close> is
  the map of the delivered certificates a store holds. The full node store and the validator
  store are instances.
\<close>

section \<open>Inserting one by one\<close>

text \<open>A loop over certificates that stops at the first error.\<close>

fun insert_each ::
  "(certificate_delivered \<Rightarrow> 's \<Rightarrow> 's \<times> (storage_error + certificate_positions)) \<Rightarrow>
   certificate_delivered list \<Rightarrow> 's \<Rightarrow> 's \<times> (storage_error + unit)" where
  "insert_each ins [] s = (s, Inr ())"
| "insert_each ins (cd # cds) s =
     (case ins cd s of
        (s, Inl e) \<Rightarrow> (s, Inl e)
      | (s, Inr _) \<Rightarrow> insert_each ins cds s)"

abbreviation delivered_id :: "certificate_delivered \<Rightarrow> certificate_id" where
  "delivered_id cd \<equiv> cert_id (cd_certificate cd)"

section \<open>The write contract\<close>

locale write_store =
  fixes invar :: "'s \<Rightarrow> bool"
    and certs :: "'s \<Rightarrow> certificate_id \<rightharpoonup> certificate_delivered"
    and accepts :: "certificate_delivered \<Rightarrow> bool"
    and ins :: "certificate_delivered \<Rightarrow> 's \<Rightarrow> 's \<times> (storage_error + certificate_positions)"
  assumes invar_insert: "invar s \<Longrightarrow> accepts cd \<Longrightarrow> invar (fst (ins cd s))"
    and insert_ok: "invar s \<Longrightarrow> accepts cd \<Longrightarrow> ins cd s = (s', Inr p) \<Longrightarrow>
      certs s' = (certs s)(delivered_id cd \<mapsto> cd) \<and> cp_source p = delivery_position (cd_proof_of_delivery cd)"
    and insert_err: "invar s \<Longrightarrow> accepts cd \<Longrightarrow> ins cd s = (s', Inl e) \<Longrightarrow>
      certs s' = certs s \<or> certs s' = (certs s)(delivered_id cd \<mapsto> cd)"
begin

lemma insert_each_invar:
  "invar s \<Longrightarrow> \<forall>cd \<in> set cds. accepts cd \<Longrightarrow> invar (fst (insert_each ins cds s))"
proof (induction cds arbitrary: s)
  case (Cons cd cds)
  have "invar (fst (ins cd s))" using Cons.prems invar_insert by simp
  with Cons show ?case by (cases "ins cd s") (auto split: sum.split)
qed simp

lemma insert_each_ok:
  assumes "invar s" and "\<forall>cd \<in> set cds. accepts cd" and "insert_each ins cds s = (s', Inr ())"
  shows "certs s' = certs s ++ map_of (rev (map (\<lambda>cd. (delivered_id cd, cd)) cds))"
  using assms
proof (induction cds arbitrary: s)
  case (Cons cd cds)
  then obtain t p where t: "ins cd s = (t, Inr p)" "insert_each ins cds t = (s', Inr ())"
    by (auto split: prod.splits sum.splits)
  moreover have "invar t" using Cons.prems invar_insert [of s cd] t by simp
  ultimately have "certs s' = certs t ++ map_of (rev (map (\<lambda>cd. (delivered_id cd, cd)) cds))"
    using Cons by simp
  moreover have "certs t = (certs s)(delivered_id cd \<mapsto> cd)"
    using insert_ok [of s cd t p] Cons.prems t by simp
  ultimately show ?case by simp
qed simp

end

section \<open>The read contract\<close>

locale read_store =
  fixes invar :: "'s \<Rightarrow> bool"
    and certs :: "'s \<Rightarrow> certificate_id \<rightharpoonup> certificate_delivered"
    and get :: "certificate_id \<Rightarrow> 's \<Rightarrow> storage_error + certificate_delivered option"
    and get_many :: "certificate_id list \<Rightarrow> 's \<Rightarrow> storage_error + certificate_delivered option list"
  assumes get_ok: "invar s \<Longrightarrow> wf_certificate_id cid \<Longrightarrow> get cid s = Inr r \<Longrightarrow> r = certs s cid"
    and get_many_ok: "invar s \<Longrightarrow> \<forall>cid \<in> set cids. wf_certificate_id cid \<Longrightarrow> get_many cids s = Inr rs \<Longrightarrow>
      rs = map (certs s) cids"
begin

lemma get_many_single:
  assumes "invar s" and "wf_certificate_id cid" and "get_many [cid] s = Inr [r]" and "get cid s = Inr r'"
  shows "r = r'"
  using assms get_ok [of s cid r'] get_many_ok [of s "[cid]" "[r]"] by simp

end

locale certificate_store =
  write_store invar certs accepts ins + read_store invar certs get get_many
  for invar :: "'s \<Rightarrow> bool" and certs accepts ins get get_many +
  assumes accepts_wf: "accepts cd \<Longrightarrow> wf_certificate_id (delivered_id cd)"
begin

lemma read_inserted:
  assumes "invar s" and "\<forall>cd \<in> set cds. accepts cd" and "distinct (map delivered_id cds)"
    and "insert_each ins cds s = (s', Inr ())" and "cd \<in> set cds" and "get (delivered_id cd) s' = Inr r"
  shows "r = Some cd"
proof -
  have "invar s'" using insert_each_invar [OF assms(1,2)] assms(4) by simp
  moreover have "wf_certificate_id (delivered_id cd)" using assms(2,5) accepts_wf by blast
  ultimately have "r = certs s' (delivered_id cd)" using get_ok assms(6) by blast
  also have "\<dots> = Some cd"
  proof -
    have "map_of (rev (map (\<lambda>cd. (delivered_id cd, cd)) cds)) (delivered_id cd) = Some cd"
      using assms(3,5) by (intro map_of_is_SomeI) (auto simp: rev_map [symmetric] comp_def distinct_rev)
    then show ?thesis using insert_each_ok [OF assms(1,2,4)] by (simp add: map_add_Some_iff)
  qed
  finally show ?thesis .
qed

lemma read_other:
  assumes "invar s" and "\<forall>cd \<in> set cds. accepts cd" and "insert_each ins cds s = (s', Inr ())"
    and "wf_certificate_id cid" and "cid \<notin> delivered_id ` set cds" and "get cid s' = Inr r"
  shows "r = certs s cid"
proof -
  have "invar s'" using insert_each_invar [OF assms(1,2)] assms(3) by simp
  then have "r = certs s' cid" using get_ok assms(4,6) by blast
  moreover have "map_of (rev (map (\<lambda>cd. (delivered_id cd, cd)) cds)) cid = None"
    using assms(5) by (auto simp: map_of_eq_None_iff)
  ultimately show ?thesis using insert_each_ok [OF assms(1-3)] by (simp add: map_add_def)
qed

end

end
