(* ===== verification/Full_Node_Reads.thy ===== *)
theory Full_Node_Reads
  imports Full_Node Store
begin

text \<open>
  What the reads of the full node store return (\<^verbatim>\<open>impl ReadStore for FullNodeStore\<close>), in terms
  of the maps its tables hold.
\<close>

section \<open>Positions\<close>

lemma card_lessThan_position: "card {..<p} = unat p" for p :: position
proof -
  have "bij_betw unat {..<p} {..<unat p}"
  proof (rule bij_betw_imageI)
    show "inj_on unat {..<p}" by (auto simp: inj_on_def word_unat_eq_iff)
    have "n \<in> unat ` {..<p}" if "n < unat p" for n
    proof
      have "n < 2 ^ 64" using that unsigned_less [of p, where 'a = nat] by simp
      then have n: "unat (of_nat n :: position) = n"
        by (simp add: unat_of_nat take_bit_eq_mod)
      then show "n = unat (of_nat n :: position)" by simp
      show "of_nat n \<in> {..<p}" using that n by (simp add: word_less_nat_alt)
    qed
    then show "unat ` {..<p} = {..<unat p}" by (auto simp: word_less_nat_alt)
  qed
  then show ?thesis using bij_betw_same_card by fastforce
qed

text \<open>Skipping as many entries as the position says leaves the entries from that position on
  when the positions have no gap.\<close>

lemma drop_down_closed:
  assumes "down_closed P"
  shows "drop (unat p) (sorted_list_of_set P) = filter (\<lambda>q. p \<le> q) (sorted_list_of_set P)"
proof -
  let ?A = "{q \<in> P. q < p}" and ?B = "{q \<in> P. p \<le> q}"
  have split: "sorted_list_of_set P = sorted_list_of_set ?A @ sorted_list_of_set ?B"
  proof (rule strict_sorted_equal)
    show "sorted_wrt (<) (sorted_list_of_set ?A @ sorted_list_of_set ?B)"
      by (auto simp: sorted_wrt_append)
    show "set (sorted_list_of_set P) = set (sorted_list_of_set ?A @ sorted_list_of_set ?B)"
      by auto
  qed simp
  have fA: "filter (\<lambda>q. p \<le> q) (sorted_list_of_set ?A) = []" by (auto simp: filter_empty_conv)
  have fB: "filter (\<lambda>q. p \<le> q) (sorted_list_of_set ?B) = sorted_list_of_set ?B" by (simp add: filter_id_conv)
  have "unat p = length (sorted_list_of_set ?A) \<or> sorted_list_of_set ?B = [] \<and> length (sorted_list_of_set ?A) \<le> unat p"
  proof (cases "?B = {}")
    case True
    have "card ?A \<le> card {..<p}" by (rule card_mono) auto
    then show ?thesis using True by (simp add: card_lessThan_position)
  next
    case False
    then have "?A = {..<p}" using assms by (fastforce simp: down_closed_def)
    then show ?thesis by (simp add: card_lessThan_position)
  qed
  moreover have "drop n (xs @ ys) = ys" if "n = length xs \<or> ys = [] \<and> length xs \<le> n" for n and xs ys :: "position list"
    using that by auto
  ultimately have "drop (unat p) (sorted_list_of_set ?A @ sorted_list_of_set ?B) = sorted_list_of_set ?B"
    by blast
  then show ?thesis by (simp only: split filter_append fA fB append_Nil)
qed

section \<open>Point reads\<close>

lemma get_certificate_ok:
  assumes "fullnode_ready E s" and "wf_certificate_id cid" and "get_certificate E cid s = Inr r"
  shows "r = fv_certificates (fullnode_view E s) cid"
  using assms(3) db_column_get_ok [OF fullnode_laws(1) [OF assms(1)] table_laws(1) [OF fullnode_laws(2) [OF assms(1)]]
      fullnode_columns_ready(1) [OF assms(1)] assms(2)]
  by (simp add: get_certificate_def result_simps fullnode_view_def)

lemma get_certificate_reliable:
  assumes "fullnode_ready E s" and "rocksdb_reliable (env_rocks E)" and "wf_certificate_id cid"
  shows "get_certificate E cid s = Inr (fv_certificates (fullnode_view E s) cid)"
  using db_column_get_reliable [OF fullnode_laws(1) [OF assms(1)] assms(2) table_laws(1) [OF fullnode_laws(2) [OF assms(1)]]
      fullnode_columns_ready(1) [OF assms(1)] assms(3)]
  by (simp add: get_certificate_def fullnode_view_def)

lemma get_certificates_reliable:
  assumes "fullnode_ready E s" and "rocksdb_reliable (env_rocks E)" and "\<forall>cid \<in> set cids. wf_certificate_id cid"
  shows "db_column_multi_get (env_rocks E) (certificates_col (env_bincode E)) cids (fs_perpetual s) =
    Inr (map (fv_certificates (fullnode_view E s)) cids)"
  using db_column_multi_get_reliable [OF fullnode_laws(1) [OF assms(1)] assms(2)
      table_laws(1) [OF fullnode_laws(2) [OF assms(1)]] fullnode_columns_ready(1) [OF assms(1)] assms(3)]
  by (simp add: fullnode_view_def)

lemma get_certificates_ok:
  assumes "fullnode_ready E s" and "\<forall>cid \<in> set cids. wf_certificate_id cid" and "get_certificates E cids s = Inr rs"
  shows "rs = map (fv_certificates (fullnode_view E s)) cids"
  using assms(3) db_column_multi_get_ok [OF fullnode_laws(1) [OF assms(1)]
      table_laws(1) [OF fullnode_laws(2) [OF assms(1)]] fullnode_columns_ready(1) [OF assms(1)] assms(2)]
  by (simp add: get_certificates_def result_simps fullnode_view_def)

lemma get_source_head_reliable:
  assumes "fullnode_ready E s" and "rocksdb_reliable (env_rocks E)" and "wf_subnet_id u"
  shows "get_source_head E u s = Inr (map_option
    (\<lambda>(cid, pos). \<lparr>sh_certificate_id = cid, sh_subnet_id = u, sh_position = pos\<rparr>)
    (fv_source_list (fullnode_view E s) u))"
  using db_column_get_reliable [OF fullnode_laws(1) [OF assms(1)] assms(2) table_laws(6) [OF fullnode_laws(2) [OF assms(1)]]
      fullnode_columns_ready(6) [OF assms(1)] assms(3)]
  by (simp add: get_source_head_def fullnode_view_def)

section \<open>Stream reads\<close>

lemma attach_positions_all:
  assumes "\<forall>(cid, p) \<in> set xs. \<exists>cd. m cid = Some cd \<and> cert_id (cd_certificate cd) = cid"
  shows "attach_positions xs (map m (map fst xs)) = map (\<lambda>(cid, p). (the (m cid), p)) xs"
  using assms by (induction xs) (auto simp: attach_positions_def List.map_filter_simps)

lemma stream_certificates_found:
  assumes "consistent_certificates v" and "\<forall>x \<in> set items. fv_certificates v (snd x) \<noteq> None"
  shows "attach_positions (map (\<lambda>(k, cid). (cid, k)) items) (map (fv_certificates v) (map snd items)) =
    map (\<lambda>(k, cid). (the (fv_certificates v cid), k)) items"
proof -
  let ?xs = "map (\<lambda>(k, cid). (cid, k)) items"
  have "\<forall>(cid, p) \<in> set ?xs. \<exists>cd. fv_certificates v cid = Some cd \<and> cert_id (cd_certificate cd) = cid"
    using assms consistent_certificatesD(1) [OF assms(1)] by fastforce
  from attach_positions_all [OF this] show ?thesis
    by (simp add: comp_def case_prod_unfold)
qed

lemma target_stream_read_skip:
  assumes "fullnode_ready E s" and "rocksdb_reliable (env_rocks E)" and "store_consistent (fullnode_view E s)"
    and "wf_subnet_id t" and "wf_subnet_id u"
  defines "v \<equiv> fullnode_view E s"
  shows "get_target_stream_certificates_from_position E (target_position t u p) limit s =
    Inr (map (\<lambda>q. (the (fv_certificates v (the (fv_target_streams v (target_position t u q)))), target_position t u q))
      (take limit (drop (unat p) (sorted_list_of_set (target_positions v t u)))))"
proof -
  let ?P = "sorted_list_of_set (target_positions v t u)"
  let ?items = "map (\<lambda>q. (target_position t u q, the (fv_target_streams v (target_position t u q))))
    (take limit (drop (unat p) ?P))"
  have cons: "consistent_certificates v" using assms(3) by (simp add: v_def store_consistent_def)
  have sub: "set (take limit (drop (unat p) ?P)) \<subseteq> target_positions v t u"
    using set_take_subset set_drop_subset by fastforce
  have found: "\<forall>x \<in> set ?items. fv_certificates v (snd x) \<noteq> None"
    using sub consistent_certificatesD(5) [OF cons] by (fastforce simp: target_positions_def)
  then have "\<forall>cid \<in> set (map snd ?items). wf_certificate_id cid"
    using consistent_certificatesD(2) [OF cons] by fastforce
  note multi = get_certificates_reliable [OF assms(1,2) this, folded v_def]
  show ?thesis
    using multi stream_certificates_found [OF cons found]
    by (simp add: get_target_stream_certificates_from_position_def Let_def
        prefix_iter_target_stream [OF assms(1,4,5), folded v_def] target_stream_def position_to_usize_def
        drop_map take_map comp_def case_prod_unfold)
qed

lemma source_stream_read_skip:
  assumes "fullnode_ready E s" and "rocksdb_reliable (env_rocks E)" and "store_consistent (fullnode_view E s)"
    and "wf_subnet_id u"
  defines "v \<equiv> fullnode_view E s"
  shows "get_source_stream_certificates_from_position E (source_position u p) limit s =
    Inr (map (\<lambda>q. (the (fv_certificates v (the (fv_streams v (source_position u q)))), source_position u q))
      (take limit (drop (unat p) (sorted_list_of_set (source_positions v u)))))"
proof -
  let ?P = "sorted_list_of_set (source_positions v u)"
  let ?items = "map (\<lambda>q. (source_position u q, the (fv_streams v (source_position u q))))
    (take limit (drop (unat p) ?P))"
  have cons: "consistent_certificates v" using assms(3) by (simp add: v_def store_consistent_def)
  have sub: "set (take limit (drop (unat p) ?P)) \<subseteq> source_positions v u"
    using set_take_subset set_drop_subset by fastforce
  have found: "\<forall>x \<in> set ?items. fv_certificates v (snd x) \<noteq> None"
    using sub consistent_certificatesD(4) [OF cons] by (fastforce simp: source_positions_def)
  then have "\<forall>cid \<in> set (map snd ?items). wf_certificate_id cid"
    using consistent_certificatesD(2) [OF cons] by fastforce
  note multi = get_certificates_reliable [OF assms(1,2) this, folded v_def]
  show ?thesis
    using multi stream_certificates_found [OF cons found]
    by (simp add: get_source_stream_certificates_from_position_def Let_def
        prefix_iter_source_stream [OF assms(1,4), folded v_def] source_stream_def position_to_usize_def
        drop_map take_map comp_def case_prod_unfold)
qed

text \<open>
  C22: Reading a target stream from a position returns, in order, the certificates of the
  stream at that position and after it, up to the limit, each with its position.
\<close>

theorem target_stream_read:
  assumes "fullnode_ready E s" and "rocksdb_reliable (env_rocks E)" and "store_consistent (fullnode_view E s)"
    and "wf_subnet_id t" and "wf_subnet_id u"
  defines "v \<equiv> fullnode_view E s"
  shows "get_target_stream_certificates_from_position E (target_position t u p) limit s =
    Inr (map (\<lambda>q. (the (fv_certificates v (the (fv_target_streams v (target_position t u q)))), target_position t u q))
      (take limit (filter (\<lambda>q. p \<le> q) (sorted_list_of_set (target_positions v t u)))))"
proof -
  have "down_closed (target_positions v t u)"
    using assms(3) by (simp add: v_def store_consistent_def consistent_targets_def)
  then show ?thesis
    using target_stream_read_skip [OF assms(1-5), folded v_def, of p limit] by (simp add: drop_down_closed)
qed

text \<open>
  C29: Reading a source stream that has no gaps from a position returns, in order, the
  certificates of the stream at that position and after it, up to the limit, each with its
  position.
\<close>

theorem source_stream_read:
  assumes "fullnode_ready E s" and "rocksdb_reliable (env_rocks E)" and "store_consistent (fullnode_view E s)"
    and "wf_subnet_id u" and "down_closed (source_positions (fullnode_view E s) u)"
  defines "v \<equiv> fullnode_view E s"
  shows "get_source_stream_certificates_from_position E (source_position u p) limit s =
    Inr (map (\<lambda>q. (the (fv_certificates v (the (fv_streams v (source_position u q)))), source_position u q))
      (take limit (filter (\<lambda>q. p \<le> q) (sorted_list_of_set (source_positions v u)))))"
  using source_stream_read_skip [OF assms(1-4), folded v_def, of p limit]
    drop_down_closed [OF assms(5), folded v_def, of p] by simp

text \<open>
  The position of a source stream read is used as a number of entries to skip: when a
  stream holds only one certificate, at a position above zero, reading from that position
  returns nothing.
\<close>

lemma source_stream_gap_unread:
  assumes "fullnode_ready E s" and "rocksdb_reliable (env_rocks E)" and "store_consistent (fullnode_view E s)"
    and "wf_subnet_id u" and "source_positions (fullnode_view E s) u = {p}" and "0 < p"
  shows "get_source_stream_certificates_from_position E (source_position u p) limit s = Inr []"
proof -
  have "0 < unat p" using assms(6) by (simp add: word_less_nat_alt)
  then show ?thesis
    using source_stream_read_skip [OF assms(1-4), of p limit] by (simp add: assms(5))
qed

section \<open>Heads and indexes\<close>

text \<open>
  The checkpoint is the map of the source heads, and the last delivered position of a
  subnet is the greatest position of its stream.
\<close>

lemma checkpoint_and_last_position:
  assumes "fullnode_ready E s" and "wf_subnet_id u"
  defines "v \<equiv> fullnode_view E s"
  shows "get_checkpoint E s = Inr (\<lambda>u. map_option
      (\<lambda>(cid, pos). \<lparr>sh_certificate_id = cid, sh_subnet_id = u, sh_position = pos\<rparr>) (fv_source_list v u)) \<and>
    last_delivered_position_for_subnet E u s =
      Inr (if source_positions v u = {} then None else Some (source_position u (Max (source_positions v u))))"
proof
  let ?R = "env_rocks E" and ?c = "source_list_col (env_bincode E)"
  let ?f = "\<lambda>u (cid, pos). \<lparr>sh_certificate_id = cid, sh_subnet_id = u, sh_position = pos\<rparr>"
  let ?items = "column_items ?R ?c (fs_index s)"
  note laws = fullnode_laws [OF assms(1)] and ready = fullnode_columns_ready(6) [OF assms(1)]
  note spec = column_items_spec [OF laws(1) table_laws(6) [OF laws(2)] ready]
  have map: "map_of (map (\<lambda>(u, x). (u, ?f u x)) xs) = (\<lambda>u. map_option (?f u) (map_of xs u))" for xs
    by (induction xs) (auto simp: fun_eq_iff)
  have "distinct (map fst (map (\<lambda>(u, x). (u, ?f u x)) ?items))"
    using spec(3) by (simp add: comp_def case_prod_unfold)
  then have "map_of (rev (map (\<lambda>(u, x). (u, ?f u x)) ?items)) = map_of (map (\<lambda>(u, x). (u, ?f u x)) ?items)"
    by (simp add: map_of_rev_distinct)
  then have "map_of (rev (map (\<lambda>(u, x). (u, ?f u x)) ?items)) = (\<lambda>u. map_option (?f u) (fv_source_list v u))"
    by (simp only: map spec(1) v_def fullnode_view_def fullnode_view.simps)
  then show "get_checkpoint E s = Inr (\<lambda>u. map_option (?f u) (fv_source_list v u))"
    by (simp add: get_checkpoint_def db_column_iter_eq [OF ready] case_prod_unfold)
  show "last_delivered_position_for_subnet E u s =
      Inr (if source_positions v u = {} then None else Some (source_position u (Max (source_positions v u))))"
    by (simp add: last_delivered_position_for_subnet_def prefix_iter_source_stream [OF assms(1,2)]
        source_stream_def last_entry_def last_map last_sorted_list_of_set v_def)
qed

text \<open>
  The list of source subnets of a target is read with a prefix iterator on a family that
  has no prefix extractor: it holds the sources of every target from the requested one on in
  the order of the ids, not of the requested one only.
\<close>

lemma target_source_subnets_exact:
  assumes "fullnode_ready E s" and "wf_subnet_id t"
  shows "\<exists>sources. get_target_source_subnet_list E t s = Inr sources \<and> (\<forall>u \<in> set sources. wf_subnet_id u) \<and>
    set sources = {u. \<exists>t'. t \<le> t' \<and> fv_source_list_per_target (fullnode_view E s) (t', u) \<noteq> None}"
proof -
  let ?R = "env_rocks E" and ?c = "source_list_per_target_col (env_bincode E)"
  note laws = fullnode_laws [OF assms(1)] and ready = fullnode_columns_ready(7) [OF assms(1)]
  note cl = table_laws(7) [OF laws(2)]
  note spec = column_items_spec [OF laws(1) cl ready]
  let ?items = "prefix_items ?R ?c enc_subnet_pair None (sid_array t) (fs_index s)"
  have iter: "prefix_iter ?R ?c (bk_subnet_id (env_bincode E)) t (fs_index s) = Inr ?items"
    using fullnode_handles(7) [OF assms(1)] assms(2)
    by (intro prefix_iter_eq [OF laws(1) cl ready _ prefix_codec_laws(1) [OF laws(2)]]) simp_all
  have key: "sid_array t \<le> enc_subnet_pair (t', u) \<longleftrightarrow> t \<le> t'" if "wf_subnet_pair (t', u)" for t' u
  proof -
    have "length (sid_array t) = length (sid_array t')"
      using that assms(2) by (simp add: wf_subnet_pair_def wf_subnet_length)
    from append_le_iff [OF this, of "[]" "sid_array u"] show ?thesis
      using le_less [of "sid_array t" "sid_array t'"]
      by (simp add: enc_subnet_pair_def subnet_id_le_iff)
  qed
  have mem: "((t', u), b) \<in> set (column_items ?R ?c (fs_index s)) \<longleftrightarrow>
      fv_source_list_per_target (fullnode_view E s) (t', u) = Some b" for t' u b
    using spec(1,3) by (simp add: fullnode_view_def fun_eq_iff flip: spec(1))
  have "set (map (\<lambda>((_, u), _). u) ?items) =
      {u. \<exists>t'. t \<le> t' \<and> fv_source_list_per_target (fullnode_view E s) (t', u) \<noteq> None}" (is "?L = ?S")
  proof (rule set_eqI)
    fix u
    have "u \<in> ?L \<longleftrightarrow> (\<exists>t' b. ((t', u), b) \<in> set (column_items ?R ?c (fs_index s)) \<and> sid_array t \<le> enc_subnet_pair (t', u))"
      by (force simp: prefix_items_def same_prefix_def image_iff)
    also have "\<dots> \<longleftrightarrow> (\<exists>t' b. ((t', u), b) \<in> set (column_items ?R ?c (fs_index s)) \<and> t \<le> t')"
      using spec(4) key by fastforce
    also have "\<dots> \<longleftrightarrow> u \<in> ?S" by (auto simp: mem)
    finally show "u \<in> ?L \<longleftrightarrow> u \<in> ?S" .
  qed
  moreover have "wf_subnet_id u" if "u \<in> ?L" for u
    using that spec(4) by (fastforce simp: prefix_items_def wf_subnet_pair_def)
  ultimately show ?thesis by (simp add: get_target_source_subnet_list_def iter)
qed

text \<open>
  The head of a source subnet is the certificate inserted last, also when it is below the
  head it replaces: the comparison with the stored position has no effect.
\<close>

lemma source_head_can_regress:
  assumes "fullnode_ready E s" and "rocksdb_reliable (env_rocks E)" and "wf_delivered cd"
    and "insert_certificate_delivered E cd s = (s', Inr positions)"
    and "fv_source_list (fullnode_view E s) (source_subnet_id (cd_certificate cd)) = Some (old, pos)"
    and "src_position (delivery_position (cd_proof_of_delivery cd)) < pos"
  shows "\<exists>head. get_source_head E (source_subnet_id (cd_certificate cd)) s' = Inr (Some head) \<and>
    sh_certificate_id head = cert_id (cd_certificate cd) \<and> sh_position head < pos"
proof -
  let ?u = "source_subnet_id (cd_certificate cd)"
  have "fullnode_ready E s' \<and> fullnode_view E s' = deliver_view cd (fullnode_view E s)"
    using assms(1,3,4) by (cases rule: insert_delivered_cases) auto
  then have "get_source_head E ?u s' = Inr (Some \<lparr>sh_certificate_id = cert_id (cd_certificate cd),
      sh_subnet_id = ?u, sh_position = src_position (delivery_position (cd_proof_of_delivery cd))\<rparr>)"
    using get_source_head_reliable [OF _ assms(2) wf_deliveredD(2) [OF assms(3)], of s']
    by (simp add: deliver_view_def Let_def)
  with assms(6) show ?thesis by simp
qed

section \<open>The full node store as a certificate store\<close>

definition fullnode_invar :: "('db, 'b) store_env \<Rightarrow> 'db fullnode_store \<Rightarrow> bool" where
  "fullnode_invar E s \<longleftrightarrow> fullnode_ready E s \<and> store_consistent (fullnode_view E s)"

definition acceptable :: "certificate_delivered \<Rightarrow> bool" where
  "acceptable cd \<longleftrightarrow> wf_delivered cd \<and> own_stream cd"

interpretation fullnode: certificate_store
  "fullnode_invar E" "\<lambda>s. fv_certificates (fullnode_view E s)" acceptable
  "insert_certificate_delivered E" "get_certificate E" "get_certificates E" for E
proof
  fix s s' cd p e cid r cids rs
  { assume "fullnode_invar E s" "acceptable cd"
    then show "fullnode_invar E (fst (insert_certificate_delivered E cd s))"
      using insert_delivered_consistent [of E s cd]
      by (cases "insert_certificate_delivered E cd s") (auto simp: fullnode_invar_def acceptable_def) }
  { assume "fullnode_invar E s" "acceptable cd" and out: "insert_certificate_delivered E cd s = (s', Inr p)"
    then have "fullnode_ready E s" "wf_delivered cd" by (simp_all add: fullnode_invar_def acceptable_def)
    then show "fv_certificates (fullnode_view E s') = (fv_certificates (fullnode_view E s))(delivered_id cd \<mapsto> cd) \<and>
        cp_source p = delivery_position (cd_proof_of_delivery cd)"
      using out by (cases rule: insert_delivered_cases)
        (auto simp: deliver_view_def delivered_positions_def Let_def) }
  { assume "fullnode_invar E s" "acceptable cd" and out: "insert_certificate_delivered E cd s = (s', Inl e)"
    then have "fullnode_ready E s" "wf_delivered cd" by (simp_all add: fullnode_invar_def acceptable_def)
    then show "fv_certificates (fullnode_view E s') = fv_certificates (fullnode_view E s) \<or>
        fv_certificates (fullnode_view E s') = (fv_certificates (fullnode_view E s))(delivered_id cd \<mapsto> cd)"
      using out by (cases rule: insert_delivered_cases) (auto simp: half_delivered_view_def) }
  { assume "fullnode_invar E s" "wf_certificate_id cid" "get_certificate E cid s = Inr r"
    then show "r = fv_certificates (fullnode_view E s) cid"
      using get_certificate_ok by (auto simp: fullnode_invar_def) }
  { assume "fullnode_invar E s" "\<forall>cid \<in> set cids. wf_certificate_id cid" "get_certificates E cids s = Inr rs"
    then show "rs = map (fv_certificates (fullnode_view E s)) cids"
      using get_certificates_ok by (auto simp: fullnode_invar_def) }
  { assume "acceptable cd"
    then show "wf_certificate_id (delivered_id cd)" by (simp add: acceptable_def wf_deliveredD(1)) }
qed

lemma insert_certificates_delivered_eq:
  "insert_certificates_delivered E cds s = insert_each (insert_certificate_delivered E) cds s"
  by (induction cds arbitrary: s) (auto split: prod.split sum.split)

text \<open>
  C21: Delivered certificates are read back: when the insertion of a list of certificates with
  distinct ids succeeds, reading the id of one of them returns it, and reading any other id
  returns what was stored before.
\<close>

theorem delivered_certificates_read_back:
  assumes "fullnode_ready E s" and "store_consistent (fullnode_view E s)" and "rocksdb_reliable (env_rocks E)"
    and "\<forall>cd \<in> set cds. wf_delivered cd \<and> own_stream cd" and "distinct (map delivered_id cds)"
    and "insert_certificates_delivered E cds s = (s', Inr ())" and "wf_certificate_id cid"
  shows "get_certificate E cid s' = Inr (case find (\<lambda>cd. delivered_id cd = cid) cds of
      Some cd \<Rightarrow> Some cd | None \<Rightarrow> fv_certificates (fullnode_view E s) cid)"
proof -
  have inv: "fullnode_invar E s" and acc: "\<forall>cd \<in> set cds. acceptable cd"
    using assms by (simp_all add: fullnode_invar_def acceptable_def)
  have out: "insert_each (insert_certificate_delivered E) cds s = (s', Inr ())"
    using assms(6) by (simp add: insert_certificates_delivered_eq)
  have "fullnode_ready E s'"
    using fullnode.insert_each_invar [OF inv acc] out by (simp add: fullnode_invar_def)
  from get_certificate_reliable [OF this assms(3,7)]
  obtain r where r: "get_certificate E cid s' = Inr r" by simp
  show ?thesis
  proof (cases "find (\<lambda>cd. delivered_id cd = cid) cds")
    case None
    then have "cid \<notin> delivered_id ` set cds" by (auto simp: find_None_iff)
    from fullnode.read_other [OF inv acc out assms(7) this r] None r show ?thesis by simp
  next
    case (Some cd)
    then have "cd \<in> set cds" "delivered_id cd = cid" by (auto simp: find_Some_iff)
    with fullnode.read_inserted [OF inv acc assms(5) out, of cd r] Some r show ?thesis by simp
  qed
qed

section \<open>Concrete reads\<close>

definition one_fullnode :: "position \<Rightarrow> mem_value mem_db fullnode_store" where
  "one_fullnode p = fst (insert_certificate_delivered mem_env (example_delivered 1 p) empty_fullnode)"

abbreviation example_source :: subnet_id where
  "example_source \<equiv> SubnetId (replicate 32 1)"

abbreviation example_target :: subnet_id where
  "example_target \<equiv> SubnetId (replicate 32 9)"

lemma example_subnets:
  "source_subnet_id (example_certificate n) = SubnetId (replicate 32 (of_nat n))"
  "target_subnets (example_certificate n) = [example_target]"
  "wf_subnet_id example_source" "wf_subnet_id example_target"
  by (simp_all add: example_certificate_def new_with_default_fields_def Let_def wf_subnet_id_def SUBNET_ID_LENGTH_def)

lemma empty_available: "targets_available empty_view cd"
  by (simp add: targets_available_def next_position_def target_positions_def empty_view_def)

lemma one_fullnode_insert:
  obtains positions where
    "insert_certificate_delivered mem_env (example_delivered 1 p) empty_fullnode = (one_fullnode p, Inr positions)"
    "fullnode_ready mem_env (one_fullnode p)"
    "fullnode_view mem_env (one_fullnode p) = deliver_view (example_delivered 1 p) empty_view"
proof -
  obtain s' r where out: "insert_certificate_delivered mem_env (example_delivered 1 p) empty_fullnode = (s', r)"
    by force
  from empty_fullnode_ready example_delivered_wf(1) out show thesis
  proof (cases rule: insert_delivered_cases)
    case ok
    then show thesis using out that by (simp add: one_fullnode_def empty_fullnode_view)
  next
    case taken
    then show thesis by (simp add: empty_fullnode_view empty_view_def)
  next
    case (full e)
    then show thesis by (simp add: empty_fullnode_view empty_available)
  qed (use mem_env_reliable in simp_all)
qed

lemma one_fullnode_ready:
  "fullnode_ready mem_env (one_fullnode p)" "store_consistent (fullnode_view mem_env (one_fullnode p))"
  "fullnode_view mem_env (one_fullnode p) = deliver_view (example_delivered 1 p) empty_view"
proof -
  obtain ps where ps: "fullnode_ready mem_env (one_fullnode p)"
    "fullnode_view mem_env (one_fullnode p) = deliver_view (example_delivered 1 p) empty_view"
    by (rule one_fullnode_insert [of p])
  then show "fullnode_ready mem_env (one_fullnode p)"
    "fullnode_view mem_env (one_fullnode p) = deliver_view (example_delivered 1 p) empty_view" by simp_all
  show "store_consistent (fullnode_view mem_env (one_fullnode p))"
    unfolding ps(2) by (intro deliver_view_consistent empty_view_consistent)
      (simp_all add: empty_available, simp add: empty_view_def)
qed

lemma one_fullnode_positions:
  "target_positions (fullnode_view mem_env (one_fullnode p)) example_target example_source = {0}"
  "source_positions (fullnode_view mem_env (one_fullnode p)) example_source = {p}"
proof -
  show "target_positions (fullnode_view mem_env (one_fullnode p)) example_target example_source = {0}"
    by (simp add: one_fullnode_ready(3) target_positions_deliver example_delivered_def example_subnets
        next_position_def position_ZERO_def) (simp add: target_positions_def empty_view_def)
  show "source_positions (fullnode_view mem_env (one_fullnode p)) example_source = {p}"
    by (auto simp: one_fullnode_ready(3) source_positions_def deliver_view_def example_delivered_def Let_def
        example_subnets empty_view_def)
qed

theorem target_stream_read_witness:
  "\<exists>cd. get_target_stream_certificates_from_position mem_env (target_position example_target example_source 0) 10
     (one_fullnode 7) = Inr [(cd, target_position example_target example_source 0)]"
  using target_stream_read [OF one_fullnode_ready(1) [of 7] mem_env_reliable one_fullnode_ready(2) example_subnets(4,3),
      where p = 0 and limit = 10]
  by (simp add: one_fullnode_positions)

theorem source_stream_read_witness:
  "\<exists>cd. get_source_stream_certificates_from_position mem_env (source_position example_source 0) 10
     (one_fullnode 0) = Inr [(cd, source_position example_source 0)]"
  using source_stream_read [OF one_fullnode_ready(1) [of 0] mem_env_reliable one_fullnode_ready(2) example_subnets(3),
      where p = 0 and limit = 10]
  by (simp add: one_fullnode_positions down_closed_def)

lemma source_stream_gap_unread_witness:
  "get_source_stream_certificates_from_position mem_env (source_position example_source 7) 10 (one_fullnode 7) = Inr []"
  by (rule source_stream_gap_unread [OF one_fullnode_ready(1) mem_env_reliable one_fullnode_ready(2) example_subnets(3)
        one_fullnode_positions(2)]) simp

lemma checkpoint_and_last_position_witness:
  "last_delivered_position_for_subnet mem_env example_source (one_fullnode 7) =
     Inr (Some (source_position example_source 7))"
  using checkpoint_and_last_position [OF one_fullnode_ready(1) [of 7] example_subnets(3)]
  by (simp add: one_fullnode_positions)

lemma source_head_can_regress_witness:
  "\<exists>s' head. get_source_head mem_env example_source s' = Inr (Some head) \<and> sh_position head < 7"
proof -
  let ?cd = "example_delivered 1 3" and ?s = "one_fullnode 7"
  have v: "fullnode_view mem_env ?s = deliver_view (example_delivered 1 7) empty_view" by (rule one_fullnode_ready(3))
  have src: "source_subnet_id (cd_certificate ?cd) = example_source"
    by (simp add: example_delivered_def example_subnets)
  have av: "targets_available (fullnode_view mem_env ?s) ?cd"
    using one_fullnode_positions(1) [of 7]
    by (simp add: targets_available_def example_delivered_def example_subnets next_position_def increment_def
        position_ZERO_def)
  have free: "fv_streams (fullnode_view mem_env ?s) (delivery_position (cd_proof_of_delivery ?cd)) = None"
    by (simp add: v deliver_view_def example_delivered_def Let_def empty_view_def)
  obtain s' ps where out: "insert_certificate_delivered mem_env ?cd ?s = (s', Inr ps)"
  proof -
    obtain s' r where "insert_certificate_delivered mem_env ?cd ?s = (s', r)" by force
    from one_fullnode_ready(1) example_delivered_wf(1) this show thesis
      by (cases rule: insert_delivered_cases) (use free av mem_env_reliable that \<open>_ = (s', r)\<close> in auto)
  qed
  obtain old where "fv_source_list (fullnode_view mem_env ?s) (source_subnet_id (cd_certificate ?cd)) = Some (old, 7)"
    by (simp add: v deliver_view_def example_delivered_def Let_def example_subnets)
  from source_head_can_regress [OF one_fullnode_ready(1) mem_env_reliable example_delivered_wf(1) out this]
  show ?thesis by (auto simp: example_delivered_def example_subnets)
qed

theorem delivered_certificates_read_back_witness:
  "get_certificate mem_env (delivered_id (example_delivered 1 7)) (one_fullnode 7) = Inr (Some (example_delivered 1 7))"
proof -
  obtain ps where "insert_certificate_delivered mem_env (example_delivered 1 7) empty_fullnode = (one_fullnode 7, Inr ps)"
    by (rule one_fullnode_insert)
  then have "insert_certificates_delivered mem_env [example_delivered 1 7] empty_fullnode = (one_fullnode 7, Inr ())"
    by simp
  from delivered_certificates_read_back [OF empty_fullnode_ready _ mem_env_reliable _ _ this
      wf_deliveredD(1) [OF example_delivered_wf(1)]]
  show ?thesis by (simp add: empty_fullnode_view empty_view_consistent)
qed

end
