(* ===== verification/Validator_Store.thy ===== *)
theory Validator_Store
  imports Full_Node_Reads
begin

text \<open>
  The store of a validator, \<^verbatim>\<open>topos-tce-storage/src/validator/mod.rs\<close>: the pools of pending
  certificates on top of the full node store. A certificate waits in the precedence pool,
  under the id of its predecessor, until that one is delivered, and in the pending pool from then on.
  \<open>next_pending_id\<close> is the atomic counter of pending ids, which wraps.
\<close>

section \<open>The store\<close>

record 'db validator_store =
  vs_fullnode :: "'db fullnode_store"
  vs_pending :: 'db
  next_pending_id :: u64

definition validator_store_open ::
  "('db, 'b) store_env \<Rightarrow> string list \<Rightarrow> 'db fullnode_store \<Rightarrow> storage_error failure + 'db validator_store" where
  "validator_store_open E path fullnode =
     and_then (pending_tables_open (env_rocks E) path) (\<lambda>(next, db).
     Inr \<lparr>vs_fullnode = fullnode, vs_pending = db, next_pending_id = next\<rparr>)"

section \<open>Reading\<close>

definition count_pending_certificates ::
  "('db, 'b) store_env \<Rightarrow> 'db validator_store \<Rightarrow> storage_error + nat" where
  "count_pending_certificates E s =
     and_then (map_err InternalStorage
       (db_column_iter (env_rocks E) (pending_pool_col (env_bincode E)) (vs_pending s))) (\<lambda>items.
     Inr (length items))"

definition get_pending_id ::
  "('db, 'b) store_env \<Rightarrow> certificate_id \<Rightarrow> 'db validator_store \<Rightarrow> storage_error + pending_certificate_id option" where
  "get_pending_id E cid s = map_err InternalStorage
     (db_column_get (env_rocks E) (pending_pool_index_col (env_bincode E)) cid (vs_pending s))"

definition get_pending_certificate ::
  "('db, 'b) store_env \<Rightarrow> pending_certificate_id \<Rightarrow> 'db validator_store \<Rightarrow> storage_error + certificate option" where
  "get_pending_certificate E pid s = map_err InternalStorage
     (db_column_get (env_rocks E) (pending_pool_col (env_bincode E)) pid (vs_pending s))"

definition get_pending_certificates ::
  "('db, 'b) store_env \<Rightarrow> 'db validator_store \<Rightarrow> storage_error + (pending_certificate_id \<times> certificate) list" where
  "get_pending_certificates E s = map_err InternalStorage
     (db_column_iter (env_rocks E) (pending_pool_col (env_bincode E)) (vs_pending s))"

text \<open>
  The loop that follows the precedence pool from a pending certificate to the last one that
  waits behind it, counting; \<open>None\<close> stands for a loop that does not end.
\<close>

partial_function (option) follow_precedence ::
  "('db, 'b) store_env \<Rightarrow> 'db \<Rightarrow> certificate \<Rightarrow> u64 \<Rightarrow> (storage_error + (u64 \<times> certificate)) option" where
  "follow_precedence E pending latest n =
     (case db_column_get (env_rocks E) (precedence_pool_col (env_bincode E)) (cert_id latest) pending of
        Inl e \<Rightarrow> Some (Inl (InternalStorage e))
      | Inr None \<Rightarrow> Some (Inr (n, latest))
      | Inr (Some c) \<Rightarrow> follow_precedence E pending c (n + 1))"

fun pending_for_subnets ::
  "('db, 'b) store_env \<Rightarrow> 'db \<Rightarrow> subnet_id list \<Rightarrow> (pending_certificate_id \<times> certificate) list \<Rightarrow>
   (subnet_id \<rightharpoonup> u64 \<times> certificate option) \<Rightarrow>
   (storage_error + (subnet_id \<rightharpoonup> u64 \<times> certificate option)) option" where
  "pending_for_subnets E pending subnets [] result = Some (Inr result)"
| "pending_for_subnets E pending subnets ((_, certificate) # rest) result =
     (if source_subnet_id certificate \<notin> set subnets
      then pending_for_subnets E pending subnets rest result
      else
        (let entry = (case result (source_subnet_id certificate) of Some e \<Rightarrow> e | None \<Rightarrow> (0, None)) in
         case follow_precedence E pending certificate (fst entry + 1) of
           None \<Rightarrow> None
         | Some (Inl e) \<Rightarrow> Some (Inl e)
         | Some (Inr (n, latest)) \<Rightarrow>
             pending_for_subnets E pending subnets rest (result(source_subnet_id certificate \<mapsto> (n, Some latest)))))"

definition get_pending_certificates_for_subnets ::
  "('db, 'b) store_env \<Rightarrow> subnet_id list \<Rightarrow> 'db validator_store \<Rightarrow>
   (storage_error + (subnet_id \<rightharpoonup> u64 \<times> certificate option)) option" where
  "get_pending_certificates_for_subnets E subnets s =
     (case db_column_iter (env_rocks E) (pending_pool_col (env_bincode E)) (vs_pending s) of
        Inl e \<Rightarrow> Some (Inl (InternalStorage e))
      | Inr items \<Rightarrow> pending_for_subnets E (vs_pending s) subnets items
          (\<lambda>u. if u \<in> set subnets then Some (0, None) else None))"

definition get_unverified_proof ::
  "('db, 'b) store_env \<Rightarrow> certificate_id \<Rightarrow> 'db validator_store \<Rightarrow> storage_error + proof_of_delivery option" where
  "get_unverified_proof E cid s = map_err InternalStorage
     (db_column_get (env_rocks E) (unverified_col (env_bincode E)) cid (fs_perpetual (vs_fullnode s)))"

section \<open>Pending certificates\<close>

definition insert_pending_certificates ::
  "('db, 'b) store_env \<Rightarrow> certificate list \<Rightarrow> 'db validator_store \<Rightarrow>
   'db validator_store \<times> (storage_error + pending_certificate_id list)" where
  "insert_pending_certificates E certificates s =
     (let R = env_rocks E; B = env_bincode E; pid = next_pending_id s;
          s = s\<lparr>next_pending_id := pid + of_nat (length certificates)\<rparr>;
          ids = map (\<lambda>idx. pid + of_nat idx) [0..<length certificates];
          values = zip ids certificates;
          index = zip (map cert_id certificates) ids in
      case and_then (insert_batch R (pending_pool_col B) values (vs_pending s) (db_batch_new (pending_pool_col B))) (\<lambda>batch.
           and_then (insert_batch R (pending_pool_index_col B) index (vs_pending s) batch) (\<lambda>batch.
           batch_write R batch (vs_pending s))) of
        Inl e \<Rightarrow> (s, Inl (InternalStorage e))
      | Inr db \<Rightarrow> (s\<lparr>vs_pending := db\<rparr>, Inr ids))"

definition insert_pending_certificate ::
  "('db, 'b) store_env \<Rightarrow> certificate \<Rightarrow> 'db validator_store \<Rightarrow>
   'db validator_store \<times> (storage_error + pending_certificate_id option)" where
  "insert_pending_certificate E certificate s =
     (let R = env_rocks E; B = env_bincode E in
      case get_certificate E (cert_id certificate) (vs_fullnode s) of
        Inl e \<Rightarrow> (s, Inl e)
      | Inr (Some _) \<Rightarrow> (s, Inl (InternalStorage CertificateAlreadyExists))
      | Inr None \<Rightarrow>
          (case (if prev_id certificate = INITIAL_CERTIFICATE_ID then Inr True
                 else and_then (get_certificate E (prev_id certificate) (vs_fullnode s)) (\<lambda>r. Inr (r \<noteq> None))) of
             Inl e \<Rightarrow> (s, Inl e)
           | Inr True \<Rightarrow>
               (let pid = next_pending_id s; s = s\<lparr>next_pending_id := pid + 1\<rparr> in
                case db_column_insert R (pending_pool_col B) pid certificate (vs_pending s) of
                  Inl e \<Rightarrow> (s, Inl (InternalStorage e))
                | Inr db \<Rightarrow>
                    (let s = s\<lparr>vs_pending := db\<rparr> in
                     case db_column_insert R (pending_pool_index_col B) (cert_id certificate) pid (vs_pending s) of
                       Inl e \<Rightarrow> (s, Inl (InternalStorage e))
                     | Inr db \<Rightarrow> (s\<lparr>vs_pending := db\<rparr>, Inr (Some pid))))
           | Inr False \<Rightarrow>
               (case db_column_insert R (precedence_pool_col B) (prev_id certificate) certificate (vs_pending s) of
                  Inl e \<Rightarrow> (s, Inl (InternalStorage e))
                | Inr db \<Rightarrow> (s\<lparr>vs_pending := db\<rparr>, Inr None))))"

definition delete_pending_certificate ::
  "('db, 'b) store_env \<Rightarrow> pending_certificate_id \<Rightarrow> 'db validator_store \<Rightarrow>
   'db validator_store \<times> (storage_error + certificate)" where
  "delete_pending_certificate E pid s =
     (let R = env_rocks E; B = env_bincode E in
      case db_column_get R (pending_pool_col B) pid (vs_pending s) of
        Inl e \<Rightarrow> (s, Inl (InternalStorage e))
      | Inr None \<Rightarrow> (s, Inl (InternalStorage (InvalidQueryArgument ''No certificate for pending_id'')))
      | Inr (Some certificate) \<Rightarrow>
          (case db_column_delete R (pending_pool_col B) pid (vs_pending s) of
             Inl e \<Rightarrow> (s, Inl (InternalStorage e))
           | Inr db \<Rightarrow>
               (let s = s\<lparr>vs_pending := db\<rparr> in
                case db_column_delete R (pending_pool_index_col B) (cert_id certificate) (vs_pending s) of
                  Inl e \<Rightarrow> (s, Inl (InternalStorage e))
                | Inr db \<Rightarrow> (s\<lparr>vs_pending := db\<rparr>, Inr certificate))))"

section \<open>Delivery\<close>

text \<open>
  The two steps after the insertion into the full node store: the certificate leaves the
  pending pool, errors being ignored, and the one that waited for it is inserted as pending.
\<close>

definition remove_from_pool ::
  "('db, 'b) store_env \<Rightarrow> certificate_id \<Rightarrow> 'db validator_store \<Rightarrow> 'db validator_store" where
  "remove_from_pool E cid s =
     (case db_column_get (env_rocks E) (pending_pool_index_col (env_bincode E)) cid (vs_pending s) of
        Inr (Some pending_id) \<Rightarrow>
          (case db_column_delete (env_rocks E) (pending_pool_col (env_bincode E)) pending_id (vs_pending s) of
             Inr db \<Rightarrow> s\<lparr>vs_pending := db\<rparr>
           | Inl _ \<Rightarrow> s)
      | _ \<Rightarrow> s)"

definition validator_insert_certificate_delivered ::
  "('db, 'b) store_env \<Rightarrow> certificate_delivered \<Rightarrow> 'db validator_store \<Rightarrow>
   'db validator_store \<times> (storage_error + certificate_positions)" where
  "validator_insert_certificate_delivered E cd s =
     (case insert_certificate_delivered E cd (vs_fullnode s) of
        (fullnode, Inl e) \<Rightarrow> (s\<lparr>vs_fullnode := fullnode\<rparr>, Inl e)
      | (fullnode, Inr position) \<Rightarrow>
          (let s = remove_from_pool E (cert_id (cd_certificate cd)) (s\<lparr>vs_fullnode := fullnode\<rparr>) in
           case db_column_get (env_rocks E) (precedence_pool_col (env_bincode E)) (cert_id (cd_certificate cd)) (vs_pending s) of
             Inr (Some certificate) \<Rightarrow>
               (case insert_pending_certificate E certificate s of
                  (s, Inl e) \<Rightarrow> (s, Inl e)
                | (s, Inr _) \<Rightarrow> (s, Inr position))
           | _ \<Rightarrow> (s, Inr position)))"

definition validator_insert_certificates_delivered ::
  "('db, 'b) store_env \<Rightarrow> certificate_delivered list \<Rightarrow> 'db validator_store \<Rightarrow>
   'db validator_store \<times> (storage_error + unit)" where
  "validator_insert_certificates_delivered E cds s =
     (let (fullnode, r) = insert_certificates_delivered E cds (vs_fullnode s) in (s\<lparr>vs_fullnode := fullnode\<rparr>, r))"

section \<open>Synchronisation\<close>

definition insert_unverified_proofs ::
  "('db, 'b) store_env \<Rightarrow> proof_of_delivery list \<Rightarrow> 'db validator_store \<Rightarrow>
   'db validator_store \<times> (storage_error + certificate_id list)" where
  "insert_unverified_proofs E proofs s =
     (case multi_insert (env_rocks E) (unverified_col (env_bincode E))
         (map (\<lambda>p. (pod_certificate_id p, p)) proofs) (fs_perpetual (vs_fullnode s)) of
        Inl e \<Rightarrow> (s, Inl (InternalStorage e))
      | Inr db \<Rightarrow> (s\<lparr>vs_fullnode := (vs_fullnode s)\<lparr>fs_perpetual := db\<rparr>\<rparr>, Inr (map pod_certificate_id proofs)))"

definition synchronize_certificate ::
  "('db, 'b) store_env \<Rightarrow> certificate \<Rightarrow> 'db validator_store \<Rightarrow> 'db validator_store \<times> (storage_error + unit)" where
  "synchronize_certificate E certificate s =
     (case get_unverified_proof E (cert_id certificate) s of
        Inr (Some proof_of_delivery) \<Rightarrow>
          (case validator_insert_certificate_delivered E
               \<lparr>cd_certificate = certificate, cd_proof_of_delivery = proof_of_delivery\<rparr> s of
             (s, Inl e) \<Rightarrow> (s, Inl e)
           | (s, Inr _) \<Rightarrow>
               (case db_column_delete (env_rocks E) (unverified_col (env_bincode E)) (cert_id certificate)
                   (fs_perpetual (vs_fullnode s)) of
                  Inl e \<Rightarrow> (s, Inl (InternalStorage e))
                | Inr db \<Rightarrow> (s\<lparr>vs_fullnode := (vs_fullnode s)\<lparr>fs_perpetual := db\<rparr>\<rparr>, Inr ())))
      | _ \<Rightarrow> (s, Inl (InternalStorage (InvalidQueryArgument ''Proof not found''))))"

text \<open>
  One round of the loop of \<open>get_checkpoint_diff\<close>. For a subnet the peer named, the iterator is
  positioned with the whole proof of delivery as the index.
\<close>

definition checkpoint_diff_subnet ::
  "('db, 'b) store_env \<Rightarrow> 'db validator_store \<Rightarrow> subnet_id \<Rightarrow> position \<Rightarrow>
   (subnet_id \<rightharpoonup> proof_of_delivery list) \<Rightarrow> storage_error + (subnet_id \<rightharpoonup> proof_of_delivery list)" where
  "checkpoint_diff_subnet E s subnet local_position from_positions =
     (let R = env_rocks E; B = env_bincode E; db = fs_perpetual (vs_fullnode s);
          entry = (case from_positions subnet of Some e \<Rightarrow> e | None \<Rightarrow> []);
          extend = (\<lambda>entry items.
            and_then (get_certificates E (map snd (take 100 items)) (vs_fullnode s)) (\<lambda>certs.
            Inr (from_positions(subnet \<mapsto> entry @ map cd_proof_of_delivery (List.map_filter (\<lambda>c. c) certs))))) in
      case rev entry of
        [] \<Rightarrow> and_then (map_err InternalStorage (prefix_iter R (streams_col B) (bk_subnet_id B) subnet db)) (extend entry)
      | position # rest \<Rightarrow>
          (if local_position \<le> src_position (delivery_position position)
           then Inr (from_positions(subnet \<mapsto> rev rest))
           else and_then (map_err InternalStorage
             (prefix_iter_at R (streams_col B) (bk_subnet_id B) (bk_proof B) subnet position db)) (extend (rev rest))))"

fun checkpoint_diff_loop ::
  "('db, 'b) store_env \<Rightarrow> 'db validator_store \<Rightarrow> (subnet_id \<times> position) list \<Rightarrow>
   (subnet_id \<rightharpoonup> proof_of_delivery list) \<Rightarrow> storage_error + (subnet_id \<rightharpoonup> proof_of_delivery list)" where
  "checkpoint_diff_loop E s [] from_positions = Inr from_positions"
| "checkpoint_diff_loop E s ((subnet, local_position) # rest) from_positions =
     and_then (checkpoint_diff_subnet E s subnet local_position from_positions) (checkpoint_diff_loop E s rest)"

text \<open>The heads are visited in the order \<open>iter\<close> of the hash map they were collected into.\<close>

definition get_checkpoint_diff ::
  "(subnet_id set \<Rightarrow> subnet_id list) \<Rightarrow> ('db, 'b) store_env \<Rightarrow> proof_of_delivery list \<Rightarrow> 'db validator_store \<Rightarrow>
   storage_error + (subnet_id \<rightharpoonup> proof_of_delivery list)" where
  "get_checkpoint_diff iter E from s =
     and_then (map_err InternalStorage
       (db_column_iter (env_rocks E) (source_list_col (env_bincode E)) (fs_index (vs_fullnode s)))) (\<lambda>items.
     (let from_positions = map_of (rev (map (\<lambda>p. (src_subnet_id (delivery_position p), [p])) from));
          subnets = map_of (rev (map (\<lambda>(u, (_, pos)). (u, pos)) items)) in
      checkpoint_diff_loop E s
        (map (\<lambda>u. (u, the (subnets u))) (iter (set (map fst items)))) from_positions))"

section \<open>The traits\<close>

definition validator_get_source_head ::
  "('db, 'b) store_env \<Rightarrow> subnet_id \<Rightarrow> 'db validator_store \<Rightarrow> storage_error + source_head option" where
  "validator_get_source_head E u s = get_source_head E u (vs_fullnode s)"

definition validator_get_certificate ::
  "('db, 'b) store_env \<Rightarrow> certificate_id \<Rightarrow> 'db validator_store \<Rightarrow> storage_error + certificate_delivered option" where
  "validator_get_certificate E cid s = get_certificate E cid (vs_fullnode s)"

definition validator_get_certificates ::
  "('db, 'b) store_env \<Rightarrow> certificate_id list \<Rightarrow> 'db validator_store \<Rightarrow>
   storage_error + certificate_delivered option list" where
  "validator_get_certificates E cids s = get_certificates E cids (vs_fullnode s)"

text \<open>Unlike the full node store, from the head and not from the stream.\<close>

definition validator_last_delivered_position_for_subnet ::
  "('db, 'b) store_env \<Rightarrow> subnet_id \<Rightarrow> 'db validator_store \<Rightarrow>
   storage_error + certificate_source_stream_position option" where
  "validator_last_delivered_position_for_subnet E u s =
     and_then (map_err InternalStorage (db_column_get (env_rocks E) (source_list_col (env_bincode E)) u
       (fs_index (vs_fullnode s)))) (\<lambda>r.
     Inr (map_option (\<lambda>(_, pos). \<lparr>src_subnet_id = u, src_position = pos\<rparr>) r))"

definition validator_get_checkpoint ::
  "('db, 'b) store_env \<Rightarrow> 'db validator_store \<Rightarrow> storage_error + (subnet_id \<rightharpoonup> source_head)" where
  "validator_get_checkpoint E s = get_checkpoint E (vs_fullnode s)"

definition validator_get_source_stream_certificates_from_position ::
  "('db, 'b) store_env \<Rightarrow> certificate_source_stream_position \<Rightarrow> nat \<Rightarrow> 'db validator_store \<Rightarrow>
   storage_error + (certificate_delivered \<times> certificate_source_stream_position) list" where
  "validator_get_source_stream_certificates_from_position E from limit s =
     get_source_stream_certificates_from_position E from limit (vs_fullnode s)"

definition validator_get_target_stream_certificates_from_position ::
  "('db, 'b) store_env \<Rightarrow> certificate_target_stream_position \<Rightarrow> nat \<Rightarrow> 'db validator_store \<Rightarrow>
   storage_error + (certificate_delivered \<times> certificate_target_stream_position) list" where
  "validator_get_target_stream_certificates_from_position E pos limit s =
     get_target_stream_certificates_from_position E pos limit (vs_fullnode s)"

definition validator_get_target_source_subnet_list ::
  "('db, 'b) store_env \<Rightarrow> subnet_id \<Rightarrow> 'db validator_store \<Rightarrow> storage_error + subnet_id list" where
  "validator_get_target_source_subnet_list E t s = get_target_source_subnet_list E t (vs_fullnode s)"

end
