(* ===== verification/Validator_Props.thy ===== *)
theory Validator_Props
  imports Validator_Store
begin

text \<open>
  What the operations of the validator store do, in terms of the maps its tables hold, and the
  validator store as an instance of the store contract.
\<close>

section \<open>The pools as maps\<close>

record pending_view =
  pv_pool :: "pending_certificate_id \<rightharpoonup> certificate"
  pv_index :: "certificate_id \<rightharpoonup> pending_certificate_id"
  pv_precedence :: "certificate_id \<rightharpoonup> certificate"

definition pending_view :: "('db, 'b) store_env \<Rightarrow> 'db \<Rightarrow> pending_view" where
  "pending_view E db =
     \<lparr>pv_pool = col_map (env_rocks E) (pending_pool_col (env_bincode E)) db,
      pv_index = col_map (env_rocks E) (pending_pool_index_col (env_bincode E)) db,
      pv_precedence = col_map (env_rocks E) (precedence_pool_col (env_bincode E)) db\<rparr>"

definition pending_ready :: "('db, 'b) store_env \<Rightarrow> 'db \<Rightarrow> bool" where
  "pending_ready E db \<longleftrightarrow> env_laws E \<and> families_opened E pending_cfs db \<and>
     column_inv (pending_pool_col (env_bincode E)) (cf_maps (env_rocks E) db) \<and>
     column_inv (pending_pool_index_col (env_bincode E)) (cf_maps (env_rocks E) db) \<and>
     column_inv (precedence_pool_col (env_bincode E)) (cf_maps (env_rocks E) db)"

definition validator_ready :: "('db, 'b) store_env \<Rightarrow> 'db validator_store \<Rightarrow> bool" where
  "validator_ready E s \<longleftrightarrow> fullnode_ready E (vs_fullnode s) \<and> pending_ready E (vs_pending s)"

lemma pending_laws:
  assumes "pending_ready E db"
  shows "rocksdb_laws (env_rocks E)" and "bincode_laws (env_bincode E)"
  using assms by (simp_all add: pending_ready_def env_laws_def)

lemma pending_columns_ready:
  assumes "pending_ready E db"
  shows "column_ready (env_rocks E) (pending_pool_col (env_bincode E)) db"
    and "column_ready (env_rocks E) (pending_pool_index_col (env_bincode E)) db"
    and "column_ready (env_rocks E) (precedence_pool_col (env_bincode E)) db"
  using assms by (simp_all add: column_ready_def pending_ready_def families_opened_def pending_cfs_def)

lemma pending_put_other:
  assumes "col_cf c' \<noteq> col_cf c"
  shows "column_view c (apply_batch_op (put_op c' kv) m) = column_view c m"
    and "column_inv c (apply_batch_op (put_op c' kv) m) = column_inv c m"
  using column_puts_other [OF assms, of "[kv]" m] by simp_all

lemma column_delete_other:
  assumes "cf \<noteq> col_cf c"
  shows "column_view c (apply_batch_op (BatchDelete cf k) m) = column_view c m"
    and "column_inv c (apply_batch_op (BatchDelete cf k) m) = column_inv c m"
  using column_other_family [of "[BatchDelete cf k]" c m] assms by simp_all

lemma pool_insert_ok:
  assumes "pending_ready E db"
    and "db_column_insert (env_rocks E) (pending_pool_col (env_bincode E)) i cert db = Inr db'"
  shows "pending_ready E db'"
    and "pending_view E db' = (pending_view E db)\<lparr>pv_pool := (pv_pool (pending_view E db))(i \<mapsto> cert)\<rparr>"
proof -
  note laws = pending_laws [OF assms(1)] and t = table_laws(8) [OF laws(2)]
  note w = db_column_insert_ok [OF laws(1) t pending_columns_ready(1) [OF assms(1)] assms(2)]
  show "pending_ready E db'"
    using assms(1) w(2,3) column_inv_put [OF t w(1)]
    by (simp add: pending_ready_def families_opened_def pending_put_other)
  show "pending_view E db' = (pending_view E db)\<lparr>pv_pool := (pv_pool (pending_view E db))(i \<mapsto> cert)\<rparr>"
    using w(2) column_view_put [OF t w(1)] by (simp add: pending_view_def pending_put_other)
qed

lemma index_insert_ok:
  assumes "pending_ready E db"
    and "db_column_insert (env_rocks E) (pending_pool_index_col (env_bincode E)) cid i db = Inr db'"
  shows "pending_ready E db'"
    and "pending_view E db' = (pending_view E db)\<lparr>pv_index := (pv_index (pending_view E db))(cid \<mapsto> i)\<rparr>"
proof -
  note laws = pending_laws [OF assms(1)] and t = table_laws(9) [OF laws(2)]
  note w = db_column_insert_ok [OF laws(1) t pending_columns_ready(2) [OF assms(1)] assms(2)]
  show "pending_ready E db'"
    using assms(1) w(2,3) column_inv_put [OF t w(1)]
    by (simp add: pending_ready_def families_opened_def pending_put_other)
  show "pending_view E db' = (pending_view E db)\<lparr>pv_index := (pv_index (pending_view E db))(cid \<mapsto> i)\<rparr>"
    using w(2) column_view_put [OF t w(1)] by (simp add: pending_view_def pending_put_other)
qed

lemma precedence_insert_ok:
  assumes "pending_ready E db"
    and "db_column_insert (env_rocks E) (precedence_pool_col (env_bincode E)) cid cert db = Inr db'"
  shows "pending_ready E db'"
    and "pending_view E db' = (pending_view E db)\<lparr>pv_precedence := (pv_precedence (pending_view E db))(cid \<mapsto> cert)\<rparr>"
proof -
  note laws = pending_laws [OF assms(1)] and t = table_laws(10) [OF laws(2)]
  note w = db_column_insert_ok [OF laws(1) t pending_columns_ready(3) [OF assms(1)] assms(2)]
  show "pending_ready E db'"
    using assms(1) w(2,3) column_inv_put [OF t w(1)]
    by (simp add: pending_ready_def families_opened_def pending_put_other)
  show "pending_view E db' = (pending_view E db)\<lparr>pv_precedence := (pv_precedence (pending_view E db))(cid \<mapsto> cert)\<rparr>"
    using w(2) column_view_put [OF t w(1)] by (simp add: pending_view_def pending_put_other)
qed

lemma pool_delete_ok:
  assumes "pending_ready E db"
    and "db_column_delete (env_rocks E) (pending_pool_col (env_bincode E)) i db = Inr db'"
  shows "pending_ready E db'"
    and "pending_view E db' = (pending_view E db)\<lparr>pv_pool := (pv_pool (pending_view E db))(i := None)\<rparr>"
proof -
  note laws = pending_laws [OF assms(1)] and t = table_laws(8) [OF laws(2)]
  note w = db_column_delete_ok [OF laws(1) t assms(2)]
  show "pending_ready E db'"
    using assms(1) w(2,3)
    by (simp add: pending_ready_def families_opened_def column_inv_delete column_delete_other
        del: apply_batch_op.simps)
  show "pending_view E db' = (pending_view E db)\<lparr>pv_pool := (pv_pool (pending_view E db))(i := None)\<rparr>"
    using w(2) column_view_delete [OF t w(1)]
    by (simp add: pending_view_def column_delete_other del: apply_batch_op.simps)
qed

lemma pending_gets:
  assumes "pending_ready E db"
  shows "db_column_get (env_rocks E) (pending_pool_col (env_bincode E)) i db = Inr r \<Longrightarrow> r = pv_pool (pending_view E db) i"
    and "wf_certificate_id cid \<Longrightarrow> db_column_get (env_rocks E) (pending_pool_index_col (env_bincode E)) cid db = Inr r' \<Longrightarrow>
      r' = pv_index (pending_view E db) cid"
    and "wf_certificate_id cid \<Longrightarrow> db_column_get (env_rocks E) (precedence_pool_col (env_bincode E)) cid db = Inr r'' \<Longrightarrow>
      r'' = pv_precedence (pending_view E db) cid"
  using db_column_get_ok [OF pending_laws(1) [OF assms] table_laws(8) [OF pending_laws(2) [OF assms]] pending_columns_ready(1) [OF assms]]
    db_column_get_ok [OF pending_laws(1) [OF assms] table_laws(9) [OF pending_laws(2) [OF assms]] pending_columns_ready(2) [OF assms]]
    db_column_get_ok [OF pending_laws(1) [OF assms] table_laws(10) [OF pending_laws(2) [OF assms]] pending_columns_ready(3) [OF assms]]
  by (simp_all add: pending_view_def)

lemma pending_gets_reliable:
  assumes "pending_ready E db" and "rocksdb_reliable (env_rocks E)"
  shows "db_column_get (env_rocks E) (pending_pool_col (env_bincode E)) i db = Inr (pv_pool (pending_view E db) i)"
    and "wf_certificate_id cid \<Longrightarrow> db_column_get (env_rocks E) (pending_pool_index_col (env_bincode E)) cid db =
      Inr (pv_index (pending_view E db) cid)"
    and "wf_certificate_id cid \<Longrightarrow> db_column_get (env_rocks E) (precedence_pool_col (env_bincode E)) cid db =
      Inr (pv_precedence (pending_view E db) cid)"
  using db_column_get_reliable [OF pending_laws(1) [OF assms(1)] assms(2) table_laws(8) [OF pending_laws(2) [OF assms(1)]] pending_columns_ready(1) [OF assms(1)]]
    db_column_get_reliable [OF pending_laws(1) [OF assms(1)] assms(2) table_laws(9) [OF pending_laws(2) [OF assms(1)]] pending_columns_ready(2) [OF assms(1)]]
    db_column_get_reliable [OF pending_laws(1) [OF assms(1)] assms(2) table_laws(10) [OF pending_laws(2) [OF assms(1)]] pending_columns_ready(3) [OF assms(1)]]
  by (simp_all add: pending_view_def)

lemma pending_writes_reliable:
  assumes "pending_ready E db" and "rocksdb_reliable (env_rocks E)"
  shows "\<exists>db'. db_column_insert (env_rocks E) (pending_pool_col (env_bincode E)) i cert db = Inr db'"
    and "wf_certificate_id cid \<Longrightarrow> \<exists>db'. db_column_insert (env_rocks E) (pending_pool_index_col (env_bincode E)) cid i db = Inr db'"
    and "wf_certificate_id cid \<Longrightarrow> \<exists>db'. db_column_insert (env_rocks E) (precedence_pool_col (env_bincode E)) cid cert db = Inr db'"
    and "\<exists>db'. db_column_delete (env_rocks E) (pending_pool_col (env_bincode E)) i db = Inr db'"
  using db_column_insert_reliable [OF assms(2) table_laws(8) [OF pending_laws(2) [OF assms(1)]] pending_columns_ready(1) [OF assms(1)]]
    db_column_insert_reliable [OF assms(2) table_laws(9) [OF pending_laws(2) [OF assms(1)]] pending_columns_ready(2) [OF assms(1)]]
    db_column_insert_reliable [OF assms(2) table_laws(10) [OF pending_laws(2) [OF assms(1)]] pending_columns_ready(3) [OF assms(1)]]
    db_column_delete_reliable [OF assms(2) table_laws(8) [OF pending_laws(2) [OF assms(1)]] pending_columns_ready(1) [OF assms(1)]]
  by simp_all

section \<open>Inserting a pending certificate\<close>

abbreviation delivered_of :: "('db, 'b) store_env \<Rightarrow> 'db validator_store \<Rightarrow> certificate_id \<rightharpoonup> certificate_delivered" where
  "delivered_of E s \<equiv> fv_certificates (fullnode_view E (vs_fullnode s))"

abbreviation pending_of :: "('db, 'b) store_env \<Rightarrow> 'db validator_store \<Rightarrow> pending_view" where
  "pending_of E s \<equiv> pending_view E (vs_pending s)"

text \<open>
  What the insertion promises, on the delivered certificates, the counter and the pools: a
  delivered certificate is refused; one whose predecessor is delivered, or that has none, takes
  the next pending id; any other waits under the id of its predecessor.
\<close>

definition pending_spec ::
  "(certificate_id \<rightharpoonup> certificate_delivered) \<Rightarrow> certificate \<Rightarrow> u64 \<times> pending_view \<Rightarrow>
   (u64 \<times> pending_view) \<times> (storage_error + pending_certificate_id option)" where
  "pending_spec certs c = (\<lambda>(n, P).
     if certs (cert_id c) \<noteq> None then ((n, P), Inl (InternalStorage CertificateAlreadyExists))
     else if prev_id c = INITIAL_CERTIFICATE_ID \<or> certs (prev_id c) \<noteq> None
     then ((n + 1, P\<lparr>pv_pool := (pv_pool P)(n \<mapsto> c), pv_index := (pv_index P)(cert_id c \<mapsto> n)\<rparr>), Inr (Some n))
     else ((n, P\<lparr>pv_precedence := (pv_precedence P)(prev_id c \<mapsto> c)\<rparr>), Inr None))"

lemma insert_pending_keeps:
  assumes "validator_ready E s" and "insert_pending_certificate E c s = (s', r)"
  shows "validator_ready E s' \<and> vs_fullnode s' = vs_fullnode s"
proof -
  note pool = pool_insert_ok(1) and index = index_insert_ok(1) and prec = precedence_insert_ok(1)
  show ?thesis
    using assms
    by (auto simp: insert_pending_certificate_def validator_ready_def Let_def
        split: sum.splits option.splits bool.splits if_splits) (meson pool index prec)+
qed

lemma insert_pending_reliable:
  assumes "validator_ready E s" and "rocksdb_reliable (env_rocks E)" and "wf_certificate c"
  obtains s' r where "insert_pending_certificate E c s = (s', r)"
    "((next_pending_id s', pending_of E s'), r) = pending_spec (delivered_of E s) c (next_pending_id s, pending_of E s)"
proof -
  let ?R = "env_rocks E" and ?B = "env_bincode E"
  have ready: "fullnode_ready E (vs_fullnode s)" "pending_ready E (vs_pending s)"
    using assms(1) by (simp_all add: validator_ready_def)
  have ids: "wf_certificate_id (cert_id c)" "wf_certificate_id (prev_id c)"
    using assms(3) by (simp_all add: wf_certificate_def)
  note reads = get_certificate_reliable [OF ready(1) assms(2) ids(1)] get_certificate_reliable [OF ready(1) assms(2) ids(2)]
  obtain db1 where db1: "db_column_insert ?R (pending_pool_col ?B) (next_pending_id s) c (vs_pending s) = Inr db1"
    using pending_writes_reliable(1) [OF ready(2) assms(2)] by blast
  note w1 = pool_insert_ok [OF ready(2) db1]
  obtain db2 where db2: "db_column_insert ?R (pending_pool_index_col ?B) (cert_id c) (next_pending_id s) db1 = Inr db2"
    using pending_writes_reliable(2) [OF w1(1) assms(2) ids(1)] by blast
  obtain db3 where db3: "db_column_insert ?R (precedence_pool_col ?B) (prev_id c) c (vs_pending s) = Inr db3"
    using pending_writes_reliable(3) [OF ready(2) assms(2) ids(2)] by blast
  show thesis
  proof (rule that [of "fst (insert_pending_certificate E c s)" "snd (insert_pending_certificate E c s)"])
    show "((next_pending_id (fst (insert_pending_certificate E c s)), pending_of E (fst (insert_pending_certificate E c s))),
        snd (insert_pending_certificate E c s)) = pending_spec (delivered_of E s) c (next_pending_id s, pending_of E s)"
      using db1 db2 db3 index_insert_ok(2) [OF w1(1) db2] precedence_insert_ok(2) [OF ready(2) db3] w1(2) reads
      by (auto simp: insert_pending_certificate_def pending_spec_def Let_def split: option.split)
  qed simp
qed

text \<open>
  C23: Inserting a pending certificate refines its specification on every branch: an already
  delivered certificate is refused, one whose predecessor is delivered enters the pending pool
  under the next id, and any other waits in the precedence pool. The delivered certificates
  do not change.
\<close>

theorem insert_pending_certificate_refines:
  assumes "validator_ready E s" and "rocksdb_reliable (env_rocks E)" and "wf_certificate c"
  shows "\<exists>s' r. insert_pending_certificate E c s = (s', r) \<and> validator_ready E s' \<and> vs_fullnode s' = vs_fullnode s \<and>
    ((next_pending_id s', pending_of E s'), r) = pending_spec (delivered_of E s) c (next_pending_id s, pending_of E s)"
  using insert_pending_reliable [OF assms] insert_pending_keeps [OF assms(1)] by metis

section \<open>Delivery\<close>

lemma remove_from_pool_keeps:
  assumes "validator_ready E s"
  shows "validator_ready E (remove_from_pool E cid s) \<and> vs_fullnode (remove_from_pool E cid s) = vs_fullnode s \<and>
    next_pending_id (remove_from_pool E cid s) = next_pending_id s"
  using assms by (auto simp: remove_from_pool_def validator_ready_def split: sum.split option.split dest: pool_delete_ok(1))

lemma remove_from_pool_reliable:
  assumes "validator_ready E s" and "rocksdb_reliable (env_rocks E)" and "wf_certificate_id cid"
  shows "pending_of E (remove_from_pool E cid s) = (case pv_index (pending_of E s) cid of
      Some i \<Rightarrow> (pending_of E s)\<lparr>pv_pool := (pv_pool (pending_of E s))(i := None)\<rparr>
    | None \<Rightarrow> pending_of E s)"
proof -
  have ready: "pending_ready E (vs_pending s)" using assms(1) by (simp add: validator_ready_def)
  show ?thesis
  proof (cases "pv_index (pending_of E s) cid")
    case None
    then show ?thesis by (simp add: remove_from_pool_def pending_gets_reliable(2) [OF ready assms(2,3)])
  next
    case (Some i)
    obtain db where "db_column_delete (env_rocks E) (pending_pool_col (env_bincode E)) i (vs_pending s) = Inr db"
      using pending_writes_reliable(4) [OF ready assms(2)] by blast
    with Some pool_delete_ok(2) [OF ready this] show ?thesis
      by (simp add: remove_from_pool_def pending_gets_reliable(2) [OF ready assms(2,3)])
  qed
qed

lemma validator_insert_keeps:
  assumes "validator_ready E s" and "wf_delivered cd"
    and "validator_insert_certificate_delivered E cd s = (s', r)"
    and "insert_certificate_delivered E cd (vs_fullnode s) = (f, q)"
  shows "validator_ready E s' \<and> vs_fullnode s' = f"
proof -
  have f: "fullnode_ready E f"
  proof -
    have "fullnode_ready E (vs_fullnode s)" using assms(1) by (simp add: validator_ready_def)
    from this assms(2,4) show ?thesis
      by (cases rule: insert_delivered_cases) (use assms(1) in \<open>auto simp: validator_ready_def\<close>)
  qed
  let ?t = "remove_from_pool E (delivered_id cd) (s\<lparr>vs_fullnode := f\<rparr>)"
  have "validator_ready E (s\<lparr>vs_fullnode := f\<rparr>)" using assms(1) f by (simp add: validator_ready_def)
  from remove_from_pool_keeps [OF this] have t: "validator_ready E ?t" "vs_fullnode ?t = f" by simp_all
  show ?thesis
  proof (cases q)
    case (Inl e)
    then show ?thesis using assms f
      by (auto simp: validator_insert_certificate_delivered_def validator_ready_def)
  next
    case (Inr p)
    note keeps = insert_pending_keeps [OF t(1)]
    show ?thesis
      using Inr assms(3,4) t
      by (auto simp: validator_insert_certificate_delivered_def Let_def split: sum.splits option.splits prod.splits
          dest!: keeps)
  qed
qed

text \<open>The validator store keeps the contract of a certificate store.\<close>

definition validator_invar :: "('db, 'b) store_env \<Rightarrow> 'db validator_store \<Rightarrow> bool" where
  "validator_invar E s \<longleftrightarrow> validator_ready E s \<and> store_consistent (fullnode_view E (vs_fullnode s))"

lemma validator_invar_fullnode: "validator_invar E s \<Longrightarrow> fullnode_invar E (vs_fullnode s)"
  by (simp add: validator_invar_def fullnode_invar_def validator_ready_def)

lemma validator_insert_ok:
  assumes "validator_insert_certificate_delivered E cd s = (s', Inr p)"
  obtains f where "insert_certificate_delivered E cd (vs_fullnode s) = (f, Inr p)"
  using assms by (auto simp: validator_insert_certificate_delivered_def Let_def split: prod.splits sum.splits option.splits)

interpretation validator: certificate_store
  "validator_invar E" "delivered_of E" acceptable
  "validator_insert_certificate_delivered E" "validator_get_certificate E" "validator_get_certificates E" for E
proof
  fix s s' cd p e cid r cids rs
  obtain t q where t: "validator_insert_certificate_delivered E cd s = (t, q)" by force
  obtain f q' where f: "insert_certificate_delivered E cd (vs_fullnode s) = (f, q')" by force
  have keeps: "validator_ready E t \<and> vs_fullnode t = f" if "validator_invar E s" "acceptable cd"
    using that validator_insert_keeps [OF _ _ t f] by (simp add: validator_invar_def acceptable_def)
  { assume inv: "validator_invar E s" "acceptable cd"
    then show "validator_invar E (fst (validator_insert_certificate_delivered E cd s))"
      using fullnode.invar_insert [OF validator_invar_fullnode, of E s cd] keeps t f
      by (simp add: validator_invar_def fullnode_invar_def) }
  { assume inv: "validator_invar E s" "acceptable cd" and out: "validator_insert_certificate_delivered E cd s = (s', Inr p)"
    then show "delivered_of E s' = (delivered_of E s)(delivered_id cd \<mapsto> cd) \<and>
        cp_source p = delivery_position (cd_proof_of_delivery cd)"
      using fullnode.insert_ok [OF validator_invar_fullnode inv(2), of E s f p] keeps t f
      by (auto elim: validator_insert_ok) }
  { assume inv: "validator_invar E s" "acceptable cd" and out: "validator_insert_certificate_delivered E cd s = (s', Inl e)"
    show "delivered_of E s' = delivered_of E s \<or> delivered_of E s' = (delivered_of E s)(delivered_id cd \<mapsto> cd)"
      using fullnode.insert_ok [OF validator_invar_fullnode [OF inv(1)] inv(2), of f]
        fullnode.insert_err [OF validator_invar_fullnode [OF inv(1)] inv(2), of f] keeps [OF inv] t f out
      by (cases q') auto }
  { assume "validator_invar E s" "wf_certificate_id cid" "validator_get_certificate E cid s = Inr r"
    then show "r = delivered_of E s cid"
      using fullnode.get_ok [OF validator_invar_fullnode] by (simp add: validator_get_certificate_def) }
  { assume "validator_invar E s" "\<forall>cid \<in> set cids. wf_certificate_id cid" "validator_get_certificates E cids s = Inr rs"
    then show "rs = map (delivered_of E s) cids"
      using fullnode.get_many_ok [OF validator_invar_fullnode] by (simp add: validator_get_certificates_def) }
  { assume "acceptable cd"
    then show "wf_certificate_id (delivered_id cd)" by (rule fullnode.accepts_wf) }
qed

definition pool_removed :: "certificate_id \<Rightarrow> pending_view \<Rightarrow> pending_view" where
  "pool_removed cid P = (case pv_index P cid of Some i \<Rightarrow> P\<lparr>pv_pool := (pv_pool P)(i := None)\<rparr> | None \<Rightarrow> P)"

lemma pool_removed_simps [simp]:
  "pv_index (pool_removed cid P) = pv_index P" "pv_precedence (pool_removed cid P) = pv_precedence P"
  by (simp_all add: pool_removed_def split: option.split)

lemma validator_delivery:
  assumes "validator_ready E s" and "rocksdb_reliable (env_rocks E)" and "wf_delivered cd"
    and "\<forall>k c. pv_precedence (pending_of E s) k = Some c \<longrightarrow> wf_certificate c"
    and "insert_certificate_delivered E cd (vs_fullnode s) = (f, Inr p)"
  shows "\<exists>s' r. validator_insert_certificate_delivered E cd s = (s', r) \<and> vs_fullnode s' = f \<and>
    (case pv_precedence (pending_of E s) (delivered_id cd) of
       None \<Rightarrow> r = Inr p \<and> next_pending_id s' = next_pending_id s \<and>
         pending_of E s' = pool_removed (delivered_id cd) (pending_of E s)
     | Some c \<Rightarrow> \<exists>q. ((next_pending_id s', pending_of E s'), q) =
           pending_spec (delivered_of E s') c (next_pending_id s, pool_removed (delivered_id cd) (pending_of E s)) \<and>
         r = and_then q (\<lambda>_. Inr p))"
proof -
  let ?cid = "delivered_id cd" and ?w = "s\<lparr>vs_fullnode := f\<rparr>"
  let ?t = "remove_from_pool E ?cid ?w"
  have cid: "wf_certificate_id ?cid" by (rule wf_deliveredD(1) [OF assms(3)])
  obtain s' r where out: "validator_insert_certificate_delivered E cd s = (s', r)" by force
  have "fullnode_ready E (vs_fullnode s)" using assms(1) by (simp add: validator_ready_def)
  from this assms(3,5) have "fullnode_ready E f" by (cases rule: insert_delivered_cases) auto
  then have t0: "validator_ready E ?w" using assms(1) by (simp add: validator_ready_def)
  note t = remove_from_pool_keeps [OF t0, of ?cid]
  have pools: "pending_of E ?t = pool_removed ?cid (pending_of E s)"
    using remove_from_pool_reliable [OF t0 assms(2) cid] by (simp add: pool_removed_def cong: option.case_cong)
  have get: "db_column_get (env_rocks E) (precedence_pool_col (env_bincode E)) ?cid (vs_pending ?t) =
      Inr (pv_precedence (pending_of E s) ?cid)"
    using pending_gets_reliable(3) [OF _ assms(2) cid, of "vs_pending ?t"] t pools by (simp add: validator_ready_def)
  show ?thesis
  proof (cases "pv_precedence (pending_of E s) ?cid")
    case None
    then show ?thesis using out get t pools
      by (auto simp: validator_insert_certificate_delivered_def assms(5))
  next
    case (Some c)
    then have "wf_certificate c" using assms(4) by blast
    from insert_pending_reliable [OF t [THEN conjunct1] assms(2) this]
    obtain s1 q where q: "insert_pending_certificate E c ?t = (s1, q)"
      "((next_pending_id s1, pending_of E s1), q) = pending_spec (delivered_of E ?t) c (next_pending_id ?t, pending_of E ?t)"
      by blast
    note k = insert_pending_keeps [OF t [THEN conjunct1] q(1)]
    have "validator_insert_certificate_delivered E cd s = (s1, and_then q (\<lambda>_. Inr p))"
      using Some get q(1) by (simp add: validator_insert_certificate_delivered_def assms(5) Let_def split: sum.split)
    then show ?thesis using Some q(2) k t pools by auto
  qed
qed


lemma insert_pending_pooled:
  assumes "validator_ready E s" and "rocksdb_reliable (env_rocks E)" and "wf_certificate c"
    and "delivered_of E s (cert_id c) = None" and "prev_id c = INITIAL_CERTIFICATE_ID"
  defines "s' \<equiv> fst (insert_pending_certificate E c s)"
  shows "validator_ready E s'" and "vs_fullnode s' = vs_fullnode s" and "next_pending_id s' = next_pending_id s + 1"
    and "pending_of E s' = (pending_of E s)\<lparr>pv_pool := (pv_pool (pending_of E s))(next_pending_id s \<mapsto> c),
      pv_index := (pv_index (pending_of E s))(cert_id c \<mapsto> next_pending_id s)\<rparr>"
proof -
  from insert_pending_reliable [OF assms(1-3)] obtain t r where t: "insert_pending_certificate E c s = (t, r)"
    "((next_pending_id t, pending_of E t), r) = pending_spec (delivered_of E s) c (next_pending_id s, pending_of E s)"
    by blast
  then show "validator_ready E s'" "vs_fullnode s' = vs_fullnode s"
    using insert_pending_keeps [OF assms(1) t(1)] by (simp_all add: s'_def)
  show "next_pending_id s' = next_pending_id s + 1"
    "pending_of E s' = (pending_of E s)\<lparr>pv_pool := (pv_pool (pending_of E s))(next_pending_id s \<mapsto> c),
      pv_index := (pv_index (pending_of E s))(cert_id c \<mapsto> next_pending_id s)\<rparr>"
    using t assms(4,5) by (simp_all add: s'_def pending_spec_def)
qed

text \<open>
  A certificate submitted twice before its delivery is left in the pending pool: each
  submission takes a new pending id and the index remembers only the second, the one that the
  delivery removes. The first entry stays, although the certificate is delivered.
\<close>

lemma resubmitted_certificate_stays_pending:
  assumes "validator_ready E s" and "rocksdb_reliable (env_rocks E)" and "wf_delivered cd"
    and "prev_id (cd_certificate cd) = INITIAL_CERTIFICATE_ID"
    and "delivered_of E s (delivered_id cd) = None" and "pv_precedence (pending_of E s) = Map.empty"
    and "insert_certificate_delivered E cd (vs_fullnode s) = (f, Inr p)"
  defines "s1 \<equiv> fst (insert_pending_certificate E (cd_certificate cd) s)"
  defines "s2 \<equiv> fst (insert_pending_certificate E (cd_certificate cd) s1)"
  defines "s3 \<equiv> fst (validator_insert_certificate_delivered E cd s2)"
  shows "delivered_of E s3 (delivered_id cd) = Some cd \<and>
    get_pending_certificate E (next_pending_id s) s3 = Inr (Some (cd_certificate cd))"
proof -
  let ?c = "cd_certificate cd" and ?n = "next_pending_id s"
  have c: "wf_certificate ?c" using assms(3) by (simp add: wf_delivered_def)
  note s1 = insert_pending_pooled [OF assms(1,2) c assms(5,4), folded s1_def]
  have "delivered_of E s1 (cert_id ?c) = None" by (simp add: s1(2) assms(5))
  note s2 = insert_pending_pooled [OF s1(1) assms(2) c this assms(4), folded s2_def]
  have f2: "vs_fullnode s2 = vs_fullnode s" using s1(2) s2(2) by simp
  have "validator_insert_certificate_delivered E cd s2 = (s3, snd (validator_insert_certificate_delivered E cd s2))"
    by (simp add: s3_def)
  from validator_insert_keeps [OF s2(1) assms(3) this, of f "Inr p"] have s3: "validator_ready E s3" "vs_fullnode s3 = f"
    using assms(7) f2 by simp_all
  have empty: "pv_precedence (pending_of E s2) = Map.empty" using s1(4) s2(4) assms(6) by simp
  have "pending_of E s3 = pool_removed (cert_id ?c) (pending_of E s2)"
    using validator_delivery [OF s2(1) assms(2,3) _ assms(7) [folded f2]] by (auto simp: empty s3_def)
  then have "pv_pool (pending_of E s3) ?n = Some ?c" using s1(3,4) s2(4) by (simp add: pool_removed_def)
  moreover have "delivered_of E s3 (delivered_id cd) = Some cd"
  proof -
    have "fullnode_ready E (vs_fullnode s)" using assms(1) by (simp add: validator_ready_def)
    from this assms(3,7) show ?thesis
      by (cases rule: insert_delivered_cases) (auto simp: s3(2) deliver_view_def Let_def)
  qed
  ultimately show ?thesis
    using s3(1) pending_gets_reliable(1) [OF _ assms(2)] by (simp add: get_pending_certificate_def validator_ready_def)
qed

end
