(* ===== verification/Validator_Sync.thy ===== *)
theory Validator_Sync
  imports Validator_Props
begin

text \<open>
  The synchronisation side of the validator store (unverified proofs and checkpoint
  differences), the loop over the precedence pool, and the store evaluated on concrete inputs.
\<close>

lemma map_of_single_distinct:
  assumes "map_of xs = [k \<mapsto> v]" and "distinct (map fst xs)"
  shows "xs = [(k, v)]"
proof -
  have "set xs = {(k, v)}"
    using assms by (auto simp: set_map_of_compr [OF assms(2)] split: if_splits)
  moreover have "distinct xs" using assms(2) by (simp add: distinct_map)
  ultimately show ?thesis by (cases xs; cases "tl xs") auto
qed

lemma find_in_set: "find P xs = Some x \<Longrightarrow> P x \<and> x \<in> set xs"
  by (auto simp: find_Some_iff)

lemma map_of_find_last:
  "map_of (rev (map (\<lambda>x. (f x, [x])) xs)) k = map_option (\<lambda>x. [x]) (find (\<lambda>x. f x = k) (rev xs))"
proof -
  have "map_of (map (\<lambda>x. (f x, [x])) ys) k = map_option (\<lambda>x. [x]) (find (\<lambda>x. f x = k) ys)" for ys
    by (induction ys) auto
  then show ?thesis by (simp add: rev_map)
qed

section \<open>Following the precedence pool\<close>

text \<open>
  The step from a certificate to the one that waits for it. The loop ends when some measure
  decreases along the steps.
\<close>

lemma follow_precedence_step:
  assumes "pending_ready E db" and "rocksdb_reliable (env_rocks E)" and "wf_certificate_id (cert_id c)"
  shows "follow_precedence E db c n = (case pv_precedence (pending_view E db) (cert_id c) of
      None \<Rightarrow> Some (Inr (n, c)) | Some c' \<Rightarrow> follow_precedence E db c' (n + 1))"
  by (subst follow_precedence.simps)
    (simp add: pending_gets_reliable(3) [OF assms] split: option.split)

text \<open>
  The chain of a certificate: the certificates that the loop visits, at most \<open>k\<close> of them.
\<close>

fun precedence_chain :: "nat \<Rightarrow> (certificate_id \<rightharpoonup> certificate) \<Rightarrow> certificate \<Rightarrow> certificate list" where
  "precedence_chain 0 m c = []"
| "precedence_chain (Suc k) m c = (case m (cert_id c) of None \<Rightarrow> [] | Some d \<Rightarrow> d # precedence_chain k m d)"

lemma follow_precedence_chain:
  assumes "pending_ready E db" and "rocksdb_reliable (env_rocks E)"
    and "\<forall>k c. pv_precedence (pending_view E db) k = Some c \<longrightarrow> wf_certificate_id (cert_id c) \<and> rank c < rank' k"
    and "\<forall>c. rank' (cert_id c) \<le> rank c" and "wf_certificate_id (cert_id c)" and "rank c \<le> b"
  defines "chain \<equiv> precedence_chain b (pv_precedence (pending_view E db)) c"
  shows "follow_precedence E db c n = Some (Inr (n + of_nat (length chain), last (c # chain)))"
  using assms(5,6) unfolding chain_def
proof (induction b arbitrary: c n)
  case 0
  have "pv_precedence (pending_view E db) (cert_id c) = None"
  proof (rule ccontr)
    assume "pv_precedence (pending_view E db) (cert_id c) \<noteq> None"
    then obtain d where "pv_precedence (pending_view E db) (cert_id c) = Some d" by blast
    with assms(3) have "rank d < rank' (cert_id c)" by blast
    with assms(4) [THEN spec, of c] 0 show False by simp
  qed
  then show ?case by (simp add: follow_precedence_step [OF assms(1,2) 0(1)])
next
  case (Suc b)
  show ?case
  proof (cases "pv_precedence (pending_view E db) (cert_id c)")
    case None
    then show ?thesis by (simp add: follow_precedence_step [OF assms(1,2) Suc.prems(1)])
  next
    case (Some d)
    with assms(3) have d: "wf_certificate_id (cert_id d)" "rank d < rank' (cert_id c)" by blast+
    with assms(4) [THEN spec, of c] Suc.prems(2) have "rank d \<le> b" by simp
    from Suc.IH [OF d(1) this, of "n + 1"] Some show ?thesis
      by (simp add: follow_precedence_step [OF assms(1,2) Suc.prems(1)] add.assoc)
  qed
qed

text \<open>
  C30: The loop over the precedence pool returns when the pool has no cycle: if every waiting
  certificate ranks below its predecessor, it ends at the last certificate of the chain and
  adds the length of the chain to the counter.
\<close>

theorem follow_precedence_terminates:
  assumes "pending_ready E db" and "rocksdb_reliable (env_rocks E)" and "wf_certificate_id (cert_id c)"
    and "\<forall>k d. pv_precedence (pending_view E db) k = Some d \<longrightarrow>
      wf_certificate_id (cert_id d) \<and> rank (cert_id d) < rank k"
  defines "chain \<equiv> precedence_chain (rank (cert_id c)) (pv_precedence (pending_view E db)) c"
  shows "follow_precedence E db c n = Some (Inr (n + of_nat (length chain), last (c # chain)))"
  using follow_precedence_chain [OF assms(1,2), of "\<lambda>c. rank (cert_id c)" rank c "rank (cert_id c)" n] assms(3,4)
  by (simp add: chain_def)

lemma follow_precedence_cycle:
  assumes "pending_ready E db" and "rocksdb_reliable (env_rocks E)" and "wf_certificate_id k"
    and "pv_precedence (pending_view E db) k = Some d" and "cert_id d = k"
  shows "cert_id c = k \<Longrightarrow> follow_precedence E db c n = None"
proof (rule ccontr)
  assume c: "cert_id c = k" and "follow_precedence E db c n \<noteq> None"
  then obtain r where "follow_precedence E db c n = Some r" by blast
  from follow_precedence.raw_induct [where P = "\<lambda>E' db' c n r. E' = E \<longrightarrow> db' = db \<longrightarrow> cert_id c \<noteq> k", OF _ this]
  have "cert_id c \<noteq> k"
    using pending_gets_reliable(3) [OF assms(1-3)] assms(4,5) by (fastforce split: sum.splits option.splits)
  with c show False by simp
qed

text \<open>
  C31: The loop over the precedence pool can run forever. The ids of submitted certificates are
  not recomputed: after a certificate without predecessor and a second one that names the first
  one's id both as its own and as its predecessor's, asking for the pending certificates of the
  subnet does not return.
\<close>

theorem pending_lookup_diverges:
  assumes "validator_ready E s" and "rocksdb_reliable (env_rocks E)" and "wf_certificate c" and "wf_certificate d"
    and "prev_id c = INITIAL_CERTIFICATE_ID" and "delivered_of E s (cert_id c) = None"
    and "cert_id d = cert_id c" and "prev_id d = cert_id c" and "cert_id c \<noteq> INITIAL_CERTIFICATE_ID"
    and "pv_pool (pending_of E s) = Map.empty"
  defines "s1 \<equiv> fst (insert_pending_certificate E c s)"
  defines "s2 \<equiv> fst (insert_pending_certificate E d s1)"
  shows "get_pending_certificates_for_subnets E [source_subnet_id c] s2 = None"
proof -
  note s1 = insert_pending_pooled [OF assms(1-3,6,5), folded s1_def]
  from insert_pending_reliable [OF s1(1) assms(2,4)] obtain t r where t: "insert_pending_certificate E d s1 = (t, r)"
    "((next_pending_id t, pending_of E t), r) = pending_spec (delivered_of E s1) d (next_pending_id s1, pending_of E s1)"
    by blast
  have s2: "validator_ready E s2"
    "pending_of E s2 = (pending_of E s1)\<lparr>pv_precedence := (pv_precedence (pending_of E s1))(cert_id c \<mapsto> d)\<rparr>"
    using insert_pending_keeps [OF s1(1) t(1)] t assms(6-9) s1(2) by (simp_all add: s2_def pending_spec_def)
  let ?R = "env_rocks E" and ?col = "pending_pool_col (env_bincode E)"
  have ready: "pending_ready E (vs_pending s2)" using s2(1) by (simp add: validator_ready_def)
  note spec = column_items_spec [OF pending_laws(1) [OF ready] table_laws(8) [OF pending_laws(2) [OF ready]]
      pending_columns_ready(1) [OF ready]]
  have "map_of (column_items ?R ?col (vs_pending s2)) = [next_pending_id s \<mapsto> c]"
    using spec(1) s1(4) s2(2) assms(10) by (simp add: pending_view_def)
  then have items: "column_items ?R ?col (vs_pending s2) = [(next_pending_id s, c)]"
    using spec(3) map_of_single_distinct by metis
  have "follow_precedence E (vs_pending s2) c n = None" for n
    using s2(2) assms(3,7) by (intro follow_precedence_cycle [OF ready assms(2), of "cert_id c" d]) (simp_all add: wf_certificate_def)
  then show ?thesis
    by (simp add: get_pending_certificates_for_subnets_def db_column_iter_eq [OF pending_columns_ready(1) [OF ready]] items)
qed

section \<open>Unverified proofs\<close>

lemma fullnode_unverified_put:
  assumes "fullnode_ready E f" and "\<forall>(k, v) \<in> set kvs. wf_certificate_id k"
    and "multi_insert (env_rocks E) (unverified_col (env_bincode E)) kvs (fs_perpetual f) = Inr db"
  shows "fullnode_ready E (f\<lparr>fs_perpetual := db\<rparr>)"
    and "fullnode_view E (f\<lparr>fs_perpetual := db\<rparr>) =
      (fullnode_view E f)\<lparr>fv_unverified := fv_unverified (fullnode_view E f) ++ map_of (rev kvs)\<rparr>"
proof -
  let ?c = "unverified_col (env_bincode E)"
  note laws = fullnode_laws [OF assms(1)] and t = table_laws(3) [OF laws(2)]
  have "insert_batch (env_rocks E) ?c kvs (fs_perpetual f) (db_batch_new ?c) =
      Inr \<lparr>batch_db = PerpetualDb, batch_ops = map (put_op ?c) kvs\<rparr>"
    using insert_batch_ok [OF t _ _ assms(2), of "env_rocks E" "fs_perpetual f" "db_batch_new ?c"]
      fullnode_columns_ready(3) [OF assms(1)]
    by (simp add: db_batch_new_def column_ready_def)
  then have "batch_write (env_rocks E) \<lparr>batch_db = PerpetualDb, batch_ops = map (put_op ?c) kvs\<rparr> (fs_perpetual f) = Inr db"
    using assms(3) by (simp add: multi_insert_def)
  note w = batch_write_ok [OF laws(1) this, simplified]
  show "fullnode_ready E (f\<lparr>fs_perpetual := db\<rparr>)"
    using assms(1) w column_inv_puts [OF t assms(2)]
    by (simp add: fullnode_ready_def perpetual_ready_def families_opened_def column_puts_other)
  show "fullnode_view E (f\<lparr>fs_perpetual := db\<rparr>) =
      (fullnode_view E f)\<lparr>fv_unverified := fv_unverified (fullnode_view E f) ++ map_of (rev kvs)\<rparr>"
    using w column_view_puts [OF t assms(2)] by (simp add: fullnode_view_def column_puts_other)
qed

lemma fullnode_unverified_delete:
  assumes "fullnode_ready E f"
    and "db_column_delete (env_rocks E) (unverified_col (env_bincode E)) cid (fs_perpetual f) = Inr db"
  shows "fullnode_ready E (f\<lparr>fs_perpetual := db\<rparr>)"
    and "fullnode_view E (f\<lparr>fs_perpetual := db\<rparr>) =
      (fullnode_view E f)\<lparr>fv_unverified := (fv_unverified (fullnode_view E f))(cid := None)\<rparr>"
proof -
  note laws = fullnode_laws [OF assms(1)] and t = table_laws(3) [OF laws(2)]
  note w = db_column_delete_ok [OF laws(1) t assms(2)]
  show "fullnode_ready E (f\<lparr>fs_perpetual := db\<rparr>)"
    using assms(1) w(2,3)
    by (simp add: fullnode_ready_def perpetual_ready_def families_opened_def column_inv_delete column_delete_other
        del: apply_batch_op.simps)
  show "fullnode_view E (f\<lparr>fs_perpetual := db\<rparr>) =
      (fullnode_view E f)\<lparr>fv_unverified := (fv_unverified (fullnode_view E f))(cid := None)\<rparr>"
    using w(2) column_view_delete [OF t w(1)]
    by (simp add: fullnode_view_def column_delete_other del: apply_batch_op.simps)
qed

lemma insert_unverified_reliable:
  assumes "validator_ready E s" and "rocksdb_reliable (env_rocks E)"
    and "\<forall>p \<in> set proofs. wf_certificate_id (pod_certificate_id p)"
  obtains db where "insert_unverified_proofs E proofs s =
      (s\<lparr>vs_fullnode := (vs_fullnode s)\<lparr>fs_perpetual := db\<rparr>\<rparr>, Inr (map pod_certificate_id proofs))"
    "fullnode_ready E ((vs_fullnode s)\<lparr>fs_perpetual := db\<rparr>)"
    "fullnode_view E ((vs_fullnode s)\<lparr>fs_perpetual := db\<rparr>) = (fullnode_view E (vs_fullnode s))\<lparr>fv_unverified :=
       fv_unverified (fullnode_view E (vs_fullnode s)) ++ map_of (rev (map (\<lambda>p. (pod_certificate_id p, p)) proofs))\<rparr>"
proof -
  let ?kvs = "map (\<lambda>p. (pod_certificate_id p, p)) proofs" and ?c = "unverified_col (env_bincode E)"
  have ready: "fullnode_ready E (vs_fullnode s)" using assms(1) by (simp add: validator_ready_def)
  have wf: "\<forall>(k, v) \<in> set ?kvs. wf_certificate_id k" using assms(3) by auto
  have "insert_batch (env_rocks E) ?c ?kvs (fs_perpetual (vs_fullnode s)) (db_batch_new ?c) =
      Inr ((db_batch_new ?c)\<lparr>batch_ops := batch_ops (db_batch_new ?c) @ map (put_op ?c) ?kvs\<rparr>)"
    using fullnode_columns_ready(3) [OF ready]
    by (intro insert_batch_ok [OF table_laws(3) [OF fullnode_laws(2) [OF ready]] _ _ wf])
      (simp_all add: db_batch_new_def column_ready_def)
  then obtain db where db: "multi_insert (env_rocks E) ?c ?kvs (fs_perpetual (vs_fullnode s)) = Inr db"
    using batch_write_reliable [OF assms(2)] by (fastforce simp: multi_insert_def)
  with fullnode_unverified_put [OF ready wf db] show thesis
    by (intro that [of db]) (simp_all add: insert_unverified_proofs_def)
qed

lemma get_unverified_reliable:
  assumes "validator_ready E s" and "rocksdb_reliable (env_rocks E)" and "wf_certificate_id cid"
  shows "get_unverified_proof E cid s = Inr (fv_unverified (fullnode_view E (vs_fullnode s)) cid)"
proof -
  have ready: "fullnode_ready E (vs_fullnode s)" using assms(1) by (simp add: validator_ready_def)
  show ?thesis
    using db_column_get_reliable [OF fullnode_laws(1) [OF ready] assms(2) table_laws(3) [OF fullnode_laws(2) [OF ready]]
        fullnode_columns_ready(3) [OF ready] assms(3)]
    by (simp add: get_unverified_proof_def fullnode_view_def)
qed

lemma fullnode_insert_reliable:
  assumes "fullnode_ready E f" and "rocksdb_reliable (env_rocks E)" and "wf_delivered cd"
    and "fv_streams (fullnode_view E f) (delivery_position (cd_proof_of_delivery cd)) = None"
    and "targets_available (fullnode_view E f) cd"
  obtains f' where "insert_certificate_delivered E cd f = (f', Inr (delivered_positions (fullnode_view E f) cd))"
    "fullnode_ready E f'" "fullnode_view E f' = deliver_view cd (fullnode_view E f)"
proof -
  obtain f' r where out: "insert_certificate_delivered E cd f = (f', r)" by force
  from assms(1,3) out show thesis
    by (cases rule: insert_delivered_cases) (use assms that out in auto)
qed

lemma targets_available_unverified [simp]:
  "targets_available (v\<lparr>fv_unverified := m\<rparr>) cd = targets_available v cd"
proof -
  have "target_positions (v\<lparr>fv_unverified := m\<rparr>) = target_positions v"
    by (simp add: fun_eq_iff target_positions_def)
  then show ?thesis by (simp add: targets_available_def next_position_def)
qed

lemma synchronize_reliable:
  fixes c p
  defines "cd \<equiv> \<lparr>cd_certificate = c, cd_proof_of_delivery = p\<rparr>"
  assumes "validator_ready E s" and "rocksdb_reliable (env_rocks E)" and "wf_delivered cd"
    and "fv_unverified (fullnode_view E (vs_fullnode s)) (cert_id c) = Some p"
    and "fv_streams (fullnode_view E (vs_fullnode s)) (delivery_position p) = None"
    and "targets_available (fullnode_view E (vs_fullnode s)) cd"
    and "\<forall>k d. pv_precedence (pending_of E s) k = Some d \<longrightarrow> wf_certificate d"
    and "pv_precedence (pending_of E s) (cert_id c) = None"
  obtains s' where "synchronize_certificate E c s = (s', Inr ())" "validator_ready E s'"
    "fullnode_view E (vs_fullnode s') = (deliver_view cd (fullnode_view E (vs_fullnode s)))
       \<lparr>fv_unverified := (fv_unverified (fullnode_view E (vs_fullnode s)))(cert_id c := None)\<rparr>"
proof -
  let ?f = "vs_fullnode s"
  let ?p = "delivered_positions (fullnode_view E ?f) cd"
  have cid: "wf_certificate_id (cert_id c)" using wf_deliveredD(1) [OF assms(4)] by (simp add: cd_def)
  have ready: "fullnode_ready E ?f" using assms(2) by (simp add: validator_ready_def)
  have "fv_streams (fullnode_view E ?f) (delivery_position (cd_proof_of_delivery cd)) = None"
    using assms(6) by (simp add: cd_def)
  from fullnode_insert_reliable [OF ready assms(3,4) this assms(7)]
  obtain f where f: "insert_certificate_delivered E cd ?f = (f, Inr ?p)" "fullnode_ready E f"
    "fullnode_view E f = deliver_view cd (fullnode_view E ?f)" by blast
  have "pv_precedence (pending_of E s) (delivered_id cd) = None" using assms(9) by (simp add: cd_def)
  with validator_delivery [OF assms(2-4,8) f(1)] obtain t where
    t: "validator_insert_certificate_delivered E cd s = (t, Inr ?p)" "vs_fullnode t = f" by auto
  have tr: "validator_ready E t" using validator_insert_keeps [OF assms(2,4) t(1) f(1)] by blast
  obtain db where db: "db_column_delete (env_rocks E) (unverified_col (env_bincode E)) (cert_id c) (fs_perpetual f) = Inr db"
    using db_column_delete_reliable [OF assms(3) table_laws(3) [OF fullnode_laws(2) [OF f(2)]]
        fullnode_columns_ready(3) [OF f(2)] cid] by blast
  note del = fullnode_unverified_delete [OF f(2) db]
  have un: "fv_unverified (deliver_view cd v) = fv_unverified v" for v by (simp add: deliver_view_def Let_def)
  show thesis
  proof (rule that)
    show "synchronize_certificate E c s = (t\<lparr>vs_fullnode := f\<lparr>fs_perpetual := db\<rparr>\<rparr>, Inr ())"
      using t db get_unverified_reliable [OF assms(2,3) cid] assms(5)
      by (simp add: synchronize_certificate_def cd_def)
    show "validator_ready E (t\<lparr>vs_fullnode := f\<lparr>fs_perpetual := db\<rparr>\<rparr>)"
      using tr del(1) by (simp add: validator_ready_def)
  qed (simp add: del(2) f(3) un)
qed

text \<open>
  C25: An unverified proof and the certificate fetched for it make a delivered certificate: once
  the proof is stored, synchronising the certificate delivers it with this proof and forgets the
  unverified one. A certificate for which no proof is stored is refused and nothing changes.
\<close>

theorem synchronize_certificate_delivers:
  assumes "validator_ready E s" and "rocksdb_reliable (env_rocks E)"
    and "wf_delivered \<lparr>cd_certificate = c, cd_proof_of_delivery = p\<rparr>" and "pod_certificate_id p = cert_id c"
    and "fv_streams (fullnode_view E (vs_fullnode s)) (delivery_position p) = None"
    and "targets_available (fullnode_view E (vs_fullnode s)) \<lparr>cd_certificate = c, cd_proof_of_delivery = p\<rparr>"
    and "\<forall>k d. pv_precedence (pending_of E s) k = Some d \<longrightarrow> wf_certificate d"
    and "pv_precedence (pending_of E s) (cert_id c) = None"
    and "fv_unverified (fullnode_view E (vs_fullnode s)) (cert_id c) = None"
  defines "s1 \<equiv> fst (insert_unverified_proofs E [p] s)"
  defines "s2 \<equiv> fst (synchronize_certificate E c s1)"
  shows "synchronize_certificate E c s = (s, Inl (InternalStorage (InvalidQueryArgument ''Proof not found''))) \<and>
    synchronize_certificate E c s1 = (s2, Inr ()) \<and>
    validator_get_certificate E (cert_id c) s2 = Inr (Some \<lparr>cd_certificate = c, cd_proof_of_delivery = p\<rparr>) \<and>
    get_unverified_proof E (cert_id c) s2 = Inr None"
proof -
  let ?cd = "\<lparr>cd_certificate = c, cd_proof_of_delivery = p\<rparr>" and ?v = "fullnode_view E (vs_fullnode s)"
  have cid: "wf_certificate_id (cert_id c)" using wf_deliveredD(1) [OF assms(3)] by simp
  have "\<forall>q \<in> set [p]. wf_certificate_id (pod_certificate_id q)" using assms(4) cid by simp
  from insert_unverified_reliable [OF assms(1,2) this] obtain db where
    ins: "insert_unverified_proofs E [p] s = (s\<lparr>vs_fullnode := (vs_fullnode s)\<lparr>fs_perpetual := db\<rparr>\<rparr>,
      Inr (map pod_certificate_id [p]))"
    "fullnode_ready E ((vs_fullnode s)\<lparr>fs_perpetual := db\<rparr>)"
    "fullnode_view E ((vs_fullnode s)\<lparr>fs_perpetual := db\<rparr>) =
      ?v\<lparr>fv_unverified := fv_unverified ?v ++ map_of (rev (map (\<lambda>p. (pod_certificate_id p, p)) [p]))\<rparr>"
    by blast
  have s1: "validator_ready E s1" "vs_pending s1 = vs_pending s"
    "fullnode_view E (vs_fullnode s1) = ?v\<lparr>fv_unverified := (fv_unverified ?v)(cert_id c \<mapsto> p)\<rparr>"
    using assms(1,4) ins by (simp_all add: s1_def validator_ready_def)
  obtain t where t: "synchronize_certificate E c s1 = (t, Inr ())" "validator_ready E t"
    "fullnode_view E (vs_fullnode t) = (deliver_view ?cd (fullnode_view E (vs_fullnode s1)))
       \<lparr>fv_unverified := (fv_unverified (fullnode_view E (vs_fullnode s1)))(cert_id c := None)\<rparr>"
    by (rule synchronize_reliable [OF s1(1) assms(2,3)]) (use assms(5-8) s1(2,3) in simp_all)
  have s2: "s2 = t" by (simp add: s2_def t(1))
  have "fullnode_ready E (vs_fullnode t)" using t(2) by (simp add: validator_ready_def)
  note reads = get_certificate_reliable [OF this assms(2) cid] get_unverified_reliable [OF t(2) assms(2) cid]
  have "synchronize_certificate E c s = (s, Inl (InternalStorage (InvalidQueryArgument ''Proof not found'')))"
    by (simp add: synchronize_certificate_def get_unverified_reliable [OF assms(1,2) cid] assms(9))
  with reads show ?thesis by (simp add: s2 t(1,3) validator_get_certificate_def deliver_view_def Let_def)
qed

section \<open>Checkpoint differences\<close>

text \<open>The proofs of the first hundred certificates of a source stream.\<close>

definition first_proofs :: "fullnode_view \<Rightarrow> subnet_id \<Rightarrow> proof_of_delivery list" where
  "first_proofs v u = map (\<lambda>q. cd_proof_of_delivery (the (fv_certificates v (the (fv_streams v (source_position u q))))))
     (take 100 (sorted_list_of_set (source_positions v u)))"

lemma map_filter_found:
  "\<forall>x \<in> set xs. f x \<noteq> None \<Longrightarrow> List.map_filter (\<lambda>c. c) (map f xs) = map (\<lambda>x. the (f x)) xs"
  by (induction xs) (auto simp: List.map_filter_simps)

lemma first_proofs_read:
  assumes "fullnode_ready E f" and "rocksdb_reliable (env_rocks E)" and "consistent_certificates (fullnode_view E f)"
  defines "v \<equiv> fullnode_view E f"
  shows "and_then (get_certificates E (map snd (take 100 (source_stream v u))) f) (\<lambda>certs.
      Inr (g (map cd_proof_of_delivery (List.map_filter (\<lambda>c. c) certs)))) = Inr (g (first_proofs v u))"
proof -
  let ?ids = "map snd (take 100 (source_stream v u))"
  have "set (take 100 (sorted_list_of_set (source_positions v u))) \<subseteq> source_positions v u"
    using set_take_subset by fastforce
  then have found: "\<forall>cid \<in> set ?ids. fv_certificates v cid \<noteq> None"
    using consistent_certificatesD(4) [OF assms(3) [folded v_def]]
    by (fastforce simp: source_stream_def source_positions_def take_map)
  then have "\<forall>cid \<in> set ?ids. wf_certificate_id cid"
    using consistent_certificatesD(2) [OF assms(3) [folded v_def]] by fastforce
  from get_certificates_reliable [OF assms(1,2) this] map_filter_found [OF found] show ?thesis
    by (simp add: get_certificates_def v_def first_proofs_def source_stream_def take_map comp_def)
qed

text \<open>No stream of the store is of a subnet whose id has the bytes of the certificate of the proof.\<close>

definition proof_names_no_subnet :: "fullnode_view \<Rightarrow> proof_of_delivery \<Rightarrow> bool" where
  "proof_names_no_subnet v p \<longleftrightarrow> wf_certificate_id (pod_certificate_id p) \<and>
     (\<forall>q cid. fv_streams v q = Some cid \<longrightarrow> sid_array (src_subnet_id q) \<noteq> cid_array (pod_certificate_id p))"

lemma prefix_iter_at_proof_empty:
  assumes "fullnode_ready E f" and "wf_subnet_id u" and "proof_names_no_subnet (fullnode_view E f) p"
  shows "prefix_iter_at (env_rocks E) (streams_col (env_bincode E)) (bk_subnet_id (env_bincode E))
    (bk_proof (env_bincode E)) u p (fs_perpetual f) = Inr []"
proof -
  let ?R = "env_rocks E" and ?B = "env_bincode E"
  note laws = fullnode_laws [OF assms(1)] and ready = fullnode_columns_ready(2) [OF assms(1)]
  note t = table_laws(2) [OF laws(2)]
  note spec = column_items_spec [OF laws(1) t ready]
  obtain rest where rest: "ser (bk_proof ?B) p = Some (cid_array (pod_certificate_id p) @ rest)"
    using prefix_codec_laws(3) [OF laws(2)] by blast
  have len: "length (cid_array (pod_certificate_id p)) = 32"
    using assms(3) by (simp add: proof_names_no_subnet_def wf_certificate_id_def CERTIFICATE_ID_LENGTH_def)
  have "ser (bk_subnet_id ?B) u \<noteq> None"
    using prefix_codec_laws(1) [OF laws(2)] assms(2) by (simp add: key_codec_laws_def)
  then have iter: "prefix_iter_at ?R (streams_col ?B) (bk_subnet_id ?B) (bk_proof ?B) u p (fs_perpetual f) =
      Inr (prefix_items ?R (streams_col ?B) enc_source_position (Some SOURCE_STREAMS_PREFIX_SIZE)
        (cid_array (pod_certificate_id p) @ rest) (fs_perpetual f))"
    using fullnode_handles(2) [OF assms(1)] len
    by (intro prefix_iter_at_eq [OF laws(1) t ready _ _ rest]) (simp_all add: SOURCE_STREAMS_PREFIX_SIZE_def)
  have "\<not> same_prefix (Some SOURCE_STREAMS_PREFIX_SIZE) (cid_array (pod_certificate_id p) @ rest) (enc_source_position k)"
    if kv: "(k, cid) \<in> set (column_items ?R (streams_col ?B) (fs_perpetual f))" for k cid
  proof -
    have "wf_source_position k" using spec(4) kv by blast
    then have "length (sid_array (src_subnet_id k)) = 32" by (simp add: wf_source_position_def wf_subnet_length)
    moreover have "fv_streams (fullnode_view E f) k = Some cid"
      using kv spec(1,3) by (simp add: fullnode_view_def flip: spec(1))
    ultimately show ?thesis
      using assms(3) len
      by (auto simp: same_prefix_def SOURCE_STREAMS_PREFIX_SIZE_def enc_source_position_def proof_names_no_subnet_def)
  qed
  then show ?thesis by (auto simp: iter prefix_items_def filter_empty_conv)
qed

text \<open>What the round of a subnet leaves for it, from what the request holds for it.\<close>

definition diff_entry :: "fullnode_view \<Rightarrow> subnet_id \<Rightarrow> proof_of_delivery list option \<Rightarrow> proof_of_delivery list" where
  "diff_entry v u e = (case e of None \<Rightarrow> first_proofs v u | Some _ \<Rightarrow> [])"

lemma checkpoint_diff_subnet_eq:
  assumes "fullnode_ready E (vs_fullnode s)" and "rocksdb_reliable (env_rocks E)"
    and "consistent_certificates (fullnode_view E (vs_fullnode s))" and "wf_subnet_id u"
    and "m u = None \<or> (\<exists>p. m u = Some [p] \<and> proof_names_no_subnet (fullnode_view E (vs_fullnode s)) p)"
  shows "checkpoint_diff_subnet E s u lp m = Inr (m(u \<mapsto> diff_entry (fullnode_view E (vs_fullnode s)) u (m u)))"
proof (cases "m u")
  case None
  then show ?thesis
    using prefix_iter_source_stream [OF assms(1,4)]
      first_proofs_read [OF assms(1-3), where u = u and g = "\<lambda>x. m(u \<mapsto> x)"]
    by (simp add: checkpoint_diff_subnet_def Let_def diff_entry_def)
next
  case (Some e)
  with assms(5) obtain p where p: "e = [p]" "proof_names_no_subnet (fullnode_view E (vs_fullnode s)) p" by auto
  have "get_certificates E [] (vs_fullnode s) = Inr []"
    using get_certificates_reliable [OF assms(1,2), of "[]"] by (simp add: get_certificates_def)
  then show ?thesis
    using Some p prefix_iter_at_proof_empty [OF assms(1,4) p(2)]
    by (simp add: checkpoint_diff_subnet_def Let_def diff_entry_def List.map_filter_simps)
qed

lemma checkpoint_diff_loop_eq:
  assumes "\<And>u lp m. u \<in> set us \<Longrightarrow> m u = M u \<Longrightarrow> checkpoint_diff_subnet E s u lp m = Inr (m(u \<mapsto> g u (m u)))"
    and "distinct us" and "\<forall>u \<in> set us. m u = M u"
  shows "checkpoint_diff_loop E s (map (\<lambda>u. (u, h u)) us) m = Inr (\<lambda>u. if u \<in> set us then Some (g u (m u)) else m u)"
  using assms
proof (induction us arbitrary: m)
  case (Cons u us)
  have "checkpoint_diff_loop E s (map (\<lambda>u. (u, h u)) us) (m(u \<mapsto> g u (m u))) =
      Inr (\<lambda>w. if w \<in> set us then Some (g w ((m(u \<mapsto> g u (m u))) w)) else (m(u \<mapsto> g u (m u))) w)"
    by (rule Cons.IH) (use Cons.prems in auto)
  moreover have "checkpoint_diff_subnet E s u (h u) m = Inr (m(u \<mapsto> g u (m u)))"
    by (rule Cons.prems(1)) (use Cons.prems(3) in simp_all)
  moreover have "(\<lambda>w. if w \<in> set us then Some (g w ((m(u \<mapsto> g u (m u))) w)) else (m(u \<mapsto> g u (m u))) w) =
      (\<lambda>w. if w \<in> set (u # us) then Some (g w (m w)) else m w)"
    using Cons.prems(2) by (auto simp: fun_eq_iff)
  ultimately show ?case by simp
qed simp

text \<open>
  The difference of a checkpoint holds, for each subnet the store knows and the request does
  not name, the proofs of the first hundred certificates of the stream. For a subnet that the
  request names it holds nothing, however far behind the request is: the iterator is positioned
  with the serialised proof, which starts with the id of a certificate and not with a position
  of the stream.
\<close>

lemma checkpoint_diff_exact:
  assumes "validator_ready E s" and "rocksdb_reliable (env_rocks E)"
    and "store_consistent (fullnode_view E (vs_fullnode s))" and "hash_iter_laws iter"
    and "\<forall>p \<in> set request. proof_names_no_subnet (fullnode_view E (vs_fullnode s)) p"
  defines "v \<equiv> fullnode_view E (vs_fullnode s)"
  shows "get_checkpoint_diff iter E request s = Inr (\<lambda>u.
    if fv_source_list v u = None
    then map_option (\<lambda>p. [p]) (find (\<lambda>p. src_subnet_id (delivery_position p) = u) (rev request))
    else Some (if u \<in> src_subnet_id ` delivery_position ` set request then [] else first_proofs v u))"
proof -
  let ?c = "source_list_col (env_bincode E)"
  let ?m = "map_of (rev (map (\<lambda>p. (src_subnet_id (delivery_position p), [p])) request))"
  have ready: "fullnode_ready E (vs_fullnode s)" using assms(1) by (simp add: validator_ready_def)
  note laws = fullnode_laws [OF ready] and cready = fullnode_columns_ready(6) [OF ready]
  let ?items = "column_items (env_rocks E) ?c (fs_index (vs_fullnode s))"
  note spec = column_items_spec [OF laws(1) table_laws(6) [OF laws(2)] cready]
  let ?us = "iter (set (map fst ?items))"
  have us: "set ?us = set (map fst ?items)" "distinct ?us"
    using assms(4) by (simp_all add: hash_iter_laws_def)
  have known: "u \<in> set (map fst ?items) \<longleftrightarrow> fv_source_list v u \<noteq> None" for u
    by (simp add: v_def fullnode_view_def map_of_eq_None_iff flip: spec(1))
  have m: "?m u = map_option (\<lambda>p. [p]) (find (\<lambda>p. src_subnet_id (delivery_position p) = u) (rev request))" for u
    by (simp add: map_of_find_last)
  have entry: "?m u = None \<or> (\<exists>p. ?m u = Some [p] \<and> proof_names_no_subnet v p)" for u
    using assms(5) find_in_set [of _ "rev request"] by (fastforce simp: m v_def)
  have round: "checkpoint_diff_subnet E s u lp n = Inr (n(u \<mapsto> diff_entry v u (n u)))"
    if "u \<in> set ?us" "n u = ?m u" for u lp n
    unfolding v_def
    by (rule checkpoint_diff_subnet_eq [OF ready assms(2)])
      (use assms(3) that us spec(4) entry [of u] in \<open>auto simp: store_consistent_def v_def\<close>)
  have entries: "diff_entry v u (?m u) =
      (if u \<in> src_subnet_id ` delivery_position ` set request then [] else first_proofs v u)" for u
    using find_None_iff [of "\<lambda>p. src_subnet_id (delivery_position p) = u" "rev request"]
    by (auto simp: diff_entry_def m split: option.split)
  have "\<forall>u \<in> set ?us. ?m u = ?m u" by simp
  from checkpoint_diff_loop_eq [where M = ?m and m = ?m and g = "diff_entry v", OF round us(2) this]
  have "get_checkpoint_diff iter E request s =
      Inr (\<lambda>u. if u \<in> set ?us then Some (diff_entry v u (?m u)) else ?m u)"
    by (simp add: get_checkpoint_diff_def db_column_iter_eq [OF cready] Let_def)
  then show ?thesis by (simp only: us(1) known entries) (auto simp: m fun_eq_iff)
qed

section \<open>A concrete validator store\<close>

definition empty_validator :: "mem_value mem_db validator_store" where
  "empty_validator = \<lparr>vs_fullnode = empty_fullnode,
     vs_pending = \<lparr>mem_cfs = pending_cfs, mem_data = (\<lambda>_. [])\<rparr>, next_pending_id = 0\<rparr>"

lemma empty_validator_ready: "validator_ready mem_env empty_validator"
  using empty_fullnode_ready
  by (simp add: validator_ready_def pending_ready_def env_laws_def mem_env_def mem_rocks_laws mem_bincode_laws
      families_opened_def column_inv_def empty_validator_def)

lemma empty_validator_views:
  "pending_of mem_env empty_validator = \<lparr>pv_pool = Map.empty, pv_index = Map.empty, pv_precedence = Map.empty\<rparr>"
  "fullnode_view mem_env (vs_fullnode empty_validator) = empty_view"
  "next_pending_id empty_validator = 0"
  using empty_fullnode_view
  by (simp_all add: pending_view_def mem_env_def empty_validator_def empty_mem_column)

definition chain_certificate :: "u8 \<Rightarrow> certificate_id \<Rightarrow> certificate" where
  "chain_certificate k prev = (example_certificate 1)\<lparr>cert_id := CertificateId (replicate 32 k), prev_id := prev\<rparr>"

lemma chain_certificate_simps [simp]:
  "cert_id (chain_certificate k prev) = CertificateId (replicate 32 k)"
  "prev_id (chain_certificate k prev) = prev"
  "source_subnet_id (chain_certificate k prev) = example_source"
  by (simp_all add: chain_certificate_def example_subnets)

lemma chain_certificate_wf: "wf_certificate_id prev \<Longrightarrow> wf_certificate (chain_certificate k prev)"
  using wf_example_certificate [of 1]
  by (simp add: wf_certificate_def chain_certificate_def wf_certificate_id_def CERTIFICATE_ID_LENGTH_def)

lemma chain_ids:
  "wf_certificate_id (CertificateId (replicate 32 k))" "wf_certificate_id INITIAL_CERTIFICATE_ID"
  "CertificateId (replicate 32 7) \<noteq> INITIAL_CERTIFICATE_ID"
  by (simp_all add: wf_certificate_id_def CERTIFICATE_ID_LENGTH_def INITIAL_CERTIFICATE_ID_def)

definition chain_delivered :: "u8 \<Rightarrow> certificate_delivered" where
  "chain_delivered k =
     \<lparr>cd_certificate = chain_certificate k INITIAL_CERTIFICATE_ID,
      cd_proof_of_delivery = \<lparr>pod_certificate_id = CertificateId (replicate 32 k),
        delivery_position = source_position example_source 0, pod_readies = [], threshold = 3\<rparr>\<rparr>"

lemma chain_delivered_wf: "wf_delivered (chain_delivered k)"
  using chain_certificate_wf [OF chain_ids(2), of k]
  by (simp add: wf_delivered_def chain_delivered_def wf_source_position_def example_subnets)

lemma chain_delivered_accepted:
  obtains f p where "insert_certificate_delivered mem_env (chain_delivered k) empty_fullnode = (f, Inr p)"
    "fullnode_view mem_env f = deliver_view (chain_delivered k) empty_view"
proof (rule fullnode_insert_reliable [OF empty_fullnode_ready mem_env_reliable chain_delivered_wf [of k]])
  fix f assume "insert_certificate_delivered mem_env (chain_delivered k) empty_fullnode =
      (f, Inr (delivered_positions (fullnode_view mem_env empty_fullnode) (chain_delivered k)))"
    "fullnode_view mem_env f = deliver_view (chain_delivered k) (fullnode_view mem_env empty_fullnode)"
  then show thesis using that by (simp add: empty_fullnode_view)
qed (simp add: empty_fullnode_view empty_view_def, simp add: empty_fullnode_view empty_available)

theorem insert_pending_certificate_refines_witness:
  "\<exists>s'. insert_pending_certificate mem_env (chain_certificate 7 INITIAL_CERTIFICATE_ID) empty_validator =
     (s', Inr (Some 0))"
  using insert_pending_certificate_refines [OF empty_validator_ready mem_env_reliable
      chain_certificate_wf [OF chain_ids(2), of 7]]
  by (auto simp: pending_spec_def empty_validator_views empty_view_def)

text \<open>A store in which the successor of certificate 7 waits.\<close>

definition waiting_validator :: "mem_value mem_db validator_store" where
  "waiting_validator =
     fst (insert_pending_certificate mem_env (chain_certificate 8 (CertificateId (replicate 32 7))) empty_validator)"

lemma waiting_validator:
  "validator_ready mem_env waiting_validator" "vs_fullnode waiting_validator = empty_fullnode"
  "next_pending_id waiting_validator = 0"
  "pending_of mem_env waiting_validator = \<lparr>pv_pool = Map.empty, pv_index = Map.empty,
     pv_precedence = [CertificateId (replicate 32 7) \<mapsto> chain_certificate 8 (CertificateId (replicate 32 7))]\<rparr>"
proof -
  let ?c = "chain_certificate 8 (CertificateId (replicate 32 7))"
  have wf: "wf_certificate ?c" by (rule chain_certificate_wf [OF chain_ids(1)])
  obtain t r where t: "insert_pending_certificate mem_env ?c empty_validator = (t, r)"
    "((next_pending_id t, pending_of mem_env t), r) = pending_spec (delivered_of mem_env empty_validator) ?c
      (next_pending_id empty_validator, pending_of mem_env empty_validator)"
    by (rule insert_pending_reliable [OF empty_validator_ready mem_env_reliable wf])
  have w: "waiting_validator = t" by (simp add: waiting_validator_def t(1))
  show "validator_ready mem_env waiting_validator" "vs_fullnode waiting_validator = empty_fullnode"
    using insert_pending_keeps [OF empty_validator_ready t(1)] by (simp_all add: w empty_validator_def)
  have "((next_pending_id t, pending_of mem_env t), r) = ((0, \<lparr>pv_pool = Map.empty, pv_index = Map.empty,
      pv_precedence = [CertificateId (replicate 32 7) \<mapsto> ?c]\<rparr>), Inr None)"
    unfolding t(2) using chain_ids(3) by (simp add: pending_spec_def empty_validator_views empty_view_def)
  then show "next_pending_id waiting_validator = 0"
    "pending_of mem_env waiting_validator = \<lparr>pv_pool = Map.empty, pv_index = Map.empty,
       pv_precedence = [CertificateId (replicate 32 7) \<mapsto> ?c]\<rparr>"
    by (simp_all add: w)
qed


lemma resubmitted_certificate_stays_pending_witness:
  "\<exists>s3. delivered_of mem_env s3 (CertificateId (replicate 32 7)) = Some (chain_delivered 7) \<and>
     get_pending_certificate mem_env 0 s3 = Inr (Some (chain_certificate 7 INITIAL_CERTIFICATE_ID))"
proof -
  obtain f p where f: "insert_certificate_delivered mem_env (chain_delivered 7) empty_fullnode = (f, Inr p)"
    by (rule chain_delivered_accepted)
  have cd: "cd_certificate (chain_delivered 7) = chain_certificate 7 INITIAL_CERTIFICATE_ID" by (simp add: chain_delivered_def)
  have "prev_id (cd_certificate (chain_delivered 7)) = INITIAL_CERTIFICATE_ID"
    "delivered_of mem_env empty_validator (delivered_id (chain_delivered 7)) = None"
    "pv_precedence (pending_of mem_env empty_validator) = Map.empty"
    "insert_certificate_delivered mem_env (chain_delivered 7) (vs_fullnode empty_validator) = (f, Inr p)"
    using f by (simp_all add: cd empty_validator_views, simp_all add: empty_view_def empty_validator_def)
  from resubmitted_certificate_stays_pending [OF empty_validator_ready mem_env_reliable chain_delivered_wf this]
  show ?thesis unfolding cd empty_validator_views(3) by (intro exI) simp
qed

theorem follow_precedence_terminates_witness:
  "follow_precedence mem_env (vs_pending waiting_validator) (chain_certificate 7 INITIAL_CERTIFICATE_ID) 1 =
     Some (Inr (2, chain_certificate 8 (CertificateId (replicate 32 7))))"
proof -
  let ?rank = "\<lambda>k. if k = CertificateId (replicate 32 7) then Suc 0 else 0"
  have "pending_ready mem_env (vs_pending waiting_validator)" using waiting_validator(1) by (simp add: validator_ready_def)
  from follow_precedence_terminates [OF this mem_env_reliable, of "chain_certificate 7 INITIAL_CERTIFICATE_ID" ?rank 1]
  show ?thesis using chain_ids(1) by (simp add: waiting_validator(4))
qed

theorem pending_lookup_diverges_witness:
  "\<exists>s. get_pending_certificates_for_subnets mem_env [example_source] s = None"
proof -
  let ?c = "chain_certificate 7 INITIAL_CERTIFICATE_ID" and ?d = "chain_certificate 7 (CertificateId (replicate 32 7))"
  have "wf_certificate ?c" "wf_certificate ?d" "prev_id ?c = INITIAL_CERTIFICATE_ID"
    "delivered_of mem_env empty_validator (cert_id ?c) = None" "cert_id ?d = cert_id ?c" "prev_id ?d = cert_id ?c"
    "cert_id ?c \<noteq> INITIAL_CERTIFICATE_ID" "pv_pool (pending_of mem_env empty_validator) = Map.empty"
    using chain_certificate_wf [OF chain_ids(1)] chain_certificate_wf [OF chain_ids(2)] chain_ids(3)
    by (simp_all add: empty_validator_views, simp add: empty_view_def)
  from pending_lookup_diverges [OF empty_validator_ready mem_env_reliable this] show ?thesis
    by (intro exI) simp
qed

theorem synchronize_certificate_delivers_witness:
  "\<exists>s. validator_get_certificate mem_env (CertificateId (replicate 32 7)) s = Inr (Some (chain_delivered 7)) \<and>
     get_unverified_proof mem_env (CertificateId (replicate 32 7)) s = Inr None"
proof -
  let ?c = "chain_certificate 7 INITIAL_CERTIFICATE_ID" and ?p = "cd_proof_of_delivery (chain_delivered 7)"
  have cd: "\<lparr>cd_certificate = ?c, cd_proof_of_delivery = ?p\<rparr> = chain_delivered 7" by (simp add: chain_delivered_def)
  have "wf_delivered \<lparr>cd_certificate = ?c, cd_proof_of_delivery = ?p\<rparr>" "pod_certificate_id ?p = cert_id ?c"
    "fv_streams (fullnode_view mem_env (vs_fullnode empty_validator)) (delivery_position ?p) = None"
    "targets_available (fullnode_view mem_env (vs_fullnode empty_validator)) \<lparr>cd_certificate = ?c, cd_proof_of_delivery = ?p\<rparr>"
    "\<forall>k d. pv_precedence (pending_of mem_env empty_validator) k = Some d \<longrightarrow> wf_certificate d"
    "pv_precedence (pending_of mem_env empty_validator) (cert_id ?c) = None"
    "fv_unverified (fullnode_view mem_env (vs_fullnode empty_validator)) (cert_id ?c) = None"
    using chain_delivered_wf [of 7]
    by (simp_all only: cd empty_validator_views empty_available) (simp_all add: chain_delivered_def empty_view_def)
  from synchronize_certificate_delivers [OF empty_validator_ready mem_env_reliable this] show ?thesis
    unfolding cd chain_certificate_simps by blast
qed

text \<open>A request one position of which is behind the stored head.\<close>

lemma checkpoint_diff_exact_witness:
  "\<exists>m. get_checkpoint_diff sorted_list_of_set mem_env
       [\<lparr>pod_certificate_id = CertificateId (replicate 32 5), delivery_position = source_position example_source 3,
         pod_readies = [], threshold = 3\<rparr>] (empty_validator\<lparr>vs_fullnode := one_fullnode 7\<rparr>) = Inr m \<and>
     m example_source = Some []"
proof -
  let ?p = "\<lparr>pod_certificate_id = CertificateId (replicate 32 5), delivery_position = source_position example_source 3,
    pod_readies = [], threshold = 3\<rparr>" and ?s = "empty_validator\<lparr>vs_fullnode := one_fullnode 7\<rparr>"
  let ?v = "fullnode_view mem_env (vs_fullnode ?s)"
  have v: "?v = deliver_view (example_delivered 1 7) empty_view" using one_fullnode_ready(3) by simp
  have "validator_ready mem_env ?s"
    using empty_validator_ready one_fullnode_ready(1) by (simp add: validator_ready_def)
  moreover have "store_consistent ?v" using one_fullnode_ready(2) by simp
  moreover have "hash_iter_laws (sorted_list_of_set :: subnet_id set \<Rightarrow> subnet_id list)" by (simp add: hash_iter_laws_def)
  moreover have "\<forall>p \<in> set [?p]. proof_names_no_subnet ?v p"
    unfolding v using chain_ids(1) [of 5]
    by (auto simp: proof_names_no_subnet_def deliver_view_def Let_def empty_view_def example_delivered_def example_subnets
        split: if_splits)
  moreover have "fv_source_list ?v example_source \<noteq> None"
    unfolding v by (simp add: deliver_view_def Let_def example_delivered_def example_subnets)
  ultimately show ?thesis
    using checkpoint_diff_exact [OF _ mem_env_reliable, of ?s sorted_list_of_set "[?p]"] by simp
qed

end
