(* ===== verification/Task_Manager.thy ===== *)
theory Task_Manager
  imports Broadcast_State Validator_Sync
begin

text \<open>
  The task manager of the broadcast, \<^verbatim>\<open>task_manager_futures/mod.rs\<close> and \<^verbatim>\<open>task.rs\<close> of the crate
  \<^verbatim>\<open>topos-tce-broadcast\<close>: one task per certificate, fed with the messages of the certificate
  through a bounded channel. Tasks whose predecessor is not delivered wait in \<open>precedence\<close>.

  A tokio channel is an entry of an explicit store of channels, which the sending and the
  receiving ends share by address. The tasks of \<open>FuturesUnordered\<close> only run while the manager
  waits in its \<open>select!\<close>, so a manager that waits for room in a channel stops them; the
  spawned forwarders of buffered messages run on their own. The relation \<open>tm_step\<close> leaves the
  order open. The channel of the completions is not bounded in the model and the metrics are
  left out.
\<close>

section \<open>Commands, tasks and channels\<close>

datatype 'sig double_echo_command =
    CmdBroadcast bool certificate
  | CmdEcho validator_id certificate_id 'sig
  | CmdReady validator_id certificate_id 'sig

datatype task_status = TaskSuccess | TaskFailure

record 'sig channel =
  chan_queue :: "'sig double_echo_command list"
  chan_open :: bool

record 'sig task =
  task_certificate_id :: certificate_id
  task_channel :: nat
  task_state :: "'sig broadcast_state"
  task_started :: bool

definition TASK_CHANNEL_SIZE :: nat where
  "TASK_CHANNEL_SIZE = 10024"

record ('db, 'sig) task_manager =
  tm_messages :: "'sig double_echo_command list"
  tm_tasks :: "certificate_id \<rightharpoonup> nat"
  tm_running :: "'sig task list"
  tm_buffered :: "certificate_id \<rightharpoonup> 'sig double_echo_command list"
  tm_precedence :: "certificate_id \<rightharpoonup> 'sig task"
  tm_channels :: "nat \<Rightarrow> 'sig channel"
  tm_next_channel :: nat
  tm_forwarders :: "(nat \<times> 'sig double_echo_command list) list"
  tm_sending :: "(nat \<times> 'sig double_echo_command) option"
  tm_completions :: "(certificate_id \<times> task_status) list"
  tm_published :: "(certificate_delivered \<times> certificate_positions) list"
  tm_panicked :: bool
  tm_store :: "'db validator_store"

text \<open>What the manager is created with and does not change.\<close>

record ('db, 'b, 'sig) tm_config =
  cfg_env :: "('db, 'b) store_env"
  cfg_subscriptions :: subscriptions_view
  cfg_validator_id :: validator_id
  cfg_thresholds :: reliable_broadcast_params
  cfg_signer :: "bytes \<Rightarrow> 'sig option"
  cfg_hex :: hex
  cfg_iter :: "utf8 set \<Rightarrow> utf8 list"

definition task_manager_new :: "'db validator_store \<Rightarrow> ('db, 'sig) task_manager" where
  "task_manager_new store =
     \<lparr>tm_messages = [], tm_tasks = Map.empty, tm_running = [], tm_buffered = Map.empty,
      tm_precedence = Map.empty, tm_channels = (\<lambda>_. \<lparr>chan_queue = [], chan_open = True\<rparr>), tm_next_channel = 0,
      tm_forwarders = [], tm_sending = None, tm_completions = [], tm_published = [], tm_panicked = False,
      tm_store = store\<rparr>"

section \<open>One task\<close>

definition task_new ::
  "certificate_id \<Rightarrow> 'sig broadcast_state \<Rightarrow> nat \<Rightarrow> 'sig task" where
  "task_new cid state ch =
     \<lparr>task_certificate_id = cid, task_channel = ch, task_state = state, task_started = False\<rparr>"

text \<open>
  The start of the future of a task: the position it expects follows the last delivered one of
  the source subnet. \<open>Panic\<close> is the \<open>unwrap\<close> on the last position.
\<close>

definition task_start ::
  "('db, 'b, 'sig) tm_config \<Rightarrow> 'db validator_store \<Rightarrow> 'sig task \<Rightarrow> unit failure + 'sig task" where
  "task_start cfg store t =
     (case validator_last_delivered_position_for_subnet (cfg_env cfg)
         (source_subnet_id (bs_certificate (task_state t))) store of
        Inl _ \<Rightarrow> Inl (Failed ())
      | Inr None \<Rightarrow>
          Inr (t\<lparr>task_state := (task_state t)\<lparr>bs_expected_position := Some position_ZERO\<rparr>, task_started := True\<rparr>)
      | Inr (Some p) \<Rightarrow>
          (case increment (src_position p) of
             Inl _ \<Rightarrow> Inl Panic
           | Inr pos \<Rightarrow>
               Inr (t\<lparr>task_state := (task_state t)\<lparr>bs_expected_position := Some pos\<rparr>, task_started := True\<rparr>)))"

definition persist ::
  "('db, 'b, 'sig) tm_config \<Rightarrow> 'sig task \<Rightarrow> 'db validator_store \<Rightarrow>
   'db validator_store \<times> (storage_error failure + (certificate_delivered \<times> certificate_positions))" where
  "persist cfg t store =
     (case into_delivered (cfg_iter cfg) (task_state t) of
        Inl _ \<Rightarrow> (store, Inl Panic)
      | Inr cd \<Rightarrow>
          (case validator_insert_certificate_delivered (cfg_env cfg) cd store of
             (store, Inl e) \<Rightarrow> (store, Inl (Failed e))
           | (store, Inr positions) \<Rightarrow> (store, Inr (cd, positions))))"

datatype ('sig, 'p) task_poll = PollPending "'sig task" | PollReady task_status "'p option" | PollPanic

text \<open>One message of the loop of a task.\<close>

definition task_apply ::
  "hex \<Rightarrow> 'sig double_echo_command \<Rightarrow> 'sig broadcast_state \<Rightarrow> 'sig broadcast_state \<times> status option" where
  "task_apply H msg s =
     (case msg of
        CmdEcho v _ _ \<Rightarrow> apply_echo v s
      | CmdReady v _ _ \<Rightarrow> apply_ready H v s
      | CmdBroadcast _ _ \<Rightarrow> (s, None))"

definition task_message ::
  "('db, 'b, 'sig) tm_config \<Rightarrow> 'sig double_echo_command \<Rightarrow> 'sig task \<Rightarrow> 'db validator_store \<Rightarrow>
   'db validator_store \<times> ('sig, certificate_delivered \<times> certificate_positions) task_poll" where
  "task_message cfg msg t store =
     (let (state, r) = task_apply (cfg_hex cfg) msg (task_state t);
          t = t\<lparr>task_state := state\<rparr> in
      if r = Some DeliveredWithReadySent then
        (case persist cfg t store of
           (store, Inr out) \<Rightarrow> (store, PollReady TaskSuccess (Some out))
         | (store, Inl (Failed _)) \<Rightarrow> (store, PollReady TaskFailure None)
         | (store, Inl Panic) \<Rightarrow> (store, PollPanic))
      else (store, PollPending t))"

section \<open>The manager\<close>

definition close_channel :: "nat \<Rightarrow> ('db, 'sig) task_manager \<Rightarrow> ('db, 'sig) task_manager" where
  "close_channel ch tm =
     tm\<lparr>tm_channels := (tm_channels tm)(ch := (tm_channels tm ch)\<lparr>chan_open := False\<rparr>)\<rparr>"

definition start_task ::
  "'sig task \<Rightarrow> nat \<Rightarrow> 'sig double_echo_command list option \<Rightarrow> ('db, 'sig) task_manager \<Rightarrow>
   ('db, 'sig) task_manager" where
  "start_task t sink messages tm =
     tm\<lparr>tm_running := tm_running tm @ [t],
        tm_forwarders := tm_forwarders tm @ (case messages of None \<Rightarrow> [] | Some ms \<Rightarrow> [(sink, ms)])\<rparr>"

text \<open>A task that waits for the same predecessor is dropped, and with it its receiver.\<close>

definition insert_precedence ::
  "certificate_id \<Rightarrow> 'sig task \<Rightarrow> ('db, 'sig) task_manager \<Rightarrow> ('db, 'sig) task_manager" where
  "insert_precedence prev t tm =
     (let tm = (case tm_precedence tm prev of None \<Rightarrow> tm | Some old \<Rightarrow> close_channel (task_channel old) tm) in
      tm\<lparr>tm_precedence := (tm_precedence tm)(prev \<mapsto> t)\<rparr>)"

definition route_message ::
  "certificate_id \<Rightarrow> 'sig double_echo_command \<Rightarrow> ('db, 'sig) task_manager \<Rightarrow> ('db, 'sig) task_manager" where
  "route_message cid msg tm =
     (case tm_tasks tm cid of
        Some sink \<Rightarrow> tm\<lparr>tm_sending := Some (sink, msg)\<rparr>
      | None \<Rightarrow> tm\<lparr>tm_buffered := (tm_buffered tm)
          (cid \<mapsto> (case tm_buffered tm cid of None \<Rightarrow> [] | Some ms \<Rightarrow> ms) @ [msg])\<rparr>)"

definition create_task ::
  "('db, 'b, 'sig) tm_config \<Rightarrow> bool \<Rightarrow> certificate \<Rightarrow> ('db, 'sig) task_manager \<Rightarrow> ('db, 'sig) task_manager" where
  "create_task cfg need_gossip cert tm =
     (let state = broadcast_state_new cert (cfg_validator_id cfg) (rp_echo_threshold (cfg_thresholds cfg))
            (rp_ready_threshold (cfg_thresholds cfg)) (rp_delivery_threshold (cfg_thresholds cfg))
            (cfg_subscriptions cfg) need_gossip (cfg_signer cfg);
          ch = tm_next_channel tm;
          t = task_new (cert_id cert) state ch;
          tm = tm\<lparr>tm_next_channel := Suc ch\<rparr>;
          prev = validator_get_certificate (cfg_env cfg) (prev_id cert) (tm_store tm);
          tm = (if (case prev of Inr (Some _) \<Rightarrow> True | _ \<Rightarrow> False) \<or> prev_id cert = INITIAL_CERTIFICATE_ID
                then start_task t ch (tm_buffered tm (cert_id cert))
                  (tm\<lparr>tm_buffered := (tm_buffered tm)(cert_id cert := None)\<rparr>)
                else insert_precedence (prev_id cert) t tm) in
      tm\<lparr>tm_tasks := (tm_tasks tm)(cert_id cert \<mapsto> ch)\<rparr>)"

fun tm_command ::
  "('db, 'b, 'sig) tm_config \<Rightarrow> 'sig double_echo_command \<Rightarrow> ('db, 'sig) task_manager \<Rightarrow> ('db, 'sig) task_manager" where
  "tm_command cfg (CmdEcho v cid sg) tm = route_message cid (CmdEcho v cid sg) tm"
| "tm_command cfg (CmdReady v cid sg) tm = route_message cid (CmdReady v cid sg) tm"
| "tm_command cfg (CmdBroadcast need_gossip cert) tm =
     (case tm_tasks tm (cert_id cert) of
        Some _ \<Rightarrow> tm
      | None \<Rightarrow> create_task cfg need_gossip cert tm)"

text \<open>
  A send: refused at once when the receiver is gone, waiting (\<open>None\<close>) when the channel is full.
\<close>

definition channel_send ::
  "nat \<Rightarrow> 'sig double_echo_command \<Rightarrow> ('db, 'sig) task_manager \<Rightarrow> ('db, 'sig) task_manager option" where
  "channel_send ch msg tm =
     (let c = tm_channels tm ch in
      if \<not> chan_open c then Some tm
      else if length (chan_queue c) < TASK_CHANNEL_SIZE
      then Some (tm\<lparr>tm_channels := (tm_channels tm)(ch := c\<lparr>chan_queue := chan_queue c @ [msg]\<rparr>)\<rparr>)
      else None)"

text \<open>The handler of a finished task.\<close>

definition task_finished ::
  "certificate_id \<Rightarrow> task_status \<Rightarrow> ('db, 'sig) task_manager \<Rightarrow> ('db, 'sig) task_manager" where
  "task_finished cid st tm =
     (if st \<noteq> TaskSuccess then tm
      else
        (let tm = tm\<lparr>tm_tasks := (tm_tasks tm)(cid := None),
                     tm_completions := tm_completions tm @ [(cid, st)]\<rparr> in
         case tm_precedence tm cid of
           None \<Rightarrow> tm
         | Some t \<Rightarrow>
             (let tm = tm\<lparr>tm_precedence := (tm_precedence tm)(cid := None)\<rparr>; id' = task_certificate_id t in
              case tm_tasks tm id' of
                Some sink \<Rightarrow> start_task t sink (tm_buffered tm id') (tm\<lparr>tm_buffered := (tm_buffered tm)(id' := None)\<rparr>)
              | None \<Rightarrow> close_channel (task_channel t) tm)))"

text \<open>Polling the task at index \<open>i\<close>: it starts, or takes one message; \<open>None\<close> when it has nothing to do.\<close>

definition end_task ::
  "nat \<Rightarrow> task_status \<Rightarrow> ('db, 'sig) task_manager \<Rightarrow> ('db, 'sig) task_manager" where
  "end_task i st tm =
     (let t = tm_running tm ! i in
      task_finished (task_certificate_id t) st
        (close_channel (task_channel t) (tm\<lparr>tm_running := take i (tm_running tm) @ drop (Suc i) (tm_running tm)\<rparr>)))"

definition poll_task ::
  "('db, 'b, 'sig) tm_config \<Rightarrow> nat \<Rightarrow> ('db, 'sig) task_manager \<Rightarrow> ('db, 'sig) task_manager option" where
  "poll_task cfg i tm =
     (let t = tm_running tm ! i; c = tm_channels tm (task_channel t) in
      if \<not> task_started t then
        (case task_start cfg (tm_store tm) t of
           Inr t \<Rightarrow> Some (tm\<lparr>tm_running := (tm_running tm)[i := t]\<rparr>)
         | Inl (Failed _) \<Rightarrow> Some (end_task i TaskFailure tm)
         | Inl Panic \<Rightarrow> Some (tm\<lparr>tm_panicked := True\<rparr>))
      else
        (case chan_queue c of
           [] \<Rightarrow> None
         | msg # rest \<Rightarrow>
             (let tm = tm\<lparr>tm_channels := (tm_channels tm)(task_channel t := c\<lparr>chan_queue := rest\<rparr>)\<rparr> in
              case task_message cfg msg t (tm_store tm) of
                (store, PollPending t) \<Rightarrow> Some (tm\<lparr>tm_running := (tm_running tm)[i := t], tm_store := store\<rparr>)
              | (store, PollReady st p) \<Rightarrow>
                  Some (end_task i st (tm\<lparr>tm_store := store,
                    tm_published := tm_published tm @ (case p of None \<Rightarrow> [] | Some d \<Rightarrow> [d])\<rparr>))
              | (store, PollPanic) \<Rightarrow> Some (tm\<lparr>tm_store := store, tm_panicked := True\<rparr>))))"

text \<open>The shutdown of the manager: \<open>unwrap\<close> panics when the task of a context is gone.\<close>

definition tm_shutdown :: "('db, 'sig) task_manager \<Rightarrow> unit failure + unit" where
  "tm_shutdown tm =
     (if \<exists>cid ch. tm_tasks tm cid = Some ch \<and> \<not> chan_open (tm_channels tm ch) then Inl Panic else Inr ())"

section \<open>Runs\<close>

inductive tm_step :: "('db, 'b, 'sig) tm_config \<Rightarrow> ('db, 'sig) task_manager \<Rightarrow> ('db, 'sig) task_manager \<Rightarrow> bool"
  for cfg where
  receive: "\<not> tm_panicked tm \<Longrightarrow> tm_sending tm = None \<Longrightarrow> tm_messages tm = msg # rest \<Longrightarrow>
    tm_step cfg tm (tm_command cfg msg (tm\<lparr>tm_messages := rest\<rparr>))"
| send: "\<not> tm_panicked tm \<Longrightarrow> tm_sending tm = Some (ch, msg) \<Longrightarrow>
    channel_send ch msg (tm\<lparr>tm_sending := None\<rparr>) = Some tm' \<Longrightarrow> tm_step cfg tm tm'"
| forward: "i < length (tm_forwarders tm) \<Longrightarrow> tm_forwarders tm ! i = (ch, msg # rest) \<Longrightarrow>
    channel_send ch msg (tm\<lparr>tm_forwarders := (tm_forwarders tm)[i := (ch, rest)]\<rparr>) = Some tm' \<Longrightarrow> tm_step cfg tm tm'"
| poll: "\<not> tm_panicked tm \<Longrightarrow> tm_sending tm = None \<Longrightarrow> i < length (tm_running tm) \<Longrightarrow>
    poll_task cfg i tm = Some tm' \<Longrightarrow> tm_step cfg tm tm'"

text \<open>A run from a store, with the commands the manager was sent.\<close>

inductive tm_run ::
  "('db, 'b, 'sig) tm_config \<Rightarrow> 'db validator_store \<Rightarrow> 'sig double_echo_command list \<Rightarrow>
   ('db, 'sig) task_manager \<Rightarrow> bool"
  for cfg store where
  start: "tm_run cfg store [] (task_manager_new store)"
| sent: "tm_run cfg store inputs tm \<Longrightarrow> tm_run cfg store (inputs @ [msg]) (tm\<lparr>tm_messages := tm_messages tm @ [msg]\<rparr>)"
| step: "tm_run cfg store inputs tm \<Longrightarrow> tm_step cfg tm tm' \<Longrightarrow> tm_run cfg store inputs tm'"

inductive_cases tm_stepE: "tm_step cfg tm tm'"

end
