(* ===== verification/Task_Manager_Safety.thy ===== *)
theory Task_Manager_Safety
  imports Task_Manager
begin

text \<open>
  What holds in every run of the task manager: the messages reach the task of their
  certificate, a certificate is stored only with a quorum of Ready messages the manager was
  sent, and only after its predecessor.
\<close>

section \<open>The invariant\<close>

fun cmd_certificate_id :: "'sig double_echo_command \<Rightarrow> certificate_id option" where
  "cmd_certificate_id (CmdEcho v cid sg) = Some cid"
| "cmd_certificate_id (CmdReady v cid sg) = Some cid"
| "cmd_certificate_id (CmdBroadcast g cert) = None"

definition routed :: "'sig double_echo_command set \<Rightarrow> certificate_id \<Rightarrow> 'sig double_echo_command list \<Rightarrow> bool" where
  "routed I cid ms \<longleftrightarrow> (\<forall>m \<in> set ms. m \<in> I \<and> cmd_certificate_id m = Some cid)"

definition ready_senders :: "'sig double_echo_command set \<Rightarrow> certificate_id \<Rightarrow> validator_id set" where
  "ready_senders I cid = {v. \<exists>sg. CmdReady v cid sg \<in> I}"

definition tm_all_tasks :: "('db, 'sig) task_manager \<Rightarrow> 'sig task set" where
  "tm_all_tasks tm = set (tm_running tm) \<union> ran (tm_precedence tm)"

text \<open>Every channel carries messages of one certificate, the one \<open>owner\<close> names.\<close>

definition channels_inv ::
  "'sig double_echo_command set \<Rightarrow> (nat \<Rightarrow> certificate_id) \<Rightarrow> ('db, 'sig) task_manager \<Rightarrow> bool" where
  "channels_inv I owner tm \<longleftrightarrow>
     set (tm_messages tm) \<subseteq> I \<and>
     (\<forall>ch. routed I (owner ch) (chan_queue (tm_channels tm ch))) \<and>
     (\<forall>cid ch. tm_tasks tm cid = Some ch \<longrightarrow> owner ch = cid \<and> ch < tm_next_channel tm) \<and>
     (\<forall>(ch, ms) \<in> set (tm_forwarders tm). routed I (owner ch) ms \<and> ch < tm_next_channel tm) \<and>
     (\<forall>ch m. tm_sending tm = Some (ch, m) \<longrightarrow> routed I (owner ch) [m] \<and> ch < tm_next_channel tm) \<and>
     (\<forall>ch \<ge> tm_next_channel tm. chan_queue (tm_channels tm ch) = []) \<and>
     (\<forall>cid ms. tm_buffered tm cid = Some ms \<longrightarrow> routed I cid ms)"

definition task_owned :: "(nat \<Rightarrow> certificate_id) \<Rightarrow> nat \<Rightarrow> 'sig task \<Rightarrow> bool" where
  "task_owned owner n t \<longleftrightarrow> owner (task_channel t) = task_certificate_id t \<and> task_channel t < n"

definition routing_inv ::
  "'sig double_echo_command set \<Rightarrow> (nat \<Rightarrow> certificate_id) \<Rightarrow> ('db, 'sig) task_manager \<Rightarrow> bool" where
  "routing_inv I owner tm \<longleftrightarrow> channels_inv I owner tm \<and>
     (\<forall>t \<in> tm_all_tasks tm. task_owned owner (tm_next_channel tm) t)"

definition task_ok ::
  "('db, 'b, 'sig) tm_config \<Rightarrow> validator_id set \<Rightarrow> 'sig double_echo_command set \<Rightarrow> 'sig task \<Rightarrow> bool" where
  "task_ok cfg V I t \<longleftrightarrow>
     bs_inv (cfg_hex cfg) V (task_state t) \<and>
     task_certificate_id t = cert_id (bs_certificate (task_state t)) \<and>
     bs_delivery_threshold (task_state t) = rp_delivery_threshold (cfg_thresholds cfg) \<and>
     (\<exists>g. CmdBroadcast g (bs_certificate (task_state t)) \<in> I) \<and>
     readies_seen V (task_state t) \<subseteq> ready_senders I (task_certificate_id t)"

definition predecessor_delivered ::
  "('db, 'b, 'sig) tm_config \<Rightarrow> 'db validator_store \<Rightarrow> certificate \<Rightarrow> bool" where
  "predecessor_delivered cfg store c \<longleftrightarrow>
     prev_id c = INITIAL_CERTIFICATE_ID \<or> delivered_of (cfg_env cfg) store (prev_id c) \<noteq> None"

definition chain_inv :: "('db, 'b, 'sig) tm_config \<Rightarrow> ('db, 'sig) task_manager \<Rightarrow> bool" where
  "chain_inv cfg tm \<longleftrightarrow>
     (\<forall>t \<in> set (tm_running tm). predecessor_delivered cfg (tm_store tm) (bs_certificate (task_state t))) \<and>
     (\<forall>k t. tm_precedence tm k = Some t \<longrightarrow> prev_id (bs_certificate (task_state t)) = k)"

text \<open>What a proof of delivery has to show: enough distinct validators, each with a Ready.\<close>

definition quorum_proof ::
  "('db, 'b, 'sig) tm_config \<Rightarrow> validator_id set \<Rightarrow> 'sig double_echo_command set \<Rightarrow> certificate_delivered \<Rightarrow> bool" where
  "quorum_proof cfg V I cd \<longleftrightarrow>
     (let signers = map fst (pod_readies (cd_proof_of_delivery cd)) in
      distinct signers \<and> rp_delivery_threshold (cfg_thresholds cfg) \<le> length signers \<and>
      set signers \<subseteq> validator_id_to_string (cfg_hex cfg) ` (V \<inter> ready_senders I (delivered_id cd)))"

definition published_inv ::
  "('db, 'b, 'sig) tm_config \<Rightarrow> validator_id set \<Rightarrow> 'sig double_echo_command set \<Rightarrow> ('db, 'sig) task_manager \<Rightarrow> bool" where
  "published_inv cfg V I tm \<longleftrightarrow>
     (\<forall>(cd, p) \<in> set (tm_published tm). quorum_proof cfg V I cd \<and> (\<exists>g. CmdBroadcast g (cd_certificate cd) \<in> I) \<and>
        predecessor_delivered cfg (tm_store tm) (cd_certificate cd) \<and>
        delivered_of (cfg_env cfg) (tm_store tm) (delivered_id cd) \<noteq> None)"

definition tm_inv ::
  "('db, 'b, 'sig) tm_config \<Rightarrow> validator_id set \<Rightarrow> 'sig double_echo_command set \<Rightarrow> (nat \<Rightarrow> certificate_id) \<Rightarrow>
   ('db, 'sig) task_manager \<Rightarrow> bool" where
  "tm_inv cfg V I owner tm \<longleftrightarrow> validator_invar (cfg_env cfg) (tm_store tm) \<and> routing_inv I owner tm \<and>
     (\<forall>t \<in> tm_all_tasks tm. task_ok cfg V I t) \<and> chain_inv cfg tm \<and> published_inv cfg V I tm"

section \<open>More commands\<close>

lemma routed_mono: "routed I cid ms \<Longrightarrow> I \<subseteq> J \<Longrightarrow> routed J cid ms"
  by (auto simp: routed_def)

lemma ready_senders_mono: "I \<subseteq> J \<Longrightarrow> ready_senders I cid \<subseteq> ready_senders J cid"
  by (auto simp: ready_senders_def)

lemma routing_inv_mono: "routing_inv I owner tm \<Longrightarrow> I \<subseteq> J \<Longrightarrow> routing_inv J owner tm"
  unfolding routing_inv_def channels_inv_def by (blast intro: routed_mono)

lemma task_ok_mono: "task_ok cfg V I t \<Longrightarrow> I \<subseteq> J \<Longrightarrow> task_ok cfg V J t"
  using ready_senders_mono [of I J "task_certificate_id t"] unfolding task_ok_def by blast

lemma quorum_proof_mono: "quorum_proof cfg V I cd \<Longrightarrow> I \<subseteq> J \<Longrightarrow> quorum_proof cfg V J cd"
  using ready_senders_mono [of I J "delivered_id cd"] unfolding quorum_proof_def Let_def by blast

lemma tm_inv_mono: "tm_inv cfg V I owner tm \<Longrightarrow> I \<subseteq> J \<Longrightarrow> tm_inv cfg V J owner tm"
  unfolding tm_inv_def published_inv_def
  by (auto intro: routing_inv_mono task_ok_mono) (blast intro: quorum_proof_mono)+

lemma tm_inv_sent:
  assumes "tm_inv cfg V I owner tm"
  shows "tm_inv cfg V (insert msg I) owner (tm\<lparr>tm_messages := tm_messages tm @ [msg]\<rparr>)"
proof -
  have inv: "tm_inv cfg V (insert msg I) owner tm" by (rule tm_inv_mono [OF assms subset_insertI])
  then have "routing_inv (insert msg I) owner (tm\<lparr>tm_messages := tm_messages tm @ [msg]\<rparr>)"
    by (simp add: tm_inv_def routing_inv_def channels_inv_def tm_all_tasks_def)
  with inv show ?thesis by (simp add: tm_inv_def tm_all_tasks_def chain_inv_def published_inv_def)
qed

section \<open>Routing\<close>

lemma routed_simps [simp]:
  "routed I cid []" "routed I cid (m # ms) \<longleftrightarrow> m \<in> I \<and> cmd_certificate_id m = Some cid \<and> routed I cid ms"
  "routed I cid (ms @ ns) \<longleftrightarrow> routed I cid ms \<and> routed I cid ns"
  by (auto simp: routed_def)

lemma tm_all_tasks_simps [simp]:
  "tm_all_tasks (tm\<lparr>tm_messages := x1\<rparr>) = tm_all_tasks tm"
  "tm_all_tasks (tm\<lparr>tm_tasks := x2\<rparr>) = tm_all_tasks tm"
  "tm_all_tasks (tm\<lparr>tm_buffered := x3\<rparr>) = tm_all_tasks tm"
  "tm_all_tasks (tm\<lparr>tm_channels := x4\<rparr>) = tm_all_tasks tm"
  "tm_all_tasks (tm\<lparr>tm_next_channel := x5\<rparr>) = tm_all_tasks tm"
  "tm_all_tasks (tm\<lparr>tm_forwarders := x6\<rparr>) = tm_all_tasks tm"
  "tm_all_tasks (tm\<lparr>tm_sending := x7\<rparr>) = tm_all_tasks tm"
  "tm_all_tasks (tm\<lparr>tm_completions := x8\<rparr>) = tm_all_tasks tm"
  "tm_all_tasks (tm\<lparr>tm_published := x9\<rparr>) = tm_all_tasks tm"
  "tm_all_tasks (tm\<lparr>tm_panicked := x10\<rparr>) = tm_all_tasks tm"
  "tm_all_tasks (tm\<lparr>tm_store := x11\<rparr>) = tm_all_tasks tm"
  by (simp_all add: tm_all_tasks_def)

lemma routing_inv_simps [simp]:
  "routing_inv I owner (tm\<lparr>tm_completions := x8\<rparr>) = routing_inv I owner tm"
  "routing_inv I owner (tm\<lparr>tm_published := x9\<rparr>) = routing_inv I owner tm"
  "routing_inv I owner (tm\<lparr>tm_panicked := x10\<rparr>) = routing_inv I owner tm"
  "routing_inv I owner (tm\<lparr>tm_store := x11\<rparr>) = routing_inv I owner tm"
  "channels_inv I owner (tm\<lparr>tm_running := x12\<rparr>) = channels_inv I owner tm"
  "channels_inv I owner (tm\<lparr>tm_precedence := x13\<rparr>) = channels_inv I owner tm"
  by (simp_all add: routing_inv_def channels_inv_def)

text \<open>Changing the tasks only.\<close>

lemma routing_tasks:
  assumes "routing_inv I owner tm" and "channels_inv I owner tm \<Longrightarrow> channels_inv I owner tm'"
    and "tm_next_channel tm' = tm_next_channel tm" and "tm_all_tasks tm' \<subseteq> N \<union> tm_all_tasks tm"
    and "\<And>t. t \<in> N \<Longrightarrow> task_owned owner (tm_next_channel tm) t"
  shows "routing_inv I owner tm'"
  using assms unfolding routing_inv_def by auto

lemma routing_close_channel:
  "routing_inv I owner tm \<Longrightarrow> routing_inv I owner (close_channel ch tm)"
  by (simp add: routing_inv_def channels_inv_def close_channel_def)

lemma routing_route_message:
  assumes "routing_inv I owner tm" and "msg \<in> I" and "cmd_certificate_id msg = Some cid"
  shows "routing_inv I owner (route_message cid msg tm)"
proof (cases "tm_tasks tm cid")
  case None
  then show ?thesis using assms by (simp add: route_message_def routing_inv_def channels_inv_def split: option.split)
next
  case (Some sink)
  then have "owner sink = cid" "sink < tm_next_channel tm" using assms(1) by (simp_all add: routing_inv_def channels_inv_def)
  with Some show ?thesis using assms by (simp add: route_message_def routing_inv_def channels_inv_def)
qed

lemma routing_channel_send:
  assumes "routing_inv I owner tm" and "channel_send ch msg tm = Some tm'" and "routed I (owner ch) [msg]"
    and "ch < tm_next_channel tm"
  shows "routing_inv I owner tm'"
  using assms by (auto simp: channel_send_def routing_inv_def channels_inv_def Let_def split: if_splits)

lemma tm_all_tasks_forget:
  "tm_all_tasks (tm\<lparr>tm_precedence := (tm_precedence tm)(cid := None)\<rparr>) \<subseteq> tm_all_tasks tm"
  "tm_all_tasks (tm\<lparr>tm_running := take i (tm_running tm) @ drop (Suc i) (tm_running tm)\<rparr>) \<subseteq> tm_all_tasks tm"
  by (auto simp: tm_all_tasks_def ran_def dest: in_set_takeD in_set_dropD split: if_splits)

lemma routing_forget:
  assumes "routing_inv I owner tm"
  shows "routing_inv I owner (tm\<lparr>tm_tasks := (tm_tasks tm)(cid := None)\<rparr>)"
    and "routing_inv I owner (tm\<lparr>tm_buffered := (tm_buffered tm)(cid := None)\<rparr>)"
    and "routing_inv I owner (tm\<lparr>tm_sending := None\<rparr>)"
    and "routing_inv I owner (tm\<lparr>tm_precedence := (tm_precedence tm)(cid := None)\<rparr>)"
    and "routing_inv I owner (tm\<lparr>tm_running := take i (tm_running tm) @ drop (Suc i) (tm_running tm)\<rparr>)"
proof -
  show "routing_inv I owner (tm\<lparr>tm_precedence := (tm_precedence tm)(cid := None)\<rparr>)"
    by (rule routing_tasks [OF assms, of _ "{}"]) (use tm_all_tasks_forget in simp_all)
  show "routing_inv I owner (tm\<lparr>tm_running := take i (tm_running tm) @ drop (Suc i) (tm_running tm)\<rparr>)"
    by (rule routing_tasks [OF assms, of _ "{}"]) (use tm_all_tasks_forget in simp_all)
qed (use assms in \<open>simp_all add: routing_inv_def channels_inv_def\<close>)

lemma tm_all_tasks_start [simp]: "tm_all_tasks (start_task t sink messages tm) = insert t (tm_all_tasks tm)"
  by (auto simp: tm_all_tasks_def start_task_def)

lemma routing_start_task:
  assumes "routing_inv I owner tm" and "task_owned owner (tm_next_channel tm) t"
    and "sink < tm_next_channel tm" and "\<And>ms. messages = Some ms \<Longrightarrow> routed I (owner sink) ms"
  shows "routing_inv I owner (start_task t sink messages tm)"
proof (rule routing_tasks [OF assms(1), of _ "{t}"])
  show "channels_inv I owner (start_task t sink messages tm)" if "channels_inv I owner tm"
    using that assms(3,4) by (cases messages) (simp_all add: start_task_def channels_inv_def)
  show "tm_next_channel (start_task t sink messages tm) = tm_next_channel tm" by (simp add: start_task_def)
qed (use assms(2) in simp_all)

lemma tm_all_tasks_insert_precedence:
  "tm_all_tasks (insert_precedence prev t tm) \<subseteq> insert t (tm_all_tasks tm)"
  by (auto simp: insert_precedence_def close_channel_def tm_all_tasks_def ran_def split: option.splits if_splits)

lemma routing_insert_precedence:
  assumes "routing_inv I owner tm" and "task_owned owner (tm_next_channel tm) t"
  shows "routing_inv I owner (insert_precedence prev t tm)"
proof (rule routing_tasks [OF assms(1), of _ "{t}"])
  show "channels_inv I owner (insert_precedence prev t tm)"
    using routing_close_channel [OF assms(1)] assms(1)
    by (auto simp: insert_precedence_def Let_def routing_inv_def split: option.split)
qed (use assms(2) tm_all_tasks_insert_precedence [of prev t tm] in
    \<open>auto simp: insert_precedence_def close_channel_def Let_def split: option.split\<close>)

section \<open>Tasks and the store\<close>

text \<open>What the invariant says without the routing, for a change that adds the tasks \<open>N\<close>.\<close>

lemma tm_inv_tasks:
  assumes "tm_inv cfg V I owner tm" and "routing_inv I owner' tm'" and "tm_all_tasks tm' \<subseteq> N \<union> tm_all_tasks tm"
    and "\<And>t. t \<in> N \<Longrightarrow> task_ok cfg V I t" and "chain_inv cfg tm'"
    and "tm_store tm' = tm_store tm" and "tm_published tm' = tm_published tm"
  shows "tm_inv cfg V I owner' tm'"
  using assms unfolding tm_inv_def published_inv_def by auto

lemma tm_inv_frame:
  assumes "tm_inv cfg V I owner tm" and "routing_inv I owner tm'"
    and "tm_running tm' = tm_running tm" and "tm_precedence tm' = tm_precedence tm"
    and "tm_store tm' = tm_store tm" and "tm_published tm' = tm_published tm"
  shows "tm_inv cfg V I owner tm'"
  using assms unfolding tm_inv_def published_inv_def chain_inv_def tm_all_tasks_def by simp

lemma tm_inv_panicked [simp]: "tm_inv cfg V I owner (tm\<lparr>tm_panicked := b\<rparr>) = tm_inv cfg V I owner tm"
  by (simp add: tm_inv_def chain_inv_def published_inv_def)

lemma tm_inv_close_channel:
  assumes "tm_inv cfg V I owner tm"
  shows "tm_inv cfg V I owner (close_channel ch tm)"
  by (rule tm_inv_frame [OF assms])
    (use assms in \<open>simp add: tm_inv_def routing_close_channel\<close>, simp_all add: close_channel_def)

lemma tm_inv_route_message:
  assumes "tm_inv cfg V I owner tm" and "msg \<in> I" and "cmd_certificate_id msg = Some cid"
  shows "tm_inv cfg V I owner (route_message cid msg tm)"
  using assms by (intro tm_inv_frame [OF assms(1)])
    (simp_all add: tm_inv_def routing_route_message, simp_all add: route_message_def split: option.split)

lemma tm_inv_channel_send:
  assumes "tm_inv cfg V I owner tm" and "channel_send ch msg tm = Some tm'" and "routed I (owner ch) [msg]"
    and "ch < tm_next_channel tm"
  shows "tm_inv cfg V I owner tm'"
proof -
  have "routing_inv I owner tm" using assms(1) by (simp add: tm_inv_def)
  from routing_channel_send [OF this assms(2-4)] show ?thesis
    by (rule tm_inv_frame [OF assms(1)]) (use assms(2) in \<open>auto simp: channel_send_def Let_def split: if_splits\<close>)
qed

lemma new_task_ok:
  assumes "finite V" and "cfg_subscriptions cfg = full_view V" and "CmdBroadcast g cert \<in> I"
  shows "task_ok cfg V I (task_new (cert_id cert) (broadcast_state_new cert (cfg_validator_id cfg)
    (rp_echo_threshold (cfg_thresholds cfg)) (rp_ready_threshold (cfg_thresholds cfg))
    (rp_delivery_threshold (cfg_thresholds cfg)) (cfg_subscriptions cfg) g (cfg_signer cfg)) ch)"
  using assms by (auto simp: task_ok_def task_new_def broadcast_state_new_inv)

lemma tm_inv_create_task:
  assumes inv: "tm_inv cfg V I owner tm" and "finite V" and "cfg_subscriptions cfg = full_view V"
    and "CmdBroadcast g cert \<in> I" and "wf_certificate cert" and free: "tm_tasks tm (cert_id cert) = None"
  shows "\<exists>owner'. tm_inv cfg V I owner' (create_task cfg g cert tm)"
proof -
  let ?ch = "tm_next_channel tm" and ?cid = "cert_id cert"
  define t where "t = task_new ?cid (broadcast_state_new cert (cfg_validator_id cfg)
    (rp_echo_threshold (cfg_thresholds cfg)) (rp_ready_threshold (cfg_thresholds cfg))
    (rp_delivery_threshold (cfg_thresholds cfg)) (cfg_subscriptions cfg) g (cfg_signer cfg)) ?ch"
  let ?owner = "owner(?ch := ?cid)" and ?tm = "tm\<lparr>tm_next_channel := Suc ?ch\<rparr>"
  have t: "task_ok cfg V I t" "task_channel t = ?ch" "task_certificate_id t = ?cid" "bs_certificate (task_state t) = cert"
    using new_task_ok [OF assms(2-4)] by (simp_all add: t_def task_new_def)
  have r: "channels_inv I owner tm" "\<forall>t \<in> tm_all_tasks tm. task_owned owner ?ch t"
    using inv by (simp_all add: tm_inv_def routing_inv_def)
  have "channels_inv I ?owner ?tm"
    using r(1) unfolding channels_inv_def by (auto simp: less_Suc_eq)
  moreover have "\<forall>t \<in> tm_all_tasks tm. task_owned ?owner (Suc ?ch) t"
    using r(2) by (auto simp: task_owned_def)
  ultimately have route: "routing_inv I ?owner ?tm" by (simp add: routing_inv_def)
  have own: "task_owned ?owner (tm_next_channel ?tm) t" using t by (simp add: task_owned_def)
  have buf: "routed I (?owner ?ch) ms" if "tm_buffered ?tm ?cid = Some ms" for ms
    using r(1) that by (simp add: channels_inv_def)
  let ?prev = "validator_get_certificate (cfg_env cfg) (prev_id cert) (tm_store tm)"
  have chain: "chain_inv cfg tm" using inv by (simp add: tm_inv_def)
  have fin: "routing_inv I ?owner (x\<lparr>tm_tasks := (tm_tasks x)(?cid \<mapsto> ?ch)\<rparr>)"
    if "routing_inv I ?owner x" "tm_next_channel x = Suc ?ch" for x :: "('a, 'c) task_manager"
    using that by (simp add: routing_inv_def channels_inv_def)
  show ?thesis
  proof (cases "(case ?prev of Inr (Some _) \<Rightarrow> True | _ \<Rightarrow> False) \<or> prev_id cert = INITIAL_CERTIFICATE_ID")
    case True
    let ?x = "start_task t ?ch (tm_buffered ?tm ?cid) (?tm\<lparr>tm_buffered := (tm_buffered ?tm)(?cid := None)\<rparr>)"
    have x: "create_task cfg g cert tm = ?x\<lparr>tm_tasks := (tm_tasks ?x)(?cid \<mapsto> ?ch)\<rparr>"
      using True unfolding create_task_def Let_def t_def [symmetric] by simp
    have "predecessor_delivered cfg (tm_store tm) cert"
      using True validator.get_ok [of "cfg_env cfg" "tm_store tm" "prev_id cert"] inv assms(5)
      by (auto simp: predecessor_delivered_def tm_inv_def wf_certificate_def split: sum.splits option.splits)
    then have "chain_inv cfg (?x\<lparr>tm_tasks := (tm_tasks ?x)(?cid \<mapsto> ?ch)\<rparr>)"
      using chain t(4) by (simp add: chain_inv_def start_task_def)
    moreover have "routing_inv I ?owner ?x"
      by (rule routing_start_task [OF routing_forget(2) [OF route]]) (use own buf in simp_all)
    ultimately show ?thesis
      unfolding x using t(1)
      by (intro exI [of _ ?owner] tm_inv_tasks [OF inv, where N = "{t}"] fin)
        (simp_all, simp_all add: start_task_def)
  next
    case False
    let ?x = "insert_precedence (prev_id cert) t ?tm"
    have x: "create_task cfg g cert tm = ?x\<lparr>tm_tasks := (tm_tasks ?x)(?cid \<mapsto> ?ch)\<rparr>"
      using False unfolding create_task_def Let_def t_def [symmetric] by simp
    have fields: "tm_running ?x = tm_running tm" "tm_precedence ?x = (tm_precedence tm)(prev_id cert \<mapsto> t)"
      "tm_store ?x = tm_store tm" "tm_published ?x = tm_published tm" "tm_next_channel ?x = Suc ?ch"
      by (simp_all add: insert_precedence_def close_channel_def Let_def split: option.split)
    have "chain_inv cfg (?x\<lparr>tm_tasks := (tm_tasks ?x)(?cid \<mapsto> ?ch)\<rparr>)"
      using chain t(4) by (simp add: chain_inv_def fields)
    then show ?thesis
      unfolding x using t(1) routing_insert_precedence [OF route own] tm_all_tasks_insert_precedence [of "prev_id cert" t ?tm]
      by (intro exI [of _ ?owner] tm_inv_tasks [OF inv, where N = "{t}"] fin) (auto simp: fields)
  qed
qed

lemma start_waiting_inv:
  assumes inv: "tm_inv cfg V I owner tm" and "tm_precedence tm cid = Some t"
    and "cid = INITIAL_CERTIFICATE_ID \<or> delivered_of (cfg_env cfg) (tm_store tm) cid \<noteq> None"
    and "tm_tasks tm (task_certificate_id t) = Some sink"
  defines "tm' \<equiv> tm\<lparr>tm_precedence := (tm_precedence tm)(cid := None),
    tm_buffered := (tm_buffered tm)(task_certificate_id t := None)\<rparr>"
  shows "tm_inv cfg V I owner (start_task t sink (tm_buffered tm (task_certificate_id t)) tm')"
proof -
  have member: "t \<in> tm_all_tasks tm" using assms(2) by (auto simp: tm_all_tasks_def ranI)
  have r: "routing_inv I owner tm" "\<forall>t \<in> tm_all_tasks tm. task_ok cfg V I t" "chain_inv cfg tm"
    using inv by (simp_all add: tm_inv_def)
  then have own: "task_owned owner (tm_next_channel tm) t" using member by (simp add: routing_inv_def)
  have sink: "owner sink = task_certificate_id t" "sink < tm_next_channel tm"
    using r(1) assms(4) by (simp_all add: routing_inv_def channels_inv_def)
  have buf: "routed I (owner sink) ms" if "tm_buffered tm (task_certificate_id t) = Some ms" for ms
    using r(1) that sink by (simp add: routing_inv_def channels_inv_def)
  have route: "routing_inv I owner (start_task t sink (tm_buffered tm (task_certificate_id t)) tm')"
    unfolding tm'_def using routing_forget(2) [OF routing_forget(4) [OF r(1)]] own sink buf
    by (intro routing_start_task) simp_all
  have "prev_id (bs_certificate (task_state t)) = cid" using r(3) assms(2) by (simp add: chain_inv_def)
  then have chain: "chain_inv cfg (start_task t sink (tm_buffered tm (task_certificate_id t)) tm')"
    using r(3) assms(3) by (simp add: chain_inv_def start_task_def tm'_def predecessor_delivered_def)
  have "tm_all_tasks tm' \<subseteq> tm_all_tasks tm" using tm_all_tasks_forget(1) by (simp add: tm'_def)
  then show ?thesis
    using member r(2) by (intro tm_inv_tasks [OF inv route, where N = "{}"] chain)
      (simp_all, simp_all add: start_task_def tm'_def)
qed

lemma tm_inv_task_finished:
  assumes inv: "tm_inv cfg V I owner tm"
    and "st = TaskSuccess \<Longrightarrow> delivered_of (cfg_env cfg) (tm_store tm) cid \<noteq> None"
  shows "tm_inv cfg V I owner (task_finished cid st tm)"
proof (cases "st = TaskSuccess")
  case True
  let ?tm = "tm\<lparr>tm_tasks := (tm_tasks tm)(cid := None), tm_completions := tm_completions tm @ [(cid, st)]\<rparr>"
  have "routing_inv I owner tm" using inv by (simp add: tm_inv_def)
  from routing_forget(1) [OF this, of cid] have route: "routing_inv I owner ?tm" by simp
  have inv': "tm_inv cfg V I owner ?tm" by (rule tm_inv_frame [OF inv route]) simp_all
  show ?thesis
  proof (cases "tm_precedence tm cid")
    case None
    then show ?thesis using True inv' by (simp add: task_finished_def)
  next
    case (Some t)
    have close: "tm_inv cfg V I owner (?tm\<lparr>tm_precedence := (tm_precedence ?tm)(cid := None)\<rparr>)"
      using inv' tm_all_tasks_forget(1) [of ?tm cid]
      by (intro tm_inv_tasks [OF inv' routing_forget(4) [OF route], where N = "{}"])
        (auto simp: tm_inv_def chain_inv_def)
    show ?thesis
      using True Some start_waiting_inv [OF inv', of cid t] tm_inv_close_channel [OF close] assms(2)
      by (auto simp: task_finished_def Let_def split: option.split)
  qed
qed (use assms in \<open>simp add: task_finished_def\<close>)

lemma tm_inv_end_task:
  assumes inv: "tm_inv cfg V I owner tm"
    and "st = TaskSuccess \<Longrightarrow> delivered_of (cfg_env cfg) (tm_store tm) (task_certificate_id (tm_running tm ! i)) \<noteq> None"
  shows "tm_inv cfg V I owner (end_task i st tm)"
proof -
  let ?tm = "tm\<lparr>tm_running := take i (tm_running tm) @ drop (Suc i) (tm_running tm)\<rparr>"
  have "routing_inv I owner tm" using inv by (simp add: tm_inv_def)
  then have "routing_inv I owner ?tm" by (rule routing_forget(5))
  moreover have "chain_inv cfg ?tm"
    using inv by (auto simp: tm_inv_def chain_inv_def dest: in_set_takeD in_set_dropD)
  ultimately have "tm_inv cfg V I owner ?tm"
    using tm_all_tasks_forget(2) [of i tm] by (intro tm_inv_tasks [OF inv, where N = "{}"]) simp_all
  from tm_inv_close_channel [OF this] show ?thesis
    unfolding end_task_def Let_def using assms(2)
    by (intro tm_inv_task_finished) (simp_all add: close_channel_def)
qed

section \<open>Polling a task\<close>

lemma update_status_result: "snd (update_status s) = Some st \<Longrightarrow> bs_status (fst (update_status s)) = st"
  by (cases s rule: update_status_cases) auto

lemma task_apply_alt:
  "task_apply H msg s = (case msg of CmdEcho v _ _ \<Rightarrow> apply_message H (MEcho v) s
     | CmdReady v _ _ \<Rightarrow> apply_message H (MReady v) s | CmdBroadcast _ _ \<Rightarrow> (s, None))"
  by (simp add: task_apply_def split: double_echo_command.split)

lemma task_apply_status:
  "snd (task_apply H msg s) = Some st \<Longrightarrow> bs_status (fst (task_apply H msg s)) = st"
  by (auto simp: task_apply_def apply_echo_alt apply_ready_alt update_status_result
      split: double_echo_command.splits if_splits)

lemma task_apply_certificate [simp]: "bs_certificate (fst (task_apply H msg s)) = bs_certificate s"
  by (simp add: task_apply_alt split: double_echo_command.split del: apply_message.simps)

lemma task_apply_ok:
  assumes "task_ok cfg V I t" and "msg \<in> I" and "cmd_certificate_id msg = Some (task_certificate_id t)"
  shows "task_ok cfg V I (t\<lparr>task_state := fst (task_apply (cfg_hex cfg) msg (task_state t))\<rparr>)"
proof -
  have inv: "bs_inv (cfg_hex cfg) V (task_state t)" using assms(1) by (simp add: task_ok_def)
  note seen = apply_message_seen(2) [OF inv]
  show ?thesis
  proof (cases msg)
    case (CmdEcho v cid sg)
    then show ?thesis
      using assms(1) apply_message_inv [OF inv] seen
      by (auto simp: task_ok_def task_apply_alt simp del: apply_message.simps)
  next
    case (CmdReady v cid sg)
    then have "v \<in> ready_senders I (task_certificate_id t)" using assms(2,3) by (auto simp: ready_senders_def)
    then show ?thesis
      using assms(1) CmdReady apply_message_inv [OF inv] seen
      by (auto simp: task_ok_def task_apply_alt simp del: apply_message.simps)
  qed (use assms in simp)
qed

lemma persist_cases:
  assumes "task_ok cfg V I t" and "finite V" and "hex_laws (cfg_hex cfg)" and "hash_iter_laws (cfg_iter cfg)"
    and "is_delivered (bs_status (task_state t))" and "wf_certificate (bs_certificate (task_state t))"
    and "persist cfg t store = (store', r)"
  obtains (panic) "r = Inl Panic" "store' = store"
  | (failed) cd e where "r = Inl (Failed e)" "acceptable cd" "validator_insert_certificate_delivered (cfg_env cfg) cd store = (store', Inl e)"
  | (stored) cd p where "r = Inr (cd, p)" "acceptable cd" "cd_certificate cd = bs_certificate (task_state t)"
      "quorum_proof cfg V I cd" "validator_insert_certificate_delivered (cfg_env cfg) cd store = (store', Inr p)"
proof (cases "into_delivered (cfg_iter cfg) (task_state t)")
  case (Inl e)
  then show thesis using assms(7) that(1) by (simp add: persist_def)
next
  case (Inr cd)
  let ?s = "task_state t" and ?R = "readies_seen V (task_state t)"
  have inv: "bs_inv (cfg_hex cfg) V ?s" using assms(1) by (simp add: task_ok_def)
  then have fin: "finite ?R" using assms(2) by (simp add: readies_seen_def)
  have readies: "bs_readies ?s = validator_id_to_string (cfg_hex cfg) ` ?R"
    and enough: "rp_delivery_threshold (cfg_thresholds cfg) \<le> card ?R"
    using inv assms(1,5) by (simp_all add: bs_inv_def bs_view_inv_def bs_status_inv_def task_ok_def)
  have it: "set (cfg_iter cfg (bs_readies ?s)) = bs_readies ?s" "distinct (cfg_iter cfg (bs_readies ?s))"
    using assms(4) fin readies by (simp_all add: hash_iter_laws_def)
  have "length (cfg_iter cfg (bs_readies ?s)) = card ?R"
    using it readies card_image [OF inj_on_subset [OF inj_validator_id_to_string [OF assms(3)] subset_UNIV]]
    by (metis distinct_card)
  moreover have cd: "cd_certificate cd = bs_certificate ?s" "src_subnet_id (delivery_position (cd_proof_of_delivery cd)) = source_subnet_id (bs_certificate ?s)"
    "map fst (pod_readies (cd_proof_of_delivery cd)) = cfg_iter cfg (bs_readies ?s)"
    using Inr by (auto simp: into_delivered_def comp_def split: option.splits)
  moreover have "?R \<subseteq> V \<inter> ready_senders I (cert_id (bs_certificate ?s))"
    using assms(1) by (auto simp: task_ok_def readies_seen_def)
  ultimately have "quorum_proof cfg V I cd"
    using it readies enough by (auto simp: quorum_proof_def Let_def)
  moreover have "acceptable cd"
    using cd assms(6) by (simp add: acceptable_def wf_delivered_def own_stream_def wf_source_position_def wf_certificate_def)
  ultimately show thesis
    using assms(7) Inr cd(1) that(2,3)
    by (cases "validator_insert_certificate_delivered (cfg_env cfg) cd store"; cases "snd (validator_insert_certificate_delivered (cfg_env cfg) cd store)")
      (auto simp: persist_def)
qed

text \<open>A store that has more certificates.\<close>

definition store_extends ::
  "('db, 'b, 'sig) tm_config \<Rightarrow> 'db validator_store \<Rightarrow> 'db validator_store \<Rightarrow> bool" where
  "store_extends cfg s s' \<longleftrightarrow> validator_invar (cfg_env cfg) s' \<and>
     dom (delivered_of (cfg_env cfg) s) \<subseteq> dom (delivered_of (cfg_env cfg) s')"

lemma insert_extends:
  assumes "validator_invar (cfg_env cfg) s" and "acceptable cd"
    and "validator_insert_certificate_delivered (cfg_env cfg) cd s = (s', r)"
  shows "store_extends cfg s s'" and "r = Inr p \<Longrightarrow> delivered_of (cfg_env cfg) s' (delivered_id cd) = Some cd"
proof -
  have "validator_invar (cfg_env cfg) s'" using validator.invar_insert [OF assms(1,2)] assms(3) by simp
  then show "store_extends cfg s s'"
    using validator.insert_ok [OF assms(1,2), of s'] validator.insert_err [OF assms(1,2), of s'] assms(3)
    by (cases r) (fastforce simp: store_extends_def)+
  show "r = Inr p \<Longrightarrow> delivered_of (cfg_env cfg) s' (delivered_id cd) = Some cd"
    using validator.insert_ok [OF assms(1,2), of s' p] assms(3) by simp
qed

lemma tm_inv_store:
  assumes "tm_inv cfg V I owner tm" and "store_extends cfg (tm_store tm) store'"
  shows "tm_inv cfg V I owner (tm\<lparr>tm_store := store'\<rparr>)"
proof -
  have pred: "predecessor_delivered cfg store' c" if "predecessor_delivered cfg (tm_store tm) c" for c
    using that assms(2) by (auto simp: predecessor_delivered_def store_extends_def)
  have dom: "delivered_of (cfg_env cfg) store' k \<noteq> None" if "delivered_of (cfg_env cfg) (tm_store tm) k \<noteq> None" for k
    using that assms(2) by (auto simp: store_extends_def)
  show ?thesis
    using assms pred dom unfolding tm_inv_def chain_inv_def published_inv_def store_extends_def by fastforce
qed

lemma tm_inv_published:
  assumes "tm_inv cfg V I owner tm" and "quorum_proof cfg V I cd" and "CmdBroadcast g (cd_certificate cd) \<in> I"
    and "predecessor_delivered cfg (tm_store tm) (cd_certificate cd)"
    and "delivered_of (cfg_env cfg) (tm_store tm) (delivered_id cd) \<noteq> None"
  shows "tm_inv cfg V I owner (tm\<lparr>tm_published := tm_published tm @ [(cd, p)]\<rparr>)"
  using assms unfolding tm_inv_def published_inv_def by (auto simp: chain_inv_def)

text \<open>Replacing a running task by one for the same certificate.\<close>

lemma tm_inv_replace:
  assumes inv: "tm_inv cfg V I owner tm" and i: "i < length (tm_running tm)"
    and "task_ok cfg V I t" and "task_channel t = task_channel (tm_running tm ! i)"
    and "bs_certificate (task_state t) = bs_certificate (task_state (tm_running tm ! i))"
  shows "tm_inv cfg V I owner (tm\<lparr>tm_running := (tm_running tm)[i := t]\<rparr>)"
proof -
  let ?old = "tm_running tm ! i" and ?tm = "tm\<lparr>tm_running := (tm_running tm)[i := t]\<rparr>"
  have old: "?old \<in> set (tm_running tm)" using i by simp
  then have "task_ok cfg V I ?old" "task_owned owner (tm_next_channel tm) ?old"
    and pred: "predecessor_delivered cfg (tm_store tm) (bs_certificate (task_state ?old))"
    using inv by (auto simp: tm_inv_def routing_inv_def tm_all_tasks_def chain_inv_def)
  then have own: "task_owned owner (tm_next_channel tm) t"
    using assms(3-5) by (simp add: task_owned_def task_ok_def)
  have sub: "tm_all_tasks ?tm \<subseteq> {t} \<union> tm_all_tasks tm"
    using set_update_subset_insert [of "tm_running tm" i t] by (auto simp: tm_all_tasks_def)
  have "routing_inv I owner tm" using inv by (simp add: tm_inv_def)
  then have "routing_inv I owner ?tm"
    by (rule routing_tasks [where N = "{t}"]) (use own sub in simp_all)
  moreover have "chain_inv cfg ?tm"
    using inv pred assms(5) set_update_subset_insert [of "tm_running tm" i t]
    unfolding tm_inv_def chain_inv_def by fastforce
  ultimately show ?thesis using assms(3) sub by (intro tm_inv_tasks [OF inv, where N = "{t}"]) simp_all
qed

lemma task_start_ok:
  assumes "task_start cfg store t = Inr t'" and "task_ok cfg V I t"
  shows "task_ok cfg V I t'" and "task_channel t' = task_channel t"
    and "bs_certificate (task_state t') = bs_certificate (task_state t)"
  using assms
  by (auto simp: task_start_def task_ok_def bs_inv_def bs_status_inv_def split: sum.splits option.splits)

lemma tm_inv_pop:
  assumes "tm_inv cfg V I owner tm" and "chan_queue (tm_channels tm ch) = msg # rest"
  shows "tm_inv cfg V I owner (tm\<lparr>tm_channels := (tm_channels tm)(ch := (tm_channels tm ch)\<lparr>chan_queue := rest\<rparr>)\<rparr>)"
    and "msg \<in> I" and "cmd_certificate_id msg = Some (owner ch)"
proof -
  have r: "routing_inv I owner tm" using assms(1) by (simp add: tm_inv_def)
  then have m: "routed I (owner ch) (msg # rest)" using assms(2) unfolding routing_inv_def channels_inv_def by metis
  then show "msg \<in> I" "cmd_certificate_id msg = Some (owner ch)" by simp_all
  have "routing_inv I owner (tm\<lparr>tm_channels := (tm_channels tm)(ch := (tm_channels tm ch)\<lparr>chan_queue := rest\<rparr>)\<rparr>)"
    using r m assms(2) by (auto simp: routing_inv_def channels_inv_def)
  then show "tm_inv cfg V I owner (tm\<lparr>tm_channels := (tm_channels tm)(ch := (tm_channels tm ch)\<lparr>chan_queue := rest\<rparr>)\<rparr>)"
    by (rule tm_inv_frame [OF assms(1)]) simp_all
qed

text \<open>What the proofs assume of the configuration and of the commands.\<close>

definition tm_laws :: "('db, 'b, 'sig) tm_config \<Rightarrow> validator_id set \<Rightarrow> 'sig double_echo_command set \<Rightarrow> bool" where
  "tm_laws cfg V I \<longleftrightarrow> finite V \<and> cfg_subscriptions cfg = full_view V \<and> hex_laws (cfg_hex cfg) \<and>
     hash_iter_laws (cfg_iter cfg) \<and> (\<forall>g cert. CmdBroadcast g cert \<in> I \<longrightarrow> wf_certificate cert)"

lemma running_task:
  assumes "tm_inv cfg V I owner tm" and "i < length (tm_running tm)"
  shows "task_ok cfg V I (tm_running tm ! i)"
    and "predecessor_delivered cfg (tm_store tm) (bs_certificate (task_state (tm_running tm ! i)))"
    and "owner (task_channel (tm_running tm ! i)) = task_certificate_id (tm_running tm ! i)"
  using assms nth_mem [OF assms(2)]
  by (auto simp: tm_inv_def chain_inv_def tm_all_tasks_def routing_inv_def task_owned_def)

lemma task_message_alt:
  "task_message cfg msg t store =
     (let t' = t\<lparr>task_state := fst (task_apply (cfg_hex cfg) msg (task_state t))\<rparr> in
      if snd (task_apply (cfg_hex cfg) msg (task_state t)) = Some DeliveredWithReadySent
      then (fst (persist cfg t' store), case snd (persist cfg t' store) of
          Inr p \<Rightarrow> PollReady TaskSuccess (Some p) | Inl (Failed _) \<Rightarrow> PollReady TaskFailure None | Inl Panic \<Rightarrow> PollPanic)
      else (store, PollPending t'))"
  by (auto simp: task_message_def Let_def case_prod_unfold split: sum.split failure.split)

lemma tm_inv_task_message:
  assumes laws: "tm_laws cfg V I" and inv: "tm_inv cfg V I owner tm" and i: "i < length (tm_running tm)"
    and msg: "msg \<in> I" "cmd_certificate_id msg = Some (task_certificate_id (tm_running tm ! i))"
    and out: "task_message cfg msg (tm_running tm ! i) (tm_store tm) = (store', r)"
  shows "case r of
      PollPending t \<Rightarrow> tm_inv cfg V I owner (tm\<lparr>tm_running := (tm_running tm)[i := t], tm_store := store'\<rparr>)
    | PollReady st p \<Rightarrow> tm_inv cfg V I owner (end_task i st (tm\<lparr>tm_store := store',
        tm_published := tm_published tm @ (case p of None \<Rightarrow> [] | Some d \<Rightarrow> [d])\<rparr>))
    | PollPanic \<Rightarrow> tm_inv cfg V I owner (tm\<lparr>tm_store := store', tm_panicked := True\<rparr>)"
proof -
  let ?t = "tm_running tm ! i"
  define t where "t = ?t\<lparr>task_state := fst (task_apply (cfg_hex cfg) msg (task_state ?t))\<rparr>"
  have t: "task_ok cfg V I t" unfolding t_def by (rule task_apply_ok [OF running_task(1) [OF inv i] msg])
  have cert: "bs_certificate (task_state t) = bs_certificate (task_state ?t)" by (simp add: t_def)
  obtain g where g: "CmdBroadcast g (bs_certificate (task_state t)) \<in> I" using t by (auto simp: task_ok_def)
  then have wf: "wf_certificate (bs_certificate (task_state t))" using laws by (auto simp: tm_laws_def)
  have sinv: "validator_invar (cfg_env cfg) (tm_store tm)" using inv by (simp add: tm_inv_def)
  show ?thesis
  proof (cases "snd (task_apply (cfg_hex cfg) msg (task_state ?t)) = Some DeliveredWithReadySent")
    case False
    then have "r = PollPending t" "store' = tm_store tm"
      using out by (simp_all add: task_message_alt flip: t_def)
    then show ?thesis
      using tm_inv_replace [OF inv i t _ cert] by (simp add: t_def)
  next
    case True
    then have "is_delivered (bs_status (task_state t))" using task_apply_status [OF True] by (simp add: t_def)
    define q where "q = snd (persist cfg t (tm_store tm))"
    have q: "persist cfg t (tm_store tm) = (store', q)"
      and r: "r = (case q of Inr p \<Rightarrow> PollReady TaskSuccess (Some p) | Inl (Failed _) \<Rightarrow> PollReady TaskFailure None
        | Inl Panic \<Rightarrow> PollPanic)"
      using True out by (simp_all add: task_message_alt q_def flip: t_def, auto)
    have "finite V" "hex_laws (cfg_hex cfg)" "hash_iter_laws (cfg_iter cfg)" using laws by (simp_all add: tm_laws_def)
    from t this \<open>is_delivered _\<close> wf q show ?thesis
    proof (cases rule: persist_cases)
      case panic
      then show ?thesis using inv r by simp
    next
      case (failed cd e)
      then have "tm_inv cfg V I owner (tm\<lparr>tm_store := store'\<rparr>)"
        using tm_inv_store [OF inv insert_extends(1) [OF sinv]] by blast
      from tm_inv_end_task [OF this, of TaskFailure] failed r show ?thesis by simp
    next
      case (stored cd p)
      note ext = insert_extends [OF sinv stored(2,5)]
      have inv': "tm_inv cfg V I owner (tm\<lparr>tm_store := store'\<rparr>)" by (rule tm_inv_store [OF inv ext(1)])
      have del: "delivered_of (cfg_env cfg) store' (delivered_id cd) = Some cd" using ext(2) by simp
      have pred: "predecessor_delivered cfg store' (cd_certificate cd)"
        using running_task(2) [OF inv' , of i] i stored(3) cert by simp
      have "CmdBroadcast g (cd_certificate cd) \<in> I" using g stored(3) by simp
      from tm_inv_published [OF inv' stored(4) this] pred del
      have "tm_inv cfg V I owner (tm\<lparr>tm_store := store', tm_published := tm_published tm @ [(cd, p)]\<rparr>)" by simp
      moreover have "task_certificate_id ?t = delivered_id cd"
        using running_task(1) [OF inv i] stored(3) cert by (simp add: task_ok_def)
      ultimately show ?thesis
        using tm_inv_end_task [of cfg V I owner _ TaskSuccess i] stored(1) r del by simp
    qed
  qed
qed

lemma tm_inv_poll:
  assumes laws: "tm_laws cfg V I" and inv: "tm_inv cfg V I owner tm" and i: "i < length (tm_running tm)"
    and out: "poll_task cfg i tm = Some tm'"
  shows "tm_inv cfg V I owner tm'"
proof (cases "task_started (tm_running tm ! i)")
  case False
  let ?t = "tm_running tm ! i"
  show ?thesis
  proof (cases "task_start cfg (tm_store tm) ?t")
    case (Inr t)
    note ok = task_start_ok [OF Inr running_task(1) [OF inv i]]
    from tm_inv_replace [OF inv i ok] False Inr out show ?thesis by (simp add: poll_task_def)
  next
    case (Inl e)
    with False out inv tm_inv_end_task [OF inv, of TaskFailure i] show ?thesis
      by (cases e) (auto simp: poll_task_def)
  qed
next
  case True
  let ?t = "tm_running tm ! i"
  let ?ch = "task_channel ?t"
  obtain msg rest where q: "chan_queue (tm_channels tm ?ch) = msg # rest"
    using out True by (auto simp: poll_task_def Let_def split: list.splits)
  let ?tm = "tm\<lparr>tm_channels := (tm_channels tm)(?ch := (tm_channels tm ?ch)\<lparr>chan_queue := rest\<rparr>)\<rparr>"
  note pop = tm_inv_pop [OF inv q]
  obtain store' r where r: "task_message cfg msg ?t (tm_store tm) = (store', r)" by force
  have "cmd_certificate_id msg = Some (task_certificate_id (tm_running ?tm ! i))"
    using pop(3) running_task(3) [OF inv i] by simp
  from tm_inv_task_message [OF laws pop(1) _ pop(2) this] i r True q out show ?thesis
    by (cases r) (auto simp: poll_task_def Let_def)
qed

section \<open>Runs\<close>

lemma tm_inv_step:
  assumes laws: "tm_laws cfg V I" and inv: "tm_inv cfg V I owner tm" and "tm_step cfg tm tm'"
  shows "\<exists>owner'. tm_inv cfg V I owner' tm'"
  using assms(3)
proof cases
  case (receive msg rest)
  let ?tm = "tm\<lparr>tm_messages := rest\<rparr>"
  have r: "routing_inv I owner tm" using inv by (simp add: tm_inv_def)
  then have m: "msg \<in> I" and "routing_inv I owner ?tm"
    using receive by (simp_all add: routing_inv_def channels_inv_def)
  then have inv': "tm_inv cfg V I owner ?tm" by (intro tm_inv_frame [OF inv]) simp_all
  show ?thesis
  proof (cases msg)
    case (CmdBroadcast g cert)
    show ?thesis
    proof (cases "tm_tasks tm (cert_id cert)")
      case None
      from tm_inv_create_task [OF inv', of g cert] laws m CmdBroadcast None receive(1) show ?thesis
        by (auto simp: tm_laws_def)
    qed (use CmdBroadcast receive(1) inv' in auto)
  qed (use tm_inv_route_message [OF inv' m] receive(1) in auto)
next
  case (send ch msg)
  have "routing_inv I owner tm" using inv by (simp add: tm_inv_def)
  then have sending: "routed I (owner ch) [msg]" "ch < tm_next_channel tm" and "routing_inv I owner (tm\<lparr>tm_sending := None\<rparr>)"
    using send routing_forget(3) by (auto simp: routing_inv_def channels_inv_def)
  then have "tm_inv cfg V I owner (tm\<lparr>tm_sending := None\<rparr>)" by (intro tm_inv_frame [OF inv]) simp_all
  from tm_inv_channel_send [OF this send(3)] sending show ?thesis by auto
next
  case (forward i ch msg rest)
  let ?tm = "tm\<lparr>tm_forwarders := (tm_forwarders tm)[i := (ch, rest)]\<rparr>"
  have r: "routing_inv I owner tm" using inv by (simp add: tm_inv_def)
  have "(ch, msg # rest) \<in> set (tm_forwarders tm)" using forward(1,2) by (metis nth_mem)
  then have m: "routed I (owner ch) (msg # rest)" "ch < tm_next_channel tm"
    using r by (auto simp: routing_inv_def channels_inv_def)
  have "routing_inv I owner ?tm"
    using r m set_update_subset_insert [of "tm_forwarders tm" i "(ch, rest)"]
    unfolding routing_inv_def channels_inv_def by fastforce
  then have "tm_inv cfg V I owner ?tm" by (intro tm_inv_frame [OF inv]) simp_all
  from tm_inv_channel_send [OF this forward(3)] m show ?thesis by auto
next
  case (poll i)
  then show ?thesis using tm_inv_poll [OF laws inv] by blast
qed

lemma tm_inv_new:
  assumes "validator_invar (cfg_env cfg) store"
  shows "tm_inv cfg V {} (\<lambda>_. INITIAL_CERTIFICATE_ID) (task_manager_new store)"
  using assms
  by (simp add: tm_inv_def routing_inv_def channels_inv_def chain_inv_def published_inv_def task_manager_new_def tm_all_tasks_def)

lemma tm_run_inv:
  assumes "tm_run cfg store inputs tm" and "validator_invar (cfg_env cfg) store" and "tm_laws cfg V (set inputs)"
  shows "\<exists>owner. tm_inv cfg V (set inputs) owner tm"
  using assms(1,3)
proof induction
  case start
  show ?case using tm_inv_new [OF assms(2)] by auto
next
  case (sent inputs tm msg)
  then have "\<exists>owner. tm_inv cfg V (set inputs) owner tm" by (auto simp: tm_laws_def)
  then show ?case using tm_inv_sent by fastforce
next
  case (step inputs tm tm')
  then show ?case using tm_inv_step by blast
qed

text \<open>
  C2: Whatever the order in which the manager, its tasks and the forwarders run, every
  certificate it stores and publishes was broadcast to it and carries a proof with at least
  \<open>delivery_threshold\<close> distinct validators, for each of which the manager was sent a Ready of this
  certificate; and the store stays consistent.
\<close>

theorem stored_certificate_has_ready_quorum:
  assumes "tm_run cfg store inputs tm" and "validator_invar (cfg_env cfg) store" and "tm_laws cfg V (set inputs)"
    and "(cd, p) \<in> set (tm_published tm)"
  shows "quorum_proof cfg V (set inputs) cd \<and> (\<exists>g. CmdBroadcast g (cd_certificate cd) \<in> set inputs) \<and>
    validator_invar (cfg_env cfg) (tm_store tm)"
  using tm_run_inv [OF assms(1-3)] assms(4) by (auto simp: tm_inv_def published_inv_def)

text \<open>
  C3: Certificates are stored in the order of their chain: the predecessor of a certificate
  the manager has stored is delivered, unless it has none.
\<close>

theorem stored_after_predecessor:
  assumes "tm_run cfg store inputs tm" and "validator_invar (cfg_env cfg) store" and "tm_laws cfg V (set inputs)"
    and "(cd, p) \<in> set (tm_published tm)"
  shows "predecessor_delivered cfg (tm_store tm) (cd_certificate cd)"
  using tm_run_inv [OF assms(1-3)] assms(4) by (auto simp: tm_inv_def published_inv_def)

end
