(* ===== verification/Task_Manager_Limits.thy ===== *)
theory Task_Manager_Limits
  imports Task_Manager_Safety
begin

text \<open>
  Where the task manager stops making progress: certificates whose task is lost, and a channel
  that fills up while the manager waits for it.
\<close>

text \<open>A step of the manager, or a command sent to it.\<close>

definition tm_env_step ::
  "('db, 'b, 'sig) tm_config \<Rightarrow> ('db, 'sig) task_manager \<Rightarrow> ('db, 'sig) task_manager \<Rightarrow> bool" where
  "tm_env_step cfg tm tm' \<longleftrightarrow> tm_step cfg tm tm' \<or> (\<exists>msg. tm' = tm\<lparr>tm_messages := tm_messages tm @ [msg]\<rparr>)"

section \<open>Lost tasks\<close>

text \<open>The manager has a context for the certificate and no task.\<close>

definition orphan :: "certificate_id \<Rightarrow> ('db, 'sig) task_manager \<Rightarrow> bool" where
  "orphan cid tm \<longleftrightarrow> tm_tasks tm cid \<noteq> None \<and> (\<forall>t \<in> tm_all_tasks tm. task_certificate_id t \<noteq> cid) \<and>
     (\<forall>st. (cid, st) \<notin> set (tm_completions tm))"

lemma orphan_frame:
  assumes "orphan cid tm" and "tm_tasks tm' cid = tm_tasks tm cid" and "tm_all_tasks tm' \<subseteq> tm_all_tasks tm"
    and "tm_completions tm' = tm_completions tm"
  shows "orphan cid tm'"
  using assms by (auto simp: orphan_def)

lemma orphan_close_channel: "orphan cid tm \<Longrightarrow> orphan cid (close_channel ch tm)"
  by (simp add: orphan_def close_channel_def)

lemma orphan_route_message: "orphan cid tm \<Longrightarrow> orphan cid (route_message k msg tm)"
  by (simp add: orphan_def route_message_def split: option.split)

lemma orphan_create_task:
  assumes "orphan cid tm" and "tm_tasks tm (cert_id cert) = None"
  shows "orphan cid (create_task cfg g cert tm)"
proof -
  have ne: "cert_id cert \<noteq> cid" using assms by (auto simp: orphan_def)
  define t where "t = task_new (cert_id cert) (broadcast_state_new cert (cfg_validator_id cfg)
    (rp_echo_threshold (cfg_thresholds cfg)) (rp_ready_threshold (cfg_thresholds cfg))
    (rp_delivery_threshold (cfg_thresholds cfg)) (cfg_subscriptions cfg) g (cfg_signer cfg)) (tm_next_channel tm)"
  have "task_certificate_id t \<noteq> cid" using ne by (simp add: t_def task_new_def)
  moreover have "tm_all_tasks (create_task cfg g cert tm) \<subseteq> insert t (tm_all_tasks tm)"
    using tm_all_tasks_insert_precedence [of "prev_id cert" t "tm\<lparr>tm_next_channel := Suc (tm_next_channel tm)\<rparr>"]
    unfolding create_task_def Let_def t_def [symmetric] by (simp split: if_split)
  moreover have "tm_tasks (create_task cfg g cert tm) cid = tm_tasks tm cid"
    "tm_completions (create_task cfg g cert tm) = tm_completions tm"
    using ne by (simp_all add: create_task_def Let_def start_task_def insert_precedence_def close_channel_def split: option.split)
  ultimately show ?thesis using assms(1) by (auto simp: orphan_def)
qed

lemma orphan_task_finished:
  assumes "orphan cid tm" and "k \<noteq> cid"
  shows "orphan cid (task_finished k st tm)"
proof (cases "st = TaskSuccess")
  case True
  let ?tm = "tm\<lparr>tm_tasks := (tm_tasks tm)(k := None), tm_completions := tm_completions tm @ [(k, st)]\<rparr>"
  have o: "orphan cid ?tm" using assms by (simp add: orphan_def)
  show ?thesis
  proof (cases "tm_precedence tm k")
    case (Some t)
    then have t: "t \<in> tm_all_tasks tm" by (auto simp: tm_all_tasks_def ranI)
    let ?w = "?tm\<lparr>tm_precedence := (tm_precedence ?tm)(k := None)\<rparr>"
    have sub: "tm_all_tasks ?w \<subseteq> tm_all_tasks tm" using tm_all_tasks_forget(1) [of ?tm k] by simp
    have w: "orphan cid ?w" by (rule orphan_frame [OF o]) (use sub in simp_all)
    have "orphan cid (start_task t sink ms (?w\<lparr>tm_buffered := x\<rparr>))" for sink ms x
      using w t assms(1) by (auto simp: orphan_def start_task_def tm_all_tasks_def)
    with True Some orphan_close_channel [OF w] show ?thesis
      by (simp add: task_finished_def Let_def split: option.split)
  qed (use True o in \<open>simp add: task_finished_def\<close>)
qed (use assms in \<open>simp add: task_finished_def\<close>)

lemma orphan_end_task:
  assumes "orphan cid tm" and "i < length (tm_running tm)"
  shows "orphan cid (end_task i st tm)"
proof -
  have "tm_running tm ! i \<in> tm_all_tasks tm" using assms(2) by (simp add: tm_all_tasks_def)
  then have ne: "task_certificate_id (tm_running tm ! i) \<noteq> cid" using assms(1) by (auto simp: orphan_def)
  have "orphan cid (tm\<lparr>tm_running := take i (tm_running tm) @ drop (Suc i) (tm_running tm)\<rparr>)"
    by (rule orphan_frame [OF assms(1)]) (use tm_all_tasks_forget(2) [of i tm] in simp_all)
  then show ?thesis
    unfolding end_task_def Let_def by (intro orphan_task_finished orphan_close_channel) (use ne in simp_all)
qed

lemma orphan_add:
  assumes "orphan cid tm" and "tm_tasks tm' cid = tm_tasks tm cid" and "tm_all_tasks tm' \<subseteq> insert t (tm_all_tasks tm)"
    and "tm_completions tm' = tm_completions tm" and "task_certificate_id t \<noteq> cid"
  shows "orphan cid tm'"
  using assms by (auto simp: orphan_def)

lemma orphan_replace:
  assumes "orphan cid tm" and "i < length (tm_running tm)" and "task_certificate_id t = task_certificate_id (tm_running tm ! i)"
  shows "orphan cid (tm\<lparr>tm_running := (tm_running tm)[i := t]\<rparr>)"
proof (rule orphan_add [OF assms(1)])
  show "tm_all_tasks (tm\<lparr>tm_running := (tm_running tm)[i := t]\<rparr>) \<subseteq> insert t (tm_all_tasks tm)"
    using set_update_subset_insert [of "tm_running tm" i t] by (auto simp: tm_all_tasks_def)
  have "tm_running tm ! i \<in> tm_all_tasks tm" using assms(2) by (simp add: tm_all_tasks_def)
  then show "task_certificate_id t \<noteq> cid" using assms(1,3) by (simp add: orphan_def)
qed simp_all

lemma poll_task_cases:
  assumes "poll_task cfg i tm = Some tm'"
  defines "t \<equiv> tm_running tm ! i"
  obtains (starts) t' where "task_start cfg (tm_store tm) t = Inr t'" "tm' = tm\<lparr>tm_running := (tm_running tm)[i := t']\<rparr>"
  | (refused) "tm' = end_task i TaskFailure tm"
  | (overflow) "tm' = tm\<lparr>tm_panicked := True\<rparr>"
  | (pending) msg rest store t' where "task_message cfg msg t (tm_store tm) = (store, PollPending t')"
      "tm' = tm\<lparr>tm_channels := (tm_channels tm)(task_channel t := (tm_channels tm (task_channel t))\<lparr>chan_queue := rest\<rparr>),
        tm_running := (tm_running tm)[i := t'], tm_store := store\<rparr>"
  | (ready) msg rest store st p where "task_message cfg msg t (tm_store tm) = (store, PollReady st p)"
      "tm' = end_task i st (tm\<lparr>tm_channels := (tm_channels tm)(task_channel t := (tm_channels tm (task_channel t))\<lparr>chan_queue := rest\<rparr>),
        tm_store := store, tm_published := tm_published tm @ (case p of None \<Rightarrow> [] | Some d \<Rightarrow> [d])\<rparr>)"
  | (panics) rest store where
      "tm' = tm\<lparr>tm_channels := (tm_channels tm)(task_channel t := (tm_channels tm (task_channel t))\<lparr>chan_queue := rest\<rparr>),
        tm_store := store, tm_panicked := True\<rparr>"
proof (cases "task_started t")
  case False
  show thesis
  proof (cases "task_start cfg (tm_store tm) t")
    case (Inl e)
    then show thesis using assms(1) False that(2,3) by (cases e) (simp_all add: poll_task_def flip: t_def)
  next
    case (Inr t')
    then show thesis using assms(1) False that(1) by (simp add: poll_task_def flip: t_def)
  qed
next
  case True
  then obtain msg rest where q: "chan_queue (tm_channels tm (task_channel t)) = msg # rest"
    using assms(1) by (auto simp: poll_task_def Let_def simp flip: t_def split: list.splits)
  obtain store r where r: "task_message cfg msg t (tm_store tm) = (store, r)" by force
  show thesis
  proof (cases r)
    case (PollPending t')
    then show thesis using assms(1) True q r by (intro that(4) [of msg store t' rest]) (simp_all add: poll_task_def flip: t_def)
  next
    case (PollReady st p)
    then show thesis using assms(1) True q r by (intro that(5) [of msg store st p rest]) (simp_all add: poll_task_def flip: t_def)
  next
    case PollPanic
    then show thesis using assms(1) True q r by (intro that(6) [of store rest]) (simp_all add: poll_task_def flip: t_def)
  qed
qed

lemma task_start_same: "task_start cfg store t = Inr t' \<Longrightarrow> task_certificate_id t' = task_certificate_id t"
  by (auto simp: task_start_def split: sum.splits option.splits)

lemma task_message_same: "task_message cfg msg t store = (s, PollPending t') \<Longrightarrow> task_certificate_id t' = task_certificate_id t"
  by (auto simp: task_message_alt Let_def split: if_splits sum.splits failure.splits)

lemma orphan_fields [simp]:
  "orphan cid (tm\<lparr>tm_channels := x\<rparr>) = orphan cid tm" "orphan cid (tm\<lparr>tm_store := y\<rparr>) = orphan cid tm"
  "orphan cid (tm\<lparr>tm_published := z\<rparr>) = orphan cid tm" "orphan cid (tm\<lparr>tm_panicked := b\<rparr>) = orphan cid tm"
  "orphan cid (tm\<lparr>tm_messages := u\<rparr>) = orphan cid tm" "orphan cid (tm\<lparr>tm_sending := v\<rparr>) = orphan cid tm"
  "orphan cid (tm\<lparr>tm_forwarders := w\<rparr>) = orphan cid tm"
  by (simp_all add: orphan_def)

lemma orphan_poll:
  assumes o: "orphan cid tm" and i: "i < length (tm_running tm)" and "poll_task cfg i tm = Some tm'"
  shows "orphan cid tm'"
  using assms(3)
proof (cases rule: poll_task_cases)
  case (starts t')
  then show ?thesis using orphan_replace [OF o i task_start_same] by simp
next
  case refused
  then show ?thesis using orphan_end_task [OF o i] by simp
next
  case (pending msg rest store t')
  have "orphan cid (tm\<lparr>tm_running := (tm_running tm)[i := t']\<rparr>)"
    by (rule orphan_replace [OF o i task_message_same [OF pending(1)]])
  then show ?thesis unfolding pending(2) by (simp add: orphan_def tm_all_tasks_def)
next
  case (ready msg rest store st p)
  show ?thesis unfolding ready(2) by (rule orphan_end_task) (use o i in simp_all)
qed (use o in simp_all)

lemma orphan_send: "channel_send ch msg tm = Some tm' \<Longrightarrow> orphan cid tm \<Longrightarrow> orphan cid tm'"
  by (auto simp: channel_send_def Let_def split: if_splits)

lemma orphan_command: "orphan cid tm \<Longrightarrow> orphan cid (tm_command cfg msg tm)"
  by (cases msg) (simp_all add: orphan_route_message orphan_create_task split: option.split)

lemma orphan_step:
  assumes "orphan cid tm" and "tm_env_step cfg tm tm'"
  shows "orphan cid tm'"
  using assms(2) unfolding tm_env_step_def
proof (elim disjE exE)
  assume "tm_step cfg tm tm'"
  then show ?thesis
  proof cases
    case (receive msg rest)
    then show ?thesis using assms(1) by (simp add: orphan_command)
  next
    case (send ch msg)
    then show ?thesis using assms(1) orphan_send by fastforce
  next
    case (forward i ch msg rest)
    then show ?thesis using assms(1) orphan_send by fastforce
  next
    case (poll i)
    then show ?thesis using orphan_poll [OF assms(1)] by blast
  qed
qed (use assms(1) in simp)

lemma orphan_forever: "(tm_env_step cfg)\<^sup>*\<^sup>* tm tm' \<Longrightarrow> orphan cid tm \<Longrightarrow> orphan cid tm'"
  by (induction rule: rtranclp_induct) (auto intro: orphan_step)

text \<open>
  Of two certificates that wait for the same predecessor only the later one is kept: the
  task of the earlier one is dropped while its context stays, so whatever the manager is sent
  afterwards, also when the certificate is broadcast again, it never completes.
\<close>

lemma overwritten_waiting_task_lost:
  assumes "validator_get_certificate (cfg_env cfg) (prev_id c) (tm_store tm) = Inr None"
    and "prev_id c \<noteq> INITIAL_CERTIFICATE_ID" and "prev_id d = prev_id c" and "cert_id d \<noteq> cert_id c"
    and "tm_tasks tm (cert_id c) = None" and "tm_tasks tm (cert_id d) = None"
    and "\<forall>t \<in> tm_all_tasks tm. task_certificate_id t \<noteq> cert_id c" and "\<forall>st. (cert_id c, st) \<notin> set (tm_completions tm)"
    and "(tm_env_step cfg)\<^sup>*\<^sup>* (tm_command cfg (CmdBroadcast g' d) (tm_command cfg (CmdBroadcast g c) tm)) tm'"
  shows "tm_tasks tm' (cert_id c) \<noteq> None \<and> (\<forall>st. (cert_id c, st) \<notin> set (tm_completions tm'))"
proof -
  let ?t = "\<lambda>g c ch. task_new (cert_id c) (broadcast_state_new c (cfg_validator_id cfg)
    (rp_echo_threshold (cfg_thresholds cfg)) (rp_ready_threshold (cfg_thresholds cfg))
    (rp_delivery_threshold (cfg_thresholds cfg)) (cfg_subscriptions cfg) g (cfg_signer cfg)) ch"
  let ?tm1 = "create_task cfg g c tm" and ?tm2 = "create_task cfg g' d (create_task cfg g c tm)"
  let ?x = "?t g c (tm_next_channel tm)" and ?y = "?t g' d (Suc (tm_next_channel tm))"
  have one: "tm_tasks ?tm1 = (tm_tasks tm)(cert_id c \<mapsto> tm_next_channel tm)" "tm_running ?tm1 = tm_running tm"
    "tm_precedence ?tm1 = (tm_precedence tm)(prev_id c \<mapsto> ?x)" "tm_completions ?tm1 = tm_completions tm"
    "tm_store ?tm1 = tm_store tm" "tm_next_channel ?tm1 = Suc (tm_next_channel tm)"
    using assms(1,2) by (simp_all add: create_task_def Let_def insert_precedence_def close_channel_def split: option.split)
  have two: "tm_tasks ?tm2 = (tm_tasks ?tm1)(cert_id d \<mapsto> Suc (tm_next_channel tm))" "tm_running ?tm2 = tm_running tm"
    "tm_precedence ?tm2 = (tm_precedence tm)(prev_id c \<mapsto> ?y)" "tm_completions ?tm2 = tm_completions tm"
    using assms(1-3) one
    by (simp_all add: create_task_def [of _ g'] Let_def insert_precedence_def close_channel_def split: option.split)
  have "ran ((tm_precedence tm)(prev_id c \<mapsto> ?y)) \<subseteq> insert ?y (ran (tm_precedence tm))"
    by (auto simp: ran_def split: if_splits)
  then have "tm_all_tasks ?tm2 \<subseteq> insert ?y (tm_all_tasks tm)" by (auto simp: tm_all_tasks_def two)
  moreover have "task_certificate_id ?y \<noteq> cert_id c" using assms(4) by (simp add: task_new_def)
  ultimately have "\<forall>t \<in> tm_all_tasks ?tm2. task_certificate_id t \<noteq> cert_id c" using assms(7) by blast
  then have "orphan (cert_id c) ?tm2" using assms(4,8) one(1) two(1,4) by (simp add: orphan_def)
  moreover have "tm_command cfg (CmdBroadcast g' d) (tm_command cfg (CmdBroadcast g c) tm) = ?tm2"
    using assms(4-6) one(1) by simp
  ultimately have "orphan (cert_id c) tm'" using orphan_forever [OF assms(9)] by simp
  then show ?thesis by (simp add: orphan_def)
qed

section \<open>A full channel\<close>

text \<open>The manager waits to send to a channel that is full, and whose task it does not poll meanwhile.\<close>

definition blocked :: "nat \<Rightarrow> ('db, 'sig) task_manager \<Rightarrow> bool" where
  "blocked ch tm \<longleftrightarrow> (\<exists>msg. tm_sending tm = Some (ch, msg)) \<and> chan_open (tm_channels tm ch) \<and>
     TASK_CHANNEL_SIZE \<le> length (chan_queue (tm_channels tm ch))"

lemma blocked_step:
  assumes "blocked ch tm" and "tm_env_step cfg tm tm'"
  shows "blocked ch tm' \<and> tm_running tm' = tm_running tm \<and> tm_store tm' = tm_store tm \<and>
    tm_completions tm' = tm_completions tm"
  using assms(2) unfolding tm_env_step_def
proof (elim disjE exE)
  assume "tm_step cfg tm tm'"
  then show ?thesis
  proof cases
    case (send ch' msg)
    then show ?thesis using assms(1) by (auto simp: blocked_def channel_send_def Let_def)
  next
    case (forward i ch' msg rest)
    then show ?thesis using assms(1) by (auto simp: blocked_def channel_send_def Let_def split: if_splits)
  qed (use assms(1) in \<open>auto simp: blocked_def\<close>)
qed (use assms(1) in \<open>auto simp: blocked_def\<close>)

lemma blocked_forever:
  assumes "(tm_env_step cfg)\<^sup>*\<^sup>* tm tm'" and "blocked ch tm"
  shows "blocked ch tm' \<and> tm_running tm' = tm_running tm \<and> tm_store tm' = tm_store tm \<and>
    tm_completions tm' = tm_completions tm"
  using assms(1)
proof induction
  case (step u w)
  then show ?case using blocked_step [of ch u cfg w] by simp
qed (use assms(2) in simp)

text \<open>The manager takes a message for a task and puts it into the channel of the task.\<close>

lemma receive_and_send:
  assumes "\<not> tm_panicked tm" and "tm_sending tm = None" and "tm_messages tm = msg # rest"
    and "cmd_certificate_id msg = Some cid" and "tm_tasks tm cid = Some ch"
  shows "tm_step cfg tm (tm\<lparr>tm_messages := rest, tm_sending := Some (ch, msg)\<rparr>)"
proof -
  have "tm_command cfg msg (tm\<lparr>tm_messages := rest\<rparr>) = tm\<lparr>tm_messages := rest, tm_sending := Some (ch, msg)\<rparr>"
    using assms(4,5) by (cases msg) (simp_all add: route_message_def)
  with tm_step.receive [OF assms(1-3), of cfg] show ?thesis by simp
qed

text \<open>
  C32: The manager can deadlock. When more messages for a certificate are in front of it than the
  channel of its task has room for, the manager may take them all without polling the task; it
  then waits for room in the channel, and no task runs, no certificate is stored and no message
  is taken from then on.
\<close>

theorem manager_can_deadlock:
  assumes "\<not> tm_panicked tm" and "tm_sending tm = None" and "tm_messages tm = msgs @ rest"
    and "\<forall>m \<in> set msgs. cmd_certificate_id m = Some cid" and "tm_tasks tm cid = Some ch"
    and "chan_open (tm_channels tm ch)"
    and "length (chan_queue (tm_channels tm ch)) + length msgs = Suc TASK_CHANNEL_SIZE"
    and "length (chan_queue (tm_channels tm ch)) \<le> TASK_CHANNEL_SIZE"
  shows "\<exists>tm'. (tm_step cfg)\<^sup>*\<^sup>* tm tm' \<and> (\<forall>tm''. (tm_env_step cfg)\<^sup>*\<^sup>* tm' tm'' \<longrightarrow>
    tm_sending tm'' \<noteq> None \<and> tm_running tm'' = tm_running tm' \<and> tm_store tm'' = tm_store tm)"
  using assms
proof (induction msgs arbitrary: tm)
  case (Cons m msgs)
  let ?tm = "tm\<lparr>tm_messages := msgs @ rest, tm_sending := Some (ch, m)\<rparr>"
  have first: "tm_step cfg tm ?tm" using Cons.prems by (intro receive_and_send) simp_all
  show ?case
  proof (cases "length (chan_queue (tm_channels tm ch)) = TASK_CHANNEL_SIZE")
    case True
    then have "blocked ch ?tm" using Cons.prems by (simp add: blocked_def)
    then have "\<forall>tm''. (tm_env_step cfg)\<^sup>*\<^sup>* ?tm tm'' \<longrightarrow>
        tm_sending tm'' \<noteq> None \<and> tm_running tm'' = tm_running ?tm \<and> tm_store tm'' = tm_store tm"
      using blocked_forever by (fastforce simp: blocked_def)
    then show ?thesis using first by blast
  next
    case False
    let ?c = "tm_channels tm ch"
    let ?w = "tm\<lparr>tm_messages := msgs @ rest, tm_sending := None, tm_channels := (tm_channels tm)(ch := ?c\<lparr>chan_queue := chan_queue ?c @ [m]\<rparr>)\<rparr>"
    have "channel_send ch m (?tm\<lparr>tm_sending := None\<rparr>) = Some ?w"
      using False Cons.prems(6,8) by (simp add: channel_send_def Let_def)
    then have "tm_step cfg ?tm ?w" using Cons.prems(1) by (intro tm_step.send [of ?tm ch m]) simp_all
    with first have two: "(tm_step cfg)\<^sup>*\<^sup>* tm ?w" by (meson rtranclp.rtrancl_into_rtrancl rtranclp.rtrancl_refl)
    obtain tm' where "(tm_step cfg)\<^sup>*\<^sup>* ?w tm'" "\<forall>tm''. (tm_env_step cfg)\<^sup>*\<^sup>* tm' tm'' \<longrightarrow>
        tm_sending tm'' \<noteq> None \<and> tm_running tm'' = tm_running tm' \<and> tm_store tm'' = tm_store ?w"
      using Cons.IH [of ?w] Cons.prems False by auto
    with two show ?thesis by (auto intro: rtranclp_trans)
  qed
qed simp

end
