(* ===== verification/Double_Echo.thy ===== *)
theory Double_Echo
  imports Task_Manager_Limits
begin

text \<open>
  The entry of the broadcast, \<^verbatim>\<open>double_echo/mod.rs\<close> of the crate \<^verbatim>\<open>topos-tce-broadcast\<close>: it
  authenticates the messages of the network and hands them to the task manager. The channel to
  the task manager is the list \<open>de_sent\<close> of what was sent. \<open>room\<close> tells whether the channel of
  the events has room when the code calls \<open>try_send\<close>.
\<close>

section \<open>The state and the handlers\<close>

record 'sig double_echo =
  de_delivered_certificates :: "certificate_id set"
  de_params :: reliable_broadcast_params
  de_subscriptions :: subscriptions_view
  de_validator_id :: validator_id
  de_validators :: "validator_id set"
  de_sent :: "'sig double_echo_command list"
  de_events :: "'sig protocol_event list"

datatype de_outcome = DeRunning | DeStopped | DePanicked

definition double_echo_new ::
  "reliable_broadcast_params \<Rightarrow> validator_id \<Rightarrow> validator_id set \<Rightarrow> 'sig double_echo" where
  "double_echo_new params vid validators =
     \<lparr>de_delivered_certificates = {}, de_params = params,
      de_subscriptions = \<lparr>sv_echo = validators, sv_ready = validators, network_size = card validators\<rparr>,
      de_validator_id = vid, de_validators = validators, de_sent = [], de_events = []\<rparr>"

definition cert_pre_broadcast_check :: "certificate \<Rightarrow> unit + unit" where
  "cert_pre_broadcast_check cert =
     (let _ = (case check_signature cert of Inl _ \<Rightarrow> () | Inr _ \<Rightarrow> ());
          _ = (case check_proof cert of Inl _ \<Rightarrow> () | Inr _ \<Rightarrow> ()) in
      Inr ())"

definition delivery_state_for_new_cert ::
  "certificate \<Rightarrow> bool \<Rightarrow> 'sig double_echo \<Rightarrow> 'sig double_echo \<times> bool option" where
  "delivery_state_for_new_cert certificate origin s =
     (if sv_echo (de_subscriptions s) = {} \<or> sv_ready (de_subscriptions s) = {} then (s, None)
      else (s\<lparr>de_sent := de_sent s @ [CmdBroadcast origin certificate]\<rparr>, Some True))"

definition try_send_event :: "bool \<Rightarrow> 'sig protocol_event \<Rightarrow> 'sig double_echo \<Rightarrow> 'sig double_echo option" where
  "try_send_event room ev s = (if room then Some (s\<lparr>de_events := de_events s @ [ev]\<rparr>) else None)"

definition broadcast :: "bool \<Rightarrow> certificate \<Rightarrow> bool \<Rightarrow> 'sig double_echo \<Rightarrow> 'sig double_echo \<times> de_outcome" where
  "broadcast room cert origin s =
     (if cert_pre_broadcast_check cert \<noteq> Inr () then
        (case try_send_event room (BroadcastFailed (cert_id cert)) s of
           Some s \<Rightarrow> (s, DeRunning) | None \<Rightarrow> (s, DePanicked))
      else if cert_id cert \<in> de_delivered_certificates s then
        (case try_send_event room (AlreadyDelivered (cert_id cert)) s of
           Some s \<Rightarrow> (s, DeRunning) | None \<Rightarrow> (s, DePanicked))
      else
        (case delivery_state_for_new_cert cert origin s of
           (s, Some _) \<Rightarrow> (s, DeRunning)
         | (s, None) \<Rightarrow> ((case try_send_event room Die s of Some s \<Rightarrow> s | None \<Rightarrow> s), DeRunning)))"

definition handle_echo :: "certificate_id \<Rightarrow> validator_id \<Rightarrow> 'sig \<Rightarrow> 'sig double_echo \<Rightarrow> 'sig double_echo" where
  "handle_echo cid vid signature s =
     (if cid \<in> de_delivered_certificates s then s
      else s\<lparr>de_sent := de_sent s @ [CmdEcho vid cid signature]\<rparr>)"

definition handle_ready :: "certificate_id \<Rightarrow> validator_id \<Rightarrow> 'sig \<Rightarrow> 'sig double_echo \<Rightarrow> 'sig double_echo" where
  "handle_ready cid vid signature s =
     (if cid \<in> de_delivered_certificates s then s
      else s\<lparr>de_sent := de_sent s @ [CmdReady vid cid signature]\<rparr>)"

text \<open>The check of a message: a known validator and a signature of the certificate id and the validator.\<close>

definition authenticated ::
  "('w, 'h, 'sig) ethers \<Rightarrow> validator_id set \<Rightarrow> certificate_id \<Rightarrow> validator_id \<Rightarrow> 'sig \<Rightarrow> bool" where
  "authenticated W validators cid vid signature \<longleftrightarrow>
     vid \<in> validators \<and> verify_signature W signature (cid_array cid @ vid_bytes vid) (vid_bytes vid)"

definition double_echo_on_command ::
  "('w, 'h, 'sig) ethers \<Rightarrow> bool \<Rightarrow> 'sig double_echo_command \<Rightarrow> 'sig double_echo \<Rightarrow> 'sig double_echo \<times> de_outcome" where
  "double_echo_on_command W room command s =
     (case command of
        CmdBroadcast need_gossip cert \<Rightarrow> broadcast room cert need_gossip s
      | CmdEcho vid cid signature \<Rightarrow>
          if \<not> sv_is_some (de_subscriptions s) then (s, DeRunning)
          else if \<not> authenticated W (de_validators s) cid vid signature then (s, DeStopped)
          else (handle_echo cid vid signature s, DeRunning)
      | CmdReady vid cid signature \<Rightarrow>
          if \<not> sv_is_some (de_subscriptions s) then (s, DeRunning)
          else if \<not> authenticated W (de_validators s) cid vid signature then (s, DeStopped)
          else (handle_ready cid vid signature s, DeRunning))"

definition double_echo_completion :: "certificate_id \<times> task_status \<Rightarrow> 'sig double_echo \<Rightarrow> 'sig double_echo" where
  "double_echo_completion c s =
     (case c of (cid, st) \<Rightarrow>
        if st = TaskSuccess then s\<lparr>de_delivered_certificates := insert cid (de_delivered_certificates s)\<rparr> else s)"

section \<open>What reaches the task manager\<close>

fun cmd_authenticated :: "('w, 'h, 'sig) ethers \<Rightarrow> validator_id set \<Rightarrow> 'sig double_echo_command \<Rightarrow> bool" where
  "cmd_authenticated W V (CmdBroadcast g cert) = True"
| "cmd_authenticated W V (CmdEcho v cid sg) = authenticated W V cid v sg"
| "cmd_authenticated W V (CmdReady v cid sg) = authenticated W V cid v sg"

text \<open>A command makes at most itself pass, when it is authenticated and its certificate is not delivered.\<close>

lemma double_echo_on_command_cases:
  assumes "double_echo_on_command W room cmd s = (s', out)"
  obtains (same) "de_sent s' = de_sent s"
  | (passed) "cmd_authenticated W (de_validators s) cmd" "de_sent s' = de_sent s @ [cmd]" "out = DeRunning"
  using assms
  by (cases cmd)
    (auto simp: double_echo_on_command_def broadcast_def delivery_state_for_new_cert_def handle_echo_def handle_ready_def
      try_send_event_def split: if_splits option.splits)

lemma double_echo_on_command_fixed:
  assumes "double_echo_on_command W room cmd s = (s', out)"
  shows "de_validators s' = de_validators s" and "de_subscriptions s' = de_subscriptions s"
  using assms
  by (cases cmd;
    auto simp: double_echo_on_command_def broadcast_def delivery_state_for_new_cert_def handle_echo_def handle_ready_def
      try_send_event_def split: if_splits option.splits)+


text \<open>
  C34: An Echo can be turned into a Ready. Both sign the certificate id and the validator id
  only, so whenever an Echo of a validator is passed on, a Ready with the same signature is
  passed on as a Ready of that validator, who may never have sent one.
\<close>

theorem echo_signature_passes_as_ready:
  assumes "double_echo_on_command W room (CmdEcho v cid sg) s = (s', DeRunning)"
    and "de_sent s' = de_sent s @ [CmdEcho v cid sg]"
  shows "double_echo_on_command W room (CmdReady v cid sg) s =
    (s\<lparr>de_sent := de_sent s @ [CmdReady v cid sg]\<rparr>, DeRunning)"
  using assms by (auto simp: double_echo_on_command_def handle_echo_def handle_ready_def split: if_splits)

section \<open>The node\<close>

text \<open>
  The double echo, the number of completions it has taken, and the task manager: a step is a
  command from outside, a completion of a task, or a step of the task manager. What the double
  echo sends is what the task manager receives.
\<close>

inductive node_run ::
  "('w, 'h, 'sig) ethers \<Rightarrow> ('db, 'b, 'sig) tm_config \<Rightarrow> validator_id set \<Rightarrow> 'db validator_store \<Rightarrow>
   'sig double_echo_command list \<Rightarrow> 'sig double_echo \<Rightarrow> nat \<Rightarrow> ('db, 'sig) task_manager \<Rightarrow> bool"
  for W cfg V store where
  boot: "node_run W cfg V store [] (double_echo_new (cfg_thresholds cfg) (cfg_validator_id cfg) V) 0 (task_manager_new store)"
| command: "node_run W cfg V store cmds s k tm \<Longrightarrow> double_echo_on_command W room cmd s = (s', DeRunning) \<Longrightarrow>
    node_run W cfg V store (cmds @ [cmd]) s' k
      (tm\<lparr>tm_messages := tm_messages tm @ drop (length (de_sent s)) (de_sent s')\<rparr>)"
| completion: "node_run W cfg V store cmds s k tm \<Longrightarrow> k < length (tm_completions tm) \<Longrightarrow>
    node_run W cfg V store cmds (double_echo_completion (tm_completions tm ! k) s) (Suc k) tm"
| work: "node_run W cfg V store cmds s k tm \<Longrightarrow> tm_step cfg tm tm' \<Longrightarrow> node_run W cfg V store cmds s k tm'"

lemma node_run_manager:
  assumes "node_run W cfg V store cmds s k tm"
  shows "tm_run cfg store (de_sent s) tm \<and> de_validators s = V \<and>
    (\<forall>m \<in> set (de_sent s). m \<in> set cmds \<and> cmd_authenticated W V m)"
  using assms
proof induction
  case boot
  then show ?case by (auto simp: double_echo_new_def intro: tm_run.start)
next
  case (command cmds s k tm room cmd s')
  note fixed = double_echo_on_command_fixed [OF command.hyps(2)]
  from command.hyps(2) show ?case
  proof (cases rule: double_echo_on_command_cases)
    case same
    then show ?thesis using command.IH fixed by auto
  next
    case passed
    then show ?thesis using command.IH fixed tm_run.sent [of cfg store "de_sent s" tm cmd] by auto
  qed
next
  case (completion cmds s k tm)
  then show ?case by (simp add: double_echo_completion_def split: prod.split)
next
  case (work cmds s k tm tm')
  then show ?case using tm_run.step by blast
qed

text \<open>
  C1: End to end, in every run of a node: a certificate it publishes carries a proof with at
  least \<open>delivery_threshold\<close> distinct validators, and for each of them the node received a Ready of
  this certificate whose signature verifies against the validator.
\<close>

theorem published_certificate_authenticated:
  assumes "node_run W cfg V store cmds s k tm" and "validator_invar (cfg_env cfg) store"
    and "tm_laws cfg V (set cmds)" and "(cd, p) \<in> set (tm_published tm)"
  shows "let signers = map fst (pod_readies (cd_proof_of_delivery cd)) in
    distinct signers \<and> rp_delivery_threshold (cfg_thresholds cfg) \<le> length signers \<and>
    (\<forall>r \<in> set signers. \<exists>v \<in> V. r = validator_id_to_string (cfg_hex cfg) v \<and>
       (\<exists>sg. CmdReady v (delivered_id cd) sg \<in> set cmds \<and>
          verify_signature W sg (cid_array (delivered_id cd) @ vid_bytes v) (vid_bytes v)))"
proof -
  note node = node_run_manager [OF assms(1)]
  have "tm_laws cfg V (set (de_sent s))" using assms(3) node by (auto simp: tm_laws_def)
  from tm_run_inv [OF node [THEN conjunct1] assms(2) this] obtain owner where
    "tm_inv cfg V (set (de_sent s)) owner tm" by blast
  then have "quorum_proof cfg V (set (de_sent s)) cd" using assms(4) by (auto simp: tm_inv_def published_inv_def)
  then have q: "distinct (map fst (pod_readies (cd_proof_of_delivery cd)))"
    "rp_delivery_threshold (cfg_thresholds cfg) \<le> length (map fst (pod_readies (cd_proof_of_delivery cd)))"
    "set (map fst (pod_readies (cd_proof_of_delivery cd))) \<subseteq>
      validator_id_to_string (cfg_hex cfg) ` (V \<inter> ready_senders (set (de_sent s)) (delivered_id cd))"
    by (simp_all add: quorum_proof_def Let_def)
  have auth: "\<exists>sg. CmdReady v cid sg \<in> set cmds \<and> verify_signature W sg (cid_array cid @ vid_bytes v) (vid_bytes v)"
    if ready: "v \<in> ready_senders (set (de_sent s)) cid" for v cid
  proof -
    obtain sg where "CmdReady v cid sg \<in> set (de_sent s)" using ready by (auto simp: ready_senders_def)
    with node have "CmdReady v cid sg \<in> set cmds" "cmd_authenticated W V (CmdReady v cid sg)" by blast+
    then show ?thesis by (auto simp: authenticated_def)
  qed
  show ?thesis unfolding Let_def
  proof (intro conjI ballI q(1,2))
    fix r assume "r \<in> set (map fst (pod_readies (cd_proof_of_delivery cd)))"
    with q(3) obtain v where "v \<in> V" "v \<in> ready_senders (set (de_sent s)) (delivered_id cd)"
      "r = validator_id_to_string (cfg_hex cfg) v" by blast
    with auth show "\<exists>v \<in> V. r = validator_id_to_string (cfg_hex cfg) v \<and>
       (\<exists>sg. CmdReady v (delivered_id cd) sg \<in> set cmds \<and>
          verify_signature W sg (cid_array (delivered_id cd) @ vid_bytes v) (vid_bytes v))" by blast
  qed
qed

end
