(* ===== verification/Broadcast_Examples.thy ===== *)
theory Broadcast_Examples
  imports Double_Echo
begin

text \<open>
  A node that is the only validator, run on one certificate from its broadcast to its delivery,
  and concrete instances of the properties of the task manager and of the node.
\<close>

abbreviation lone_validator :: validator_id where
  "lone_validator \<equiv> vid_of 0"

definition lone_config :: "(mem_value mem_db, mem_value, bytes \<times> bytes) tm_config" where
  "lone_config =
     \<lparr>cfg_env = mem_env, cfg_subscriptions = full_view {lone_validator}, cfg_validator_id = lone_validator,
      cfg_thresholds = \<lparr>rp_echo_threshold = 1, rp_ready_threshold = 1, rp_delivery_threshold = 1\<rparr>,
      cfg_signer = (\<lambda>m. Some (vid_bytes lone_validator, m)), cfg_hex = lower_hex, cfg_iter = sorted_list_of_set\<rparr>"

abbreviation lone_certificate :: certificate where
  "lone_certificate \<equiv> chain_certificate 7 INITIAL_CERTIFICATE_ID"

abbreviation lone_id :: certificate_id where
  "lone_id \<equiv> CertificateId (replicate 32 7)"

definition lone_signature :: "bytes \<times> bytes" where
  "lone_signature = (vid_bytes lone_validator, cid_array lone_id @ vid_bytes lone_validator)"

lemma lone_authenticated: "authenticated toy_ethers {lone_validator} lone_id lone_validator lone_signature"
  by (simp add: authenticated_def verify_signature_def toy_ethers_def lone_signature_def)

lemma lone_laws:
  assumes "\<And>g cert. CmdBroadcast g cert \<in> I \<Longrightarrow> cert = lone_certificate"
  shows "tm_laws lone_config {lone_validator} I"
  using assms chain_certificate_wf [OF chain_ids(2), of 7]
  by (auto simp: tm_laws_def lone_config_def lower_hex_laws hash_iter_sorted)

lemma empty_validator_invar: "validator_invar mem_env empty_validator"
  using empty_validator_ready by (simp add: validator_invar_def empty_validator_views empty_view_consistent)

section \<open>The steps of a lone task\<close>

definition lone_manager ::
  "(bytes \<times> bytes) task \<Rightarrow> (mem_value mem_db, bytes \<times> bytes) task_manager" where
  "lone_manager t = (task_manager_new empty_validator)\<lparr>tm_tasks := [lone_id \<mapsto> 0], tm_running := [t], tm_next_channel := 1\<rparr>"

definition lone_task :: "bool \<Rightarrow> (bytes \<times> bytes) broadcast_state \<Rightarrow> (bytes \<times> bytes) task" where
  "lone_task started s = \<lparr>task_certificate_id = lone_id, task_channel = 0, task_state = s, task_started = started\<rparr>"

definition lone_state :: "(bytes \<times> bytes) broadcast_state" where
  "lone_state = broadcast_state_new lone_certificate lone_validator 1 1 1 (full_view {lone_validator}) True
     (\<lambda>m. Some (vid_bytes lone_validator, m))"

lemma channel_init: "(\<lambda>_. c)(0 := c) = (\<lambda>_ :: nat. c)"
  by auto

text \<open>A message of the certificate goes through the manager to the task, and the task is polled.\<close>

lemma lone_message:
  assumes run: "node_run toy_ethers lone_config {lone_validator} empty_validator cmds s k (lone_manager t)"
    and pass: "double_echo_on_command toy_ethers True msg s = (s', DeRunning)" "de_sent s' = de_sent s @ [msg]"
    and msg: "cmd_certificate_id msg = Some lone_id" and t: "task_started t" "task_channel t = 0"
    and out: "poll_task lone_config 0 ((lone_manager t)\<lparr>tm_channels :=
      (\<lambda>_. \<lparr>chan_queue = [], chan_open = True\<rparr>)(0 := \<lparr>chan_queue = [msg], chan_open = True\<rparr>)\<rparr>) = Some tm'"
  shows "node_run toy_ethers lone_config {lone_validator} empty_validator (cmds @ [msg]) s' k tm'"
proof -
  let ?tm = "lone_manager t" and ?ch = "(\<lambda>_. \<lparr>chan_queue = [], chan_open = True\<rparr>)(0 := \<lparr>chan_queue = [msg], chan_open = True\<rparr>)"
  let ?one = "?tm\<lparr>tm_messages := [msg]\<rparr>" and ?two = "?tm\<lparr>tm_sending := Some (0, msg)\<rparr>"
  have fields: "\<not> tm_panicked ?tm" "tm_sending ?tm = None" "tm_messages ?tm = []" "tm_tasks ?tm lone_id = Some 0"
    "tm_running ?tm = [t]" "tm_channels ?tm = (\<lambda>_. \<lparr>chan_queue = [], chan_open = True\<rparr>)"
    by (simp_all add: lone_manager_def task_manager_new_def)
  have one: "node_run toy_ethers lone_config {lone_validator} empty_validator (cmds @ [msg]) s' k ?one"
    using node_run.command [OF run pass(1)] pass(2) fields(3) by simp
  have "tm_step lone_config ?one (?one\<lparr>tm_messages := [], tm_sending := Some (0, msg)\<rparr>)"
    by (rule receive_and_send [OF _ _ _ msg]) (simp_all add: fields)
  moreover have "?one\<lparr>tm_messages := [], tm_sending := Some (0, msg)\<rparr> = ?two"
    using fields(3) by simp
  ultimately have two: "node_run toy_ethers lone_config {lone_validator} empty_validator (cmds @ [msg]) s' k ?two"
    using node_run.work [OF one] by simp
  have "channel_send 0 msg (?two\<lparr>tm_sending := None\<rparr>) = Some (?tm\<lparr>tm_channels := ?ch\<rparr>)"
    using fields(2,6) by (simp add: channel_send_def TASK_CHANNEL_SIZE_def)
  then have "tm_step lone_config ?two (?tm\<lparr>tm_channels := ?ch\<rparr>)"
    by (intro tm_step.send [of ?two 0 msg]) (simp_all add: fields)
  from node_run.work [OF two this] have three:
    "node_run toy_ethers lone_config {lone_validator} empty_validator (cmds @ [msg]) s' k (?tm\<lparr>tm_channels := ?ch\<rparr>)" .
  have "tm_step lone_config (?tm\<lparr>tm_channels := ?ch\<rparr>) tm'"
    by (rule tm_step.poll [OF _ _ _ out]) (simp_all add: fields)
  from node_run.work [OF three this] show ?thesis .
qed

lemma lone_poll_pending:
  assumes "task_apply lower_hex msg s = (s', r)" and "r \<noteq> Some DeliveredWithReadySent"
  shows "poll_task lone_config 0 ((lone_manager (lone_task True s))\<lparr>tm_channels :=
      (\<lambda>_. \<lparr>chan_queue = [], chan_open = True\<rparr>)(0 := \<lparr>chan_queue = [msg], chan_open = True\<rparr>)\<rparr>) =
    Some (lone_manager (lone_task True s'))"
proof -
  have "cfg_hex lone_config = lower_hex" by (simp add: lone_config_def)
  then show ?thesis
    using assms
    by (simp add: poll_task_def lone_manager_def lone_task_def task_manager_new_def task_message_def channel_init)
qed

lemma lone_applies:
  fixes sg :: "bytes \<times> bytes"
  defines "s \<equiv> lone_state\<lparr>bs_expected_position := Some position_ZERO\<rparr>"
  defines "t \<equiv> fst (task_apply lower_hex (CmdReady lone_validator lone_id sg) s)"
  shows "snd (task_apply lower_hex (CmdReady lone_validator lone_id sg) s) = Some ReadySent"
    and "snd (task_apply lower_hex (CmdEcho lone_validator lone_id sg) t) = Some DeliveredWithReadySent"
    and "bs_certificate (fst (task_apply lower_hex (CmdEcho lone_validator lone_id sg) t)) = lone_certificate"
    and "bs_expected_position (fst (task_apply lower_hex (CmdEcho lone_validator lone_id sg) t)) = Some position_ZERO"
  unfolding t_def s_def
  by (simp_all add: task_apply_def apply_ready_def apply_echo_def update_status_def lone_state_def
      broadcast_state_new_def full_view_def reached_ready_threshold_def reached_delivery_threshold_def checked_sub_def Let_def)

section \<open>The run\<close>

definition lone_echo :: "(bytes \<times> bytes) double_echo_command list \<Rightarrow> (bytes \<times> bytes) double_echo" where
  "lone_echo sent = (double_echo_new (cfg_thresholds lone_config) (cfg_validator_id lone_config) {lone_validator})\<lparr>de_sent := sent\<rparr>"

lemma lone_echo_command:
  assumes "msg = CmdBroadcast True lone_certificate \<or> msg = CmdReady lone_validator lone_id lone_signature \<or>
    msg = CmdEcho lone_validator lone_id lone_signature"
  shows "double_echo_on_command toy_ethers True msg (lone_echo sent) = (lone_echo (sent @ [msg]), DeRunning)"
  using assms lone_authenticated
  by (auto simp: double_echo_on_command_def lone_echo_def double_echo_new_def broadcast_def cert_pre_broadcast_check_def
      delivery_state_for_new_cert_def handle_ready_def handle_echo_def sv_is_some_def sv_is_none_def)

lemma lone_start:
  "node_run toy_ethers lone_config {lone_validator} empty_validator [CmdBroadcast True lone_certificate]
     (lone_echo [CmdBroadcast True lone_certificate]) 0
     (lone_manager (lone_task True (lone_state\<lparr>bs_expected_position := Some position_ZERO\<rparr>)))"
proof -
  let ?b = "CmdBroadcast True lone_certificate" and ?new = "task_manager_new empty_validator"
  let ?run = "node_run toy_ethers lone_config {lone_validator} empty_validator [?b] (lone_echo [?b]) 0"
  have "node_run toy_ethers lone_config {lone_validator} empty_validator [] (lone_echo []) 0 ?new"
    using node_run.boot [of toy_ethers lone_config "{lone_validator}" empty_validator]
    by (simp add: lone_echo_def double_echo_new_def)
  from node_run.command [OF this lone_echo_command [of ?b]] have one: "?run (?new\<lparr>tm_messages := [?b]\<rparr>)"
    by (simp add: task_manager_new_def lone_echo_def)
  have "tm_command lone_config ?b (?new\<lparr>tm_messages := []\<rparr>) = lone_manager (lone_task False lone_state)"
    by (simp add: task_manager_new_def create_task_def Let_def start_task_def task_new_def lone_manager_def lone_task_def
        lone_state_def lone_config_def)
  moreover have "tm_step lone_config (?new\<lparr>tm_messages := [?b]\<rparr>)
      (tm_command lone_config ?b ((?new\<lparr>tm_messages := [?b]\<rparr>)\<lparr>tm_messages := []\<rparr>))"
    by (rule tm_step.receive) (simp_all add: task_manager_new_def)
  ultimately have two: "?run (lone_manager (lone_task False lone_state))"
    using node_run.work [OF one] by simp
  have ready: "fullnode_ready mem_env (vs_fullnode empty_validator)"
    using empty_validator_ready by (simp add: validator_ready_def)
  have "db_column_get (env_rocks mem_env) (source_list_col (env_bincode mem_env)) example_source
      (fs_index (vs_fullnode empty_validator)) = Inr (fv_source_list (fullnode_view mem_env (vs_fullnode empty_validator)) example_source)"
    using db_column_get_reliable [OF fullnode_laws(1) [OF ready] mem_env_reliable table_laws(6) [OF fullnode_laws(2) [OF ready]]
        fullnode_columns_ready(6) [OF ready] example_subnets(3)]
    by (simp add: fullnode_view_def)
  then have "validator_last_delivered_position_for_subnet mem_env example_source empty_validator = Inr None"
    by (simp add: validator_last_delivered_position_for_subnet_def empty_validator_views) (simp add: empty_view_def)
  then have "task_start lone_config empty_validator (lone_task False lone_state) =
      Inr (lone_task True (lone_state\<lparr>bs_expected_position := Some position_ZERO\<rparr>))"
    by (simp add: task_start_def lone_config_def lone_task_def lone_state_def)
  then have "poll_task lone_config 0 (lone_manager (lone_task False lone_state)) =
      Some (lone_manager (lone_task True (lone_state\<lparr>bs_expected_position := Some position_ZERO\<rparr>)))"
    by (simp add: poll_task_def lone_manager_def task_manager_new_def lone_task_def)
  then have "tm_step lone_config (lone_manager (lone_task False lone_state))
      (lone_manager (lone_task True (lone_state\<lparr>bs_expected_position := Some position_ZERO\<rparr>)))"
    by (rule tm_step.poll [rotated 3]) (simp_all add: lone_manager_def task_manager_new_def)
  from node_run.work [OF two this] show ?thesis .
qed

text \<open>The commands of the run: the certificate, a Ready and an Echo.\<close>

abbreviation lone_commands :: "(bytes \<times> bytes) double_echo_command list" where
  "lone_commands \<equiv> [CmdBroadcast True lone_certificate, CmdReady lone_validator lone_id lone_signature,
     CmdEcho lone_validator lone_id lone_signature]"

lemma lone_delivers:
  obtains tm cd p where "node_run toy_ethers lone_config {lone_validator} empty_validator lone_commands (lone_echo lone_commands) 0 tm"
    "(cd, p) \<in> set (tm_published tm)" "cd_certificate cd = lone_certificate"
proof -
  let ?ready = "CmdReady lone_validator lone_id lone_signature" and ?echo = "CmdEcho lone_validator lone_id lone_signature"
  let ?s = "lone_state\<lparr>bs_expected_position := Some position_ZERO\<rparr>"
  define t where "t = fst (task_apply lower_hex ?ready ?s)"
  define u where "u = fst (task_apply lower_hex ?echo t)"
  note applies = lone_applies [of lone_signature, folded t_def, folded u_def]
  have "poll_task lone_config 0 ((lone_manager (lone_task True ?s))\<lparr>tm_channels :=
      (\<lambda>_. \<lparr>chan_queue = [], chan_open = True\<rparr>)(0 := \<lparr>chan_queue = [?ready], chan_open = True\<rparr>)\<rparr>) =
      Some (lone_manager (lone_task True t))"
    using applies(1) by (intro lone_poll_pending [of ?ready ?s t "Some ReadySent"]) (simp_all add: t_def prod_eq_iff)
  from lone_message [OF lone_start lone_echo_command _ _ _ _ this]
  have run: "node_run toy_ethers lone_config {lone_validator} empty_validator [CmdBroadcast True lone_certificate, ?ready]
      (lone_echo [CmdBroadcast True lone_certificate, ?ready]) 0 (lone_manager (lone_task True t))"
    by (simp add: lone_echo_def lone_task_def)
  obtain cd where cd: "into_delivered (cfg_iter lone_config) u = Inr cd" "cd_certificate cd = lone_certificate"
    "delivery_position (cd_proof_of_delivery cd) = source_position example_source position_ZERO"
    using applies(3,4) by (simp add: into_delivered_def)
  have wf: "wf_delivered cd"
    using cd(2,3) chain_certificate_wf [OF chain_ids(2), of 7] by (simp add: wf_delivered_def wf_source_position_def example_subnets)
  obtain f where f: "insert_certificate_delivered mem_env cd empty_fullnode = (f, Inr (delivered_positions empty_view cd))"
    using fullnode_insert_reliable [OF empty_fullnode_ready mem_env_reliable wf]
    by (auto simp: empty_fullnode_view empty_available) (auto simp: empty_view_def)
  then obtain store where store: "validator_insert_certificate_delivered mem_env cd empty_validator =
      (store, Inr (delivered_positions empty_view cd))"
    using validator_delivery [OF empty_validator_ready mem_env_reliable wf, of f]
    by (auto simp: empty_validator_views) (auto simp: empty_validator_def)
  let ?tm = "(lone_manager (lone_task True t))\<lparr>tm_channels :=
      (\<lambda>_. \<lparr>chan_queue = [], chan_open = True\<rparr>)(0 := \<lparr>chan_queue = [?echo], chan_open = True\<rparr>)\<rparr>"
  have "persist lone_config (lone_task True u) empty_validator = (store, Inr (cd, delivered_positions empty_view cd))"
    using cd(1) store by (simp add: persist_def lone_task_def lone_config_def)
  then have "task_message lone_config ?echo (lone_task True t) empty_validator =
      (store, PollReady TaskSuccess (Some (cd, delivered_positions empty_view cd)))"
    using applies(2) by (simp add: task_message_alt lone_config_def lone_task_def u_def)
  then obtain tm where tm: "poll_task lone_config 0 ?tm = Some tm" "tm_published tm = [(cd, delivered_positions empty_view cd)]"
    by (simp add: poll_task_def lone_manager_def task_manager_new_def lone_task_def end_task_def task_finished_def
        close_channel_def Let_def)
  from lone_message [OF run lone_echo_command _ _ _ _ tm(1)]
  have "node_run toy_ethers lone_config {lone_validator} empty_validator lone_commands (lone_echo lone_commands) 0 tm"
    by (simp add: lone_echo_def lone_task_def)
  with tm(2) cd(2) that show thesis by simp
qed

section \<open>The properties at this node\<close>

lemma lone_manager_run:
  obtains tm cd p where "tm_run lone_config empty_validator lone_commands tm" "(cd, p) \<in> set (tm_published tm)"
    "cd_certificate cd = lone_certificate"
proof -
  obtain tm cd p where run: "node_run toy_ethers lone_config {lone_validator} empty_validator lone_commands (lone_echo lone_commands) 0 tm"
    "(cd, p) \<in> set (tm_published tm)" "cd_certificate cd = lone_certificate" by (rule lone_delivers)
  from node_run_manager [OF run(1)] have "tm_run lone_config empty_validator lone_commands tm" by (simp add: lone_echo_def)
  with run(2,3) that show thesis by blast
qed

lemma lone_config_env: "cfg_env lone_config = mem_env"
  by (simp add: lone_config_def)

theorem stored_certificate_has_ready_quorum_witness:
  "\<exists>tm cd p. tm_run lone_config empty_validator lone_commands tm \<and> (cd, p) \<in> set (tm_published tm) \<and>
     quorum_proof lone_config {lone_validator} (set lone_commands) cd"
proof -
  obtain tm cd p where tm: "tm_run lone_config empty_validator lone_commands tm" "(cd, p) \<in> set (tm_published tm)"
    by (rule lone_manager_run)
  from stored_certificate_has_ready_quorum [OF tm(1) _ lone_laws tm(2)] empty_validator_invar tm show ?thesis
    by (auto simp: lone_config_env)
qed

theorem stored_after_predecessor_witness:
  "\<exists>tm cd p. tm_run lone_config empty_validator lone_commands tm \<and> (cd, p) \<in> set (tm_published tm) \<and>
     predecessor_delivered lone_config (tm_store tm) (cd_certificate cd)"
proof -
  obtain tm cd p where tm: "tm_run lone_config empty_validator lone_commands tm" "(cd, p) \<in> set (tm_published tm)"
    by (rule lone_manager_run)
  from stored_after_predecessor [OF tm(1) _ lone_laws tm(2)] empty_validator_invar tm show ?thesis
    by (auto simp: lone_config_env)
qed

theorem published_certificate_authenticated_witness:
  "\<exists>s tm cd p. node_run toy_ethers lone_config {lone_validator} empty_validator lone_commands s 0 tm \<and>
     (cd, p) \<in> set (tm_published tm) \<and> 1 \<le> length (pod_readies (cd_proof_of_delivery cd))"
proof -
  obtain tm cd p where tm: "node_run toy_ethers lone_config {lone_validator} empty_validator lone_commands (lone_echo lone_commands) 0 tm"
    "(cd, p) \<in> set (tm_published tm)" by (rule lone_delivers)
  have "rp_delivery_threshold (cfg_thresholds lone_config) = 1" by (simp add: lone_config_def)
  with published_certificate_authenticated [OF tm(1) _ lone_laws tm(2)] empty_validator_invar tm show ?thesis
    by (fastforce simp: lone_config_env Let_def)
qed

lemma overwritten_waiting_task_lost_witness:
  "let c = chain_certificate 8 lone_id; d = chain_certificate 9 lone_id;
       tm = tm_command lone_config (CmdBroadcast False d)
         (tm_command lone_config (CmdBroadcast False c) (task_manager_new empty_validator)) in
   tm_tasks tm (cert_id c) \<noteq> None \<and> (\<forall>st. (cert_id c, st) \<notin> set (tm_completions tm))"
proof -
  let ?c = "chain_certificate 8 lone_id" and ?d = "chain_certificate 9 lone_id"
    and ?tm = "task_manager_new empty_validator :: (mem_value mem_db, bytes \<times> bytes) task_manager"
  have ready: "fullnode_ready mem_env (vs_fullnode empty_validator)"
    using empty_validator_ready by (simp add: validator_ready_def)
  have "validator_get_certificate (cfg_env lone_config) (prev_id ?c) (tm_store ?tm) = Inr None"
    using get_certificate_reliable [OF ready mem_env_reliable chain_ids(1) [of 7]]
    by (simp add: validator_get_certificate_def lone_config_env task_manager_new_def empty_validator_views)
      (simp add: empty_view_def)
  from overwritten_waiting_task_lost [OF this, of ?d False False] chain_ids(3) show ?thesis
    by (simp add: task_manager_new_def tm_all_tasks_def Let_def)
qed

theorem manager_can_deadlock_witness:
  "\<exists>tm :: (mem_value mem_db, bytes \<times> bytes) task_manager. \<forall>tm''. (tm_env_step lone_config)\<^sup>*\<^sup>* tm tm'' \<longrightarrow>
     tm_sending tm'' \<noteq> None \<and> tm_running tm'' = tm_running tm"
proof -
  let ?echo = "CmdEcho lone_validator lone_id lone_signature"
  let ?tm = "(lone_manager (lone_task True lone_state))\<lparr>tm_messages := replicate (Suc TASK_CHANNEL_SIZE) ?echo\<rparr>"
  have "\<not> tm_panicked ?tm" "tm_sending ?tm = None" "tm_messages ?tm = replicate (Suc TASK_CHANNEL_SIZE) ?echo @ []"
    "\<forall>m \<in> set (replicate (Suc TASK_CHANNEL_SIZE) ?echo). cmd_certificate_id m = Some lone_id" "tm_tasks ?tm lone_id = Some 0"
    "chan_open (tm_channels ?tm 0)"
    "length (chan_queue (tm_channels ?tm 0)) + length (replicate (Suc TASK_CHANNEL_SIZE) ?echo) = Suc TASK_CHANNEL_SIZE"
    "length (chan_queue (tm_channels ?tm 0)) \<le> TASK_CHANNEL_SIZE"
    by (simp_all add: lone_manager_def task_manager_new_def)
  from manager_can_deadlock [OF this, of lone_config] show ?thesis by blast
qed


theorem echo_signature_passes_as_ready_witness:
  "double_echo_on_command toy_ethers True (CmdReady lone_validator lone_id lone_signature) (lone_echo []) =
     ((lone_echo [])\<lparr>de_sent := [CmdReady lone_validator lone_id lone_signature]\<rparr>, DeRunning)"
  using echo_signature_passes_as_ready [OF lone_echo_command [of _ "[]"], of lone_validator lone_id lone_signature]
  by (simp add: lone_echo_def double_echo_new_def)

end
