(* ===== verification/Task_Manager_Channels.thy ===== *)
theory Task_Manager_Channels
  imports Broadcast_Examples
begin

text \<open>
  The other task manager of the broadcast, \<^verbatim>\<open>task_manager_channels/mod.rs\<close> and \<^verbatim>\<open>task.rs\<close>, that the
  feature \<^verbatim>\<open>task-manager-channels\<close> selects: the tasks are spawned and report their completion
  through a channel. It knows no precedence between certificates, and its tasks do not store
  what they deliver.
\<close>

section \<open>Tasks\<close>

record 'sig ch_task =
  ct_certificate_id :: certificate_id
  ct_channel :: nat
  ct_state :: "'sig broadcast_state"

record ('db, 'sig) ch_manager =
  chm_messages :: "'sig double_echo_command list"
  chm_completions :: "(certificate_id \<times> task_status) list"
  chm_notified :: "(certificate_id \<times> task_status) list"
  chm_tasks :: "certificate_id \<rightharpoonup> nat"
  chm_running :: "'sig ch_task list"
  chm_buffered :: "certificate_id \<rightharpoonup> 'sig double_echo_command list"
  chm_channels :: "nat \<Rightarrow> 'sig channel"
  chm_next_channel :: nat
  chm_forwarders :: "(nat \<times> 'sig double_echo_command list) list"
  chm_sending :: "(nat \<times> 'sig double_echo_command) option"
  chm_store :: "'db validator_store"

definition ch_manager_new :: "'db validator_store \<Rightarrow> ('db, 'sig) ch_manager" where
  "ch_manager_new store =
     \<lparr>chm_messages = [], chm_completions = [], chm_notified = [], chm_tasks = Map.empty, chm_running = [],
      chm_buffered = Map.empty, chm_channels = (\<lambda>_. \<lparr>chan_queue = [], chan_open = True\<rparr>), chm_next_channel = 0,
      chm_forwarders = [], chm_sending = None, chm_store = store\<rparr>"

definition ch_task_new :: "certificate_id \<Rightarrow> 'sig broadcast_state \<Rightarrow> nat \<Rightarrow> 'sig ch_task" where
  "ch_task_new cid state ch = \<lparr>ct_certificate_id = cid, ct_channel = ch, ct_state = state\<rparr>"

text \<open>\<open>Task::persist\<close>, which nothing calls.\<close>

definition ch_persist ::
  "('db, 'b, 'sig) tm_config \<Rightarrow> 'sig ch_task \<Rightarrow> 'db validator_store \<Rightarrow>
   'db validator_store \<times> (storage_error failure + certificate_positions)" where
  "ch_persist cfg t store =
     (case into_delivered (cfg_iter cfg) (ct_state t) of
        Inl _ \<Rightarrow> (store, Inl Panic)
      | Inr cd \<Rightarrow>
          (case validator_insert_certificate_delivered (cfg_env cfg) cd store of
             (store, Inl e) \<Rightarrow> (store, Inl (Failed e))
           | (store, Inr positions) \<Rightarrow> (store, Inr positions)))"

text \<open>One message of \<open>Task::run\<close>: the task goes on, or reports its success and ends (\<open>None\<close>).\<close>

definition ch_task_message :: "hex \<Rightarrow> 'sig double_echo_command \<Rightarrow> 'sig ch_task \<Rightarrow> 'sig ch_task option" where
  "ch_task_message H msg t =
     (case msg of
        CmdEcho vid _ _ \<Rightarrow>
          (case apply_echo vid (ct_state t) of
             (_, Some DeliveredWithReadySent) \<Rightarrow> None
           | (s, _) \<Rightarrow> Some (t\<lparr>ct_state := s\<rparr>))
      | CmdReady vid _ _ \<Rightarrow>
          (case apply_ready H vid (ct_state t) of
             (_, Some DeliveredWithReadySent) \<Rightarrow> None
           | (s, _) \<Rightarrow> Some (t\<lparr>ct_state := s\<rparr>))
      | CmdBroadcast _ _ \<Rightarrow> Some t)"

section \<open>The manager\<close>

definition ch_route_message ::
  "certificate_id \<Rightarrow> 'sig double_echo_command \<Rightarrow> ('db, 'sig) ch_manager \<Rightarrow> ('db, 'sig) ch_manager" where
  "ch_route_message cid msg m =
     (case chm_tasks m cid of
        Some sink \<Rightarrow> m\<lparr>chm_sending := Some (sink, msg)\<rparr>
      | None \<Rightarrow> m\<lparr>chm_buffered := (chm_buffered m)
          (cid \<mapsto> (case chm_buffered m cid of None \<Rightarrow> [] | Some ms \<Rightarrow> ms) @ [msg])\<rparr>)"

definition ch_create_task ::
  "('db, 'b, 'sig) tm_config \<Rightarrow> bool \<Rightarrow> certificate \<Rightarrow> ('db, 'sig) ch_manager \<Rightarrow> ('db, 'sig) ch_manager" where
  "ch_create_task cfg need_gossip cert m =
     (let state = broadcast_state_new cert (cfg_validator_id cfg) (rp_echo_threshold (cfg_thresholds cfg))
            (rp_ready_threshold (cfg_thresholds cfg)) (rp_delivery_threshold (cfg_thresholds cfg))
            (cfg_subscriptions cfg) need_gossip (cfg_signer cfg);
          ch = chm_next_channel m;
          m = m\<lparr>chm_next_channel := Suc ch, chm_running := chm_running m @ [ch_task_new (cert_id cert) state ch]\<rparr>;
          m = (case chm_buffered m (cert_id cert) of
                 Some ms \<Rightarrow> m\<lparr>chm_buffered := (chm_buffered m)(cert_id cert := None),
                               chm_forwarders := chm_forwarders m @ [(ch, ms)]\<rparr>
               | None \<Rightarrow> m) in
      m\<lparr>chm_tasks := (chm_tasks m)(cert_id cert \<mapsto> ch)\<rparr>)"

fun ch_command ::
  "('db, 'b, 'sig) tm_config \<Rightarrow> 'sig double_echo_command \<Rightarrow> ('db, 'sig) ch_manager \<Rightarrow> ('db, 'sig) ch_manager" where
  "ch_command cfg (CmdEcho v cid sg) m = ch_route_message cid (CmdEcho v cid sg) m"
| "ch_command cfg (CmdReady v cid sg) m = ch_route_message cid (CmdReady v cid sg) m"
| "ch_command cfg (CmdBroadcast need_gossip cert) m =
     (case chm_tasks m (cert_id cert) of
        Some _ \<Rightarrow> m
      | None \<Rightarrow> ch_create_task cfg need_gossip cert m)"

text \<open>A completion removes the context whatever the status.\<close>

definition ch_completion :: "('db, 'sig) ch_manager \<Rightarrow> ('db, 'sig) ch_manager" where
  "ch_completion m =
     (case chm_completions m of
        [] \<Rightarrow> m
      | (cid, st) # rest \<Rightarrow>
          m\<lparr>chm_completions := rest, chm_tasks := (chm_tasks m)(cid := None), chm_notified := chm_notified m @ [(cid, st)]\<rparr>)"

text \<open>A spawned task takes a message from its channel.\<close>

definition ch_poll_task ::
  "('db, 'b, 'sig) tm_config \<Rightarrow> nat \<Rightarrow> ('db, 'sig) ch_manager \<Rightarrow> ('db, 'sig) ch_manager option" where
  "ch_poll_task cfg i m =
     (let t = chm_running m ! i; c = chm_channels m (ct_channel t) in
      case chan_queue c of
        [] \<Rightarrow> None
      | msg # rest \<Rightarrow> Some
          (case ch_task_message (cfg_hex cfg) msg t of
             Some t \<Rightarrow> m\<lparr>chm_channels := (chm_channels m)(ct_channel t := c\<lparr>chan_queue := rest\<rparr>),
                         chm_running := (chm_running m)[i := t]\<rparr>
           | None \<Rightarrow> m\<lparr>chm_channels := (chm_channels m)(ct_channel t := \<lparr>chan_queue = rest, chan_open = False\<rparr>),
                       chm_running := take i (chm_running m) @ drop (Suc i) (chm_running m),
                       chm_completions := chm_completions m @ [(ct_certificate_id t, TaskSuccess)]\<rparr>))"

section \<open>The two managers\<close>

text \<open>The part of the state of the futures manager that both have.\<close>

definition as_channels :: "('db, 'sig) task_manager \<Rightarrow> ('db, 'sig) ch_manager" where
  "as_channels tm =
     \<lparr>chm_messages = tm_messages tm, chm_completions = [], chm_notified = tm_completions tm, chm_tasks = tm_tasks tm,
      chm_running = map (\<lambda>t. ch_task_new (task_certificate_id t) (task_state t) (task_channel t)) (tm_running tm),
      chm_buffered = tm_buffered tm, chm_channels = tm_channels tm, chm_next_channel = tm_next_channel tm,
      chm_forwarders = tm_forwarders tm, chm_sending = tm_sending tm, chm_store = tm_store tm\<rparr>"

lemma route_message_agrees: "as_channels (route_message cid msg tm) = ch_route_message cid msg (as_channels tm)"
  by (simp add: as_channels_def route_message_def ch_route_message_def split: option.split)

lemma create_task_agrees:
  assumes "(case validator_get_certificate (cfg_env cfg) (prev_id cert) (tm_store tm) of Inr (Some _) \<Rightarrow> True | _ \<Rightarrow> False) \<or>
      prev_id cert = INITIAL_CERTIFICATE_ID"
  shows "as_channels (create_task cfg g cert tm) = ch_create_task cfg g cert (as_channels tm)"
  using assms
  by (auto simp: as_channels_def create_task_def ch_create_task_def start_task_def task_new_def ch_task_new_def Let_def
      fun_eq_iff split: option.split)

text \<open>
  C26: As long as the predecessors of the broadcast certificates are delivered, the two task
  managers handle any command the same way: they route and buffer the messages, create the
  tasks and forward the buffered messages alike. They differ only in the certificates that
  have to wait.
\<close>

theorem managers_handle_commands_alike:
  assumes "\<forall>g cert. cmd = CmdBroadcast g cert \<longrightarrow> prev_id cert = INITIAL_CERTIFICATE_ID \<or>
      (\<exists>c. validator_get_certificate (cfg_env cfg) (prev_id cert) (tm_store tm) = Inr (Some c))"
  shows "as_channels (tm_command cfg cmd tm) = ch_command cfg cmd (as_channels tm)"
proof (cases cmd)
  case (CmdBroadcast g cert)
  have same: "chm_tasks (as_channels tm) = tm_tasks tm" by (simp add: as_channels_def)
  from CmdBroadcast assms create_task_agrees [of cfg cert tm g] show ?thesis
    by (auto simp: same split: option.split)
qed (simp_all add: route_message_agrees)

theorem managers_handle_commands_alike_witness:
  "as_channels (tm_command lone_config (CmdBroadcast True lone_certificate) (task_manager_new empty_validator)) =
     ch_command lone_config (CmdBroadcast True lone_certificate) (ch_manager_new empty_validator)"
  using managers_handle_commands_alike [of "CmdBroadcast True lone_certificate" lone_config "task_manager_new empty_validator"]
  by (simp add: as_channels_def task_manager_new_def ch_manager_new_def)

end
