(* ===== verification/Clock.thy ===== *)
theory Clock
  imports Prelude
begin

text \<open>
  The crate \<^verbatim>\<open>topos-clock\<close>, \<^verbatim>\<open>time.rs\<close>: a clock that counts one block per second since a genesis date
  and announces the change of the epoch. Dates are nanoseconds; \<open>None\<close> is the panic of a division by
  an epoch duration of zero. The atomic counters are words, and \<^verbatim>\<open>fetch_add\<close> wraps.
\<close>

record time_clock =
  genesis :: int
  current_block :: u64
  epoch_duration :: u64
  current_epoch :: u64

datatype clock_event = EpochChange u64

text \<open>\<^verbatim>\<open>num_seconds\<close> of a signed duration truncates towards zero.\<close>

definition num_seconds :: "int \<Rightarrow> int" where
  "num_seconds d = sgn d * (\<bar>d\<bar> div 1000000000)"

definition compute_block :: "int \<Rightarrow> time_clock \<Rightarrow> time_clock" where
  "compute_block now c = c\<lparr>current_block := of_int (max (num_seconds (now - genesis c)) 0)\<rparr>"

definition compute_epoch :: "time_clock \<Rightarrow> time_clock option" where
  "compute_epoch c =
     (if epoch_duration c = 0 then None
      else Some (c\<lparr>current_epoch := current_block c div epoch_duration c\<rparr>))"

definition time_clock_new :: "int \<Rightarrow> int \<Rightarrow> u64 \<Rightarrow> time_clock option" where
  "time_clock_new now gen duration =
     compute_epoch (compute_block now
       \<lparr>genesis = gen, current_block = 0, epoch_duration = duration, current_epoch = 0\<rparr>)"

definition clock_spawn :: "int \<Rightarrow> time_clock \<Rightarrow> time_clock option" where
  "clock_spawn now c = compute_epoch (compute_block now c)"

definition clock_tick :: "time_clock \<Rightarrow> (time_clock \<times> clock_event list) option" where
  "clock_tick c =
     (let c = c\<lparr>current_block := current_block c + 1\<rparr> in
      if epoch_duration c = 0 then None
      else if current_block c mod epoch_duration c = 0
      then map_option (\<lambda>c. (c, [EpochChange (current_epoch c)])) (compute_epoch c)
      else Some (c, []))"

fun clock_run :: "nat \<Rightarrow> time_clock \<Rightarrow> (time_clock \<times> clock_event list) option" where
  "clock_run 0 c = Some (c, [])"
| "clock_run (Suc n) c =
     (case clock_run n c of None \<Rightarrow> None
      | Some (c, evs) \<Rightarrow> map_option (\<lambda>(c, evs'). (c, evs @ evs')) (clock_tick c))"

lemma compute_epoch_zero: "epoch_duration c = 0 \<Longrightarrow> compute_epoch c = None"
  by (simp add: compute_epoch_def)

text \<open>The announcements of the epochs after \<open>a\<close> up to \<open>b\<close>.\<close>

definition epoch_changes :: "nat \<Rightarrow> nat \<Rightarrow> clock_event list" where
  "epoch_changes a b = map (\<lambda>e. EpochChange (of_nat e)) [Suc a..<Suc b]"

lemma epoch_changes_simps [simp]:
  "epoch_changes a a = []" "epoch_changes a (Suc a) = [EpochChange (of_nat (Suc a))]"
  by (simp_all add: epoch_changes_def del: of_nat_Suc)

lemma epoch_changes_append:
  "a \<le> b \<Longrightarrow> b \<le> c \<Longrightarrow> epoch_changes a b @ epoch_changes b c = epoch_changes a c"
  unfolding epoch_changes_def map_append [symmetric]
  by (metis Suc_le_mono le_add_diff_inverse upt_add_eq_append)

definition epoch_current :: "time_clock \<Rightarrow> bool" where
  "epoch_current c \<longleftrightarrow> epoch_duration c \<noteq> 0 \<and> current_epoch c = current_block c div epoch_duration c"

lemma clock_tick_exact:
  assumes "epoch_current c" and "unat (current_block c) + 1 < 2 ^ 64"
  shows "\<exists>c' evs. clock_tick c = Some (c', evs) \<and> epoch_duration c' = epoch_duration c \<and> epoch_current c' \<and>
    unat (current_block c') = unat (current_block c) + 1 \<and>
    evs = epoch_changes (unat (current_epoch c)) (unat (current_epoch c'))"
proof -
  let ?b = "unat (current_block c)" and ?d = "unat (epoch_duration c)"
  have b: "unat (current_block c + 1) = ?b + 1" using assms(2) by (simp add: unat_word_ariths)
  have d: "epoch_duration c \<noteq> 0" and e: "unat (current_epoch c) = ?b div ?d"
    using assms(1) by (auto simp: epoch_current_def unat_div)
  have mod: "(current_block c + 1) mod epoch_duration c = 0 \<longleftrightarrow> (?b + 1) mod ?d = 0"
    by (simp only: word_unat_eq_iff unat_mod b unat_0)
  have div: "unat ((current_block c + 1) div epoch_duration c) = (?b + 1) div ?d"
    using b by (simp only: unat_div)
  show ?thesis
  proof (cases "(?b + 1) mod ?d = 0")
    case True
    let ?e = "(current_block c + 1) div epoch_duration c"
    have "unat ?e = Suc (unat (current_epoch c))" using True div e by (simp add: div_Suc)
    then have ev: "epoch_changes (unat (current_epoch c)) (unat ?e) = [EpochChange (of_nat (unat ?e))]"
      by (simp only: epoch_changes_simps)
    let ?c = "c\<lparr>current_block := current_block c + 1, current_epoch := ?e\<rparr>"
    have "clock_tick c = Some (?c, epoch_changes (unat (current_epoch c)) (unat ?e))"
      using True mod d by (simp add: clock_tick_def compute_epoch_def Let_def ev)
    then show ?thesis using d b by (intro exI [of _ ?c] exI [of _ "epoch_changes (unat (current_epoch c)) (unat ?e)"])
      (simp add: epoch_current_def)
  next
    case False
    then have "unat ((current_block c + 1) div epoch_duration c) = unat (current_epoch c)"
      using div e by (simp add: div_Suc)
    then have "(current_block c + 1) div epoch_duration c = current_epoch c" by (simp only: word_unat_eq_iff)
    moreover have "clock_tick c = Some (c\<lparr>current_block := current_block c + 1\<rparr>, [])"
      using False mod d by (simp add: clock_tick_def Let_def)
    ultimately show ?thesis using d b by (simp add: epoch_current_def)
  qed
qed

lemma clock_run_exact:
  assumes "epoch_current c" and "unat (current_block c) + n < 2 ^ 64"
  shows "\<exists>c' evs. clock_run n c = Some (c', evs) \<and> epoch_duration c' = epoch_duration c \<and> epoch_current c' \<and>
    unat (current_block c') = unat (current_block c) + n \<and> unat (current_epoch c) \<le> unat (current_epoch c') \<and>
    evs = epoch_changes (unat (current_epoch c)) (unat (current_epoch c'))"
  using assms
proof (induction n)
  case (Suc n)
  then obtain c' evs where c': "clock_run n c = Some (c', evs)" "epoch_duration c' = epoch_duration c"
      "epoch_current c'" "unat (current_block c') = unat (current_block c) + n"
      "unat (current_epoch c) \<le> unat (current_epoch c')"
      "evs = epoch_changes (unat (current_epoch c)) (unat (current_epoch c'))"
    by auto
  then have "unat (current_block c') + 1 < 2 ^ 64" using Suc.prems(2) by simp
  from clock_tick_exact [OF c'(3) this] obtain d evs' where d: "clock_tick c' = Some (d, evs')"
      "epoch_duration d = epoch_duration c'" "epoch_current d" "unat (current_block d) = unat (current_block c') + 1"
      "evs' = epoch_changes (unat (current_epoch c')) (unat (current_epoch d))"
    by blast
  have mono: "unat (current_epoch c') \<le> unat (current_epoch d)"
    using c'(3) d(2-4) by (simp add: epoch_current_def unat_div div_le_mono)
  have "clock_run (Suc n) c = Some (d, epoch_changes (unat (current_epoch c)) (unat (current_epoch d)))"
    using c' d epoch_changes_append [OF c'(5) mono] by simp
  then show ?case using c' d mono by auto
qed simp

text \<open>
  C36: After \<open>n\<close> ticks the clock is \<open>n\<close> blocks further, its epoch is the number of whole epochs
  in the block number, and it has announced every epoch it entered, in order and once, as long
  as the block counter does not wrap.
\<close>

theorem clock_announces_every_epoch:
  assumes "clock_spawn now c0 = Some c" and "unat (current_block c) + n < 2 ^ 64"
  shows "\<exists>c' evs. clock_run n c = Some (c', evs) \<and>
    unat (current_block c') = unat (current_block c) + n \<and>
    unat (current_epoch c') = unat (current_block c') div unat (epoch_duration c) \<and>
    evs = map (\<lambda>e. EpochChange (of_nat e)) [Suc (unat (current_epoch c))..<Suc (unat (current_epoch c'))]"
proof -
  have "epoch_current c"
    using assms(1) by (auto simp: clock_spawn_def compute_epoch_def epoch_current_def split: if_splits)
  from clock_run_exact [OF this assms(2)] obtain c' evs where "clock_run n c = Some (c', evs)"
    "epoch_duration c' = epoch_duration c" "epoch_current c'" "unat (current_block c') = unat (current_block c) + n"
    "evs = epoch_changes (unat (current_epoch c)) (unat (current_epoch c'))" by blast
  moreover from this have "unat (current_epoch c') = unat (current_block c') div unat (epoch_duration c)"
    by (simp add: epoch_current_def unat_div)
  ultimately show ?thesis by (auto simp: epoch_changes_def)
qed

theorem clock_announces_every_epoch_witness:
  "\<exists>c c'. time_clock_new 30000000000 0 5 = Some c \<and> clock_spawn 30000000000 c = Some c \<and>
     clock_run 10 c = Some (c', [EpochChange 7, EpochChange 8]) \<and> unat (current_block c') = 40"
proof -
  let ?c = "\<lparr>genesis = 0, current_block = 30, epoch_duration = 5, current_epoch = 6\<rparr>"
  have new: "time_clock_new 30000000000 0 5 = Some ?c" and spawn: "clock_spawn 30000000000 ?c = Some ?c"
    by (simp_all add: time_clock_new_def clock_spawn_def compute_epoch_def compute_block_def num_seconds_def)
  have "unat (current_block ?c) + 10 < 2 ^ 64" by simp
  from clock_announces_every_epoch [OF spawn this] obtain c' evs where run: "clock_run 10 ?c = Some (c', evs)"
    "unat (current_block c') = 40" "unat (current_epoch c') = unat (current_block c') div 5"
    "evs = map (\<lambda>e. EpochChange (of_nat e)) [Suc 6..<Suc (unat (current_epoch c'))]"
    by auto
  then have "evs = [EpochChange 7, EpochChange 8]" by (simp add: upt_rec)
  with new spawn run show ?thesis by auto
qed

end
