(* ===== verification/Gossip.thy ===== *)
theory Gossip
  imports Prelude "HOL-Library.Multiset"
begin

text \<open>
  The gossip of the peer-to-peer network (\<^verbatim>\<open>topos-p2p\<close>: \<^verbatim>\<open>behaviour/gossip.rs\<close>,
  \<^verbatim>\<open>runtime/handle_event/gossipsub.rs\<close>): the Echo and Ready messages of a node wait in two queues
  and are sent in batches at the ticks of a timer, and the batches are taken apart by the nodes that
  receive them. The bytes on the wire are the type \<open>'w\<close>. The \<^verbatim>\<open>gossipsub\<close> protocol of
  \<^verbatim>\<open>libp2p\<close> is left out: an operation returns what it hands to it, with the topic, and a
  \<open>gossip_event\<close> is what it hands over. The serialisation of a batch, by the \<^verbatim>\<open>bincode\<close> crate, is
  the parameter \<open>batch_codec\<close>.
\<close>

section \<open>The behaviour\<close>

definition TOPOS_GOSSIP :: string where
  "TOPOS_GOSSIP = ''topos_gossip''"

definition TOPOS_ECHO :: string where
  "TOPOS_ECHO = ''topos_echo''"

definition TOPOS_READY :: string where
  "TOPOS_READY = ''topos_ready''"

lemma topics_distinct [simp]:
  "TOPOS_GOSSIP \<noteq> TOPOS_ECHO" "TOPOS_GOSSIP \<noteq> TOPOS_READY" "TOPOS_ECHO \<noteq> TOPOS_READY"
  "TOPOS_ECHO \<noteq> TOPOS_GOSSIP" "TOPOS_READY \<noteq> TOPOS_GOSSIP" "TOPOS_READY \<noteq> TOPOS_ECHO"
  by (simp_all add: TOPOS_GOSSIP_def TOPOS_ECHO_def TOPOS_READY_def)

record 'w batch_codec =
  serialize_batch :: "'w list \<Rightarrow> 'w option"
  deserialize_batch :: "'w \<Rightarrow> 'w list option"

definition batch_laws :: "'w batch_codec \<Rightarrow> bool" where
  "batch_laws C \<longleftrightarrow> (\<forall>data. \<exists>b. serialize_batch C data = Some b \<and> deserialize_batch C b = Some data)"

record 'w gossip_behaviour =
  batch_size :: nat
  echo_queue :: "'w list"
  ready_queue :: "'w list"

definition gossip_new :: "nat option \<Rightarrow> 'w gossip_behaviour" where
  "gossip_new env_size = \<lparr>batch_size = (case env_size of Some n \<Rightarrow> n | None \<Rightarrow> 10), echo_queue = [], ready_queue = []\<rparr>"

definition gossip_publish ::
  "string \<Rightarrow> 'w \<Rightarrow> 'w gossip_behaviour \<Rightarrow> 'w gossip_behaviour \<times> (string \<times> 'w) list \<times> (string + nat)" where
  "gossip_publish topic data g =
     (if topic = TOPOS_GOSSIP then (g, [(topic, data)], Inr 0)
      else if topic = TOPOS_ECHO then (g\<lparr>echo_queue := echo_queue g @ [data]\<rparr>, [], Inr 0)
      else if topic = TOPOS_READY then (g\<lparr>ready_queue := ready_queue g @ [data]\<rparr>, [], Inr 0)
      else (g, [], Inl ''Invalid topic''))"

text \<open>The loop that moves messages from a queue to a batch: the batch and the rest of the queue.\<close>

fun fill_batch :: "nat \<Rightarrow> 'w list \<Rightarrow> 'w list \<times> 'w list" where
  "fill_batch 0 queue = ([], queue)"
| "fill_batch (Suc n) [] = ([], [])"
| "fill_batch (Suc n) (data # queue) = (let (batch, rest) = fill_batch n queue in (data # batch, rest))"

definition flush_queue :: "'w batch_codec \<Rightarrow> string \<Rightarrow> nat \<Rightarrow> 'w list \<Rightarrow> 'w list \<times> (string \<times> 'w) list" where
  "flush_queue C topic n queue =
     (if queue = [] then (queue, [])
      else let (batch, rest) = fill_batch n queue in
        (rest, case serialize_batch C batch of Some msg \<Rightarrow> [(topic, msg)] | None \<Rightarrow> []))"

text \<open>What \<open>poll\<close> does when the timer has ticked.\<close>

definition gossip_tick ::
  "'w batch_codec \<Rightarrow> 'w gossip_behaviour \<Rightarrow> 'w gossip_behaviour \<times> (string \<times> 'w) list" where
  "gossip_tick C g =
     (let (echos, echo_msgs) = flush_queue C TOPOS_ECHO (batch_size g) (echo_queue g);
          (readies, ready_msgs) = flush_queue C TOPOS_READY (batch_size g) (ready_queue g)
      in (g\<lparr>echo_queue := echos, ready_queue := readies\<rparr>, echo_msgs @ ready_msgs))"

section \<open>Received messages\<close>

record ('p, 'w) gossip_event =
  ge_source :: "'p option"
  ge_topic :: string
  ge_message :: 'w

datatype ('p, 'w) net_event = PeerDisconnected 'p | PeersChanged "'p list" | NetGossip 'p 'w

text \<open>The rest of \<open>poll\<close>: a message of \<^verbatim>\<open>gossipsub\<close> on one of the three topics becomes an event.\<close>

definition poll_message :: "'p option \<Rightarrow> string \<Rightarrow> 'w \<Rightarrow> ('p, 'w) gossip_event option" where
  "poll_message source topic data =
     (if topic = TOPOS_GOSSIP \<or> topic = TOPOS_ECHO \<or> topic = TOPOS_READY
      then Some \<lparr>ge_source = source, ge_topic = topic, ge_message = data\<rparr> else None)"

definition handle_gossip_event :: "'w batch_codec \<Rightarrow> ('p, 'w) gossip_event \<Rightarrow> ('p, 'w) net_event list" where
  "handle_gossip_event C event =
     (case ge_source event of
        None \<Rightarrow> []
      | Some source \<Rightarrow>
          if ge_topic event = TOPOS_GOSSIP then [NetGossip source (ge_message event)]
          else if ge_topic event = TOPOS_ECHO \<or> ge_topic event = TOPOS_READY
          then (case deserialize_batch C (ge_message event) of
                  Some msg \<Rightarrow> map (NetGossip source) msg
                | None \<Rightarrow> [])
          else [])"

text \<open>The events of the messages a peer hands to \<^verbatim>\<open>gossipsub\<close>, when they arrive in this order.\<close>

definition net_events :: "'w batch_codec \<Rightarrow> 'p \<Rightarrow> (string \<times> 'w) list \<Rightarrow> ('p, 'w) net_event list" where
  "net_events C source msgs =
     concat (map (\<lambda>(topic, data). case poll_message (Some source) topic data of
       Some event \<Rightarrow> handle_gossip_event C event | None \<Rightarrow> []) msgs)"

text \<open>A node that publishes and ticks.\<close>

datatype 'w gossip_action = GossipCommand string 'w | GossipTick

fun gossip_run ::
  "'w batch_codec \<Rightarrow> 'w gossip_action list \<Rightarrow> 'w gossip_behaviour \<Rightarrow> 'w gossip_behaviour \<times> (string \<times> 'w) list" where
  "gossip_run C [] g = (g, [])"
| "gossip_run C (GossipCommand topic data # acts) g =
     (let (g, msgs, _) = gossip_publish topic data g; (g, msgs') = gossip_run C acts g in (g, msgs @ msgs'))"
| "gossip_run C (GossipTick # acts) g =
     (let (g, msgs) = gossip_tick C g; (g, msgs') = gossip_run C acts g in (g, msgs @ msgs'))"

section \<open>Nothing is lost or reordered\<close>

lemma fill_batch_eq [simp]: "fill_batch n queue = (take n queue, drop n queue)"
  by (induction n queue rule: fill_batch.induct) simp_all

lemma flush_queue_eq:
  assumes "batch_laws C"
  obtains msgs where "flush_queue C topic n queue = (drop n queue, msgs)" "set (map fst msgs) \<subseteq> {topic}"
    "topic = TOPOS_ECHO \<or> topic = TOPOS_READY \<Longrightarrow> net_events C source msgs = map (NetGossip source) (take n queue)"
proof (cases "queue = []")
  case True
  then show thesis by (intro that [of "[]"]) (simp_all add: flush_queue_def net_events_def)
next
  case False
  obtain b where "serialize_batch C (take n queue) = Some b" "deserialize_batch C b = Some (take n queue)"
    using assms by (auto simp: batch_laws_def)
  with False show thesis
    by (intro that [of "[(topic, b)]"])
      (auto simp: flush_queue_def net_events_def poll_message_def handle_gossip_event_def)
qed

definition received_on :: "'w batch_codec \<Rightarrow> 'p \<Rightarrow> string \<Rightarrow> (string \<times> 'w) list \<Rightarrow> ('p, 'w) net_event list" where
  "received_on C source topic msgs = net_events C source (filter (\<lambda>m. fst m = topic) msgs)"

definition published_on :: "string \<Rightarrow> 'w gossip_action list \<Rightarrow> 'w list" where
  "published_on topic acts =
     List.map_filter (\<lambda>a. case a of GossipCommand t data \<Rightarrow> if t = topic then Some data else None | GossipTick \<Rightarrow> None) acts"

definition waiting_on :: "string \<Rightarrow> 'w gossip_behaviour \<Rightarrow> 'w list" where
  "waiting_on topic g = (if topic = TOPOS_ECHO then echo_queue g else if topic = TOPOS_READY then ready_queue g else [])"

lemma net_events_append [simp]: "net_events C source (xs @ ys) = net_events C source xs @ net_events C source ys"
  by (simp add: net_events_def)

lemma received_on_simps [simp]:
  "received_on C source topic [] = []"
  "received_on C source topic (xs @ ys) = received_on C source topic xs @ received_on C source topic ys"
  by (simp_all add: received_on_def net_events_def)

lemma received_on_topic:
  "set (map fst msgs) \<subseteq> {t} \<Longrightarrow> received_on C source topic msgs = (if topic = t then net_events C source msgs else [])"
proof -
  assume "set (map fst msgs) \<subseteq> {t}"
  then have "filter (\<lambda>m. fst m = topic) msgs = (if topic = t then msgs else [])"
    by (induction msgs) auto
  then show ?thesis by (simp add: received_on_def net_events_def)
qed

lemma published_on_simps [simp]:
  "published_on topic [] = []"
  "published_on topic (GossipCommand t data # acts) = (if t = topic then [data] else []) @ published_on topic acts"
  "published_on topic (GossipTick # acts) = published_on topic acts"
  by (simp_all add: published_on_def List.map_filter_simps)

lemma gossip_tick_eq:
  assumes "batch_laws C"
  obtains msgs where "gossip_tick C g =
      (g\<lparr>echo_queue := drop (batch_size g) (echo_queue g), ready_queue := drop (batch_size g) (ready_queue g)\<rparr>, msgs)"
    "\<And>topic. received_on C source topic msgs = map (NetGossip source) (take (batch_size g) (waiting_on topic g))"
proof -
  obtain e where e: "flush_queue C TOPOS_ECHO (batch_size g) (echo_queue g) = (drop (batch_size g) (echo_queue g), e)"
      "set (map fst e) \<subseteq> {TOPOS_ECHO}" "net_events C source e = map (NetGossip source) (take (batch_size g) (echo_queue g))"
    using flush_queue_eq [OF assms, of TOPOS_ECHO "batch_size g" "echo_queue g" source] by blast
  obtain r where r: "flush_queue C TOPOS_READY (batch_size g) (ready_queue g) = (drop (batch_size g) (ready_queue g), r)"
      "set (map fst r) \<subseteq> {TOPOS_READY}" "net_events C source r = map (NetGossip source) (take (batch_size g) (ready_queue g))"
    using flush_queue_eq [OF assms, of TOPOS_READY "batch_size g" "ready_queue g" source] by blast
  show thesis
    by (rule that [of "e @ r"])
      (simp_all add: gossip_tick_def e(1) r(1) received_on_topic [OF e(2)] received_on_topic [OF r(2)] e(3) r(3) waiting_on_def)
qed

lemma gossip_publish_eq:
  assumes "gossip_publish topic data g = (g', msgs, r)"
  shows "batch_size g' = batch_size g"
    and "t \<in> {TOPOS_GOSSIP, TOPOS_ECHO, TOPOS_READY} \<Longrightarrow>
      received_on C source t msgs @ map (NetGossip source) (waiting_on t g') =
      map (NetGossip source) (waiting_on t g @ (if topic = t then [data] else []))"
  using assms
  by (auto simp: gossip_publish_def waiting_on_def received_on_def net_events_def poll_message_def
      handle_gossip_event_def split: if_splits)

text \<open>Along a run, what was received on a topic and what waits is what waited and what was published.\<close>

lemma gossip_run_keeps:
  assumes "batch_laws C" and "gossip_run C acts g = (g', msgs)" and "t \<in> {TOPOS_GOSSIP, TOPOS_ECHO, TOPOS_READY}"
  shows "batch_size g' = batch_size g \<and>
    received_on C source t msgs @ map (NetGossip source) (waiting_on t g') =
    map (NetGossip source) (waiting_on t g @ published_on t acts)"
  using assms(2)
proof (induction acts arbitrary: g g' msgs)
  case (Cons a acts)
  show ?case
  proof (cases a)
    case (GossipCommand topic data)
    obtain g1 m1 r where p: "gossip_publish topic data g = (g1, m1, r)" by (cases "gossip_publish topic data g") auto
    obtain g2 m2 where run: "gossip_run C acts g1 = (g2, m2)" by (cases "gossip_run C acts g1") auto
    have out: "g' = g2" "msgs = m1 @ m2" using Cons.prems by (auto simp: GossipCommand p run)
    note ih = Cons.IH [OF run] and here = gossip_publish_eq [OF p]
    have "received_on C source t m1 @ received_on C source t m2 @ map (NetGossip source) (waiting_on t g2) =
        (received_on C source t m1 @ map (NetGossip source) (waiting_on t g1)) @ map (NetGossip source) (published_on t acts)"
      using ih by simp
    also have "\<dots> = map (NetGossip source) (waiting_on t g @ published_on t (a # acts))"
      unfolding here(2) [OF assms(3)] by (simp add: GossipCommand)
    finally show ?thesis using ih here(1) by (simp add: out)
  next
    case GossipTick
    obtain m1 where tick: "gossip_tick C g =
        (g\<lparr>echo_queue := drop (batch_size g) (echo_queue g), ready_queue := drop (batch_size g) (ready_queue g)\<rparr>, m1)"
      "received_on C source t m1 = map (NetGossip source) (take (batch_size g) (waiting_on t g))"
      using gossip_tick_eq [OF assms(1), of g source] by metis
    let ?g = "g\<lparr>echo_queue := drop (batch_size g) (echo_queue g), ready_queue := drop (batch_size g) (ready_queue g)\<rparr>"
    obtain g2 m2 where run: "gossip_run C acts ?g = (g2, m2)" by (cases "gossip_run C acts ?g") auto
    have out: "g' = g2" "msgs = m1 @ m2" using Cons.prems by (auto simp: GossipTick tick(1) run)
    have "waiting_on t ?g = drop (batch_size g) (waiting_on t g)" by (simp add: waiting_on_def)
    with Cons.IH [OF run] show ?thesis
      by (simp add: out tick(2) GossipTick flip: map_append) (simp flip: append_assoc)
  qed
qed simp

lemma gossip_run_append:
  "gossip_run C (xs @ ys) g =
     (let (g, msgs) = gossip_run C xs g; (g, msgs') = gossip_run C ys g in (g, msgs @ msgs'))"
  by (induction C xs g rule: gossip_run.induct) (simp_all split: prod.split)

lemma ticks_drain:
  assumes "batch_laws C" and "gossip_run C (replicate k GossipTick) g = (g', msgs)"
  shows "waiting_on t g' = drop (k * batch_size g) (waiting_on t g)"
  using assms(2)
proof (induction k arbitrary: g msgs)
  case (Suc k)
  let ?g = "g\<lparr>echo_queue := drop (batch_size g) (echo_queue g), ready_queue := drop (batch_size g) (ready_queue g)\<rparr>"
  obtain m1 where tick: "gossip_tick C g = (?g, m1)" by (rule gossip_tick_eq [OF assms(1)])
  obtain m2 where "gossip_run C (replicate k GossipTick) ?g = (g', m2)"
    using Suc.prems by (auto simp: tick split: prod.splits)
  from Suc.IH [OF this] show ?case by (simp add: waiting_on_def add.commute)
qed simp

lemma waiting_on_new [simp]: "waiting_on t (gossip_new env_size) = []"
  by (simp add: waiting_on_def gossip_new_def)

lemma gossip_drained:
  assumes "batch_laws C" and "t \<in> {TOPOS_GOSSIP, TOPOS_ECHO, TOPOS_READY}"
    and "length (published_on t acts) \<le> k * (case env_size of Some n \<Rightarrow> n | None \<Rightarrow> 10)"
    and "gossip_run C (acts @ replicate k GossipTick) (gossip_new env_size) = (g, msgs)"
  shows "received_on C source t msgs = map (NetGossip source) (published_on t acts)"
proof -
  let ?n = "case env_size of Some n \<Rightarrow> n | None \<Rightarrow> 10"
  obtain g1 m1 where run1: "gossip_run C acts (gossip_new env_size) = (g1, m1)" by (cases "gossip_run C acts (gossip_new env_size)") auto
  obtain m2 where run2: "gossip_run C (replicate k GossipTick) g1 = (g, m2)"
    using assms(4) by (auto simp: gossip_run_append run1 split: prod.splits)
  note keeps = gossip_run_keeps [OF assms(1) run1 assms(2), of source]
  have size1: "batch_size g1 = ?n" using conjunct1 [OF keeps] by (simp add: gossip_new_def)
  have "length (waiting_on t g1) \<le> length (published_on t acts)"
    using arg_cong [OF conjunct2 [OF keeps], of length] by simp
  then have "waiting_on t g = []" using ticks_drain [OF assms(1) run2, of t] assms(3) by (simp add: size1)
  moreover have "published_on t (acts @ replicate k GossipTick) = published_on t acts"
    by (simp add: published_on_def List.map_filter_def)
  ultimately show ?thesis using gossip_run_keeps [OF assms(1,4,2), of source] by simp
qed


lemma net_events_topics:
  "mset (net_events C source msgs) =
     mset (received_on C source TOPOS_GOSSIP msgs) + mset (received_on C source TOPOS_ECHO msgs) +
     mset (received_on C source TOPOS_READY msgs)"
proof (induction msgs)
  case (Cons m msgs)
  obtain t d where m: "m = (t, d)" by (cases m)
  have "net_events C source (m # msgs) = net_events C source [m] @ net_events C source msgs" by (simp add: net_events_def)
  moreover have "received_on C source t' (m # msgs) = (if t = t' then net_events C source [m] else []) @ received_on C source t' msgs" for t'
    by (simp add: received_on_def net_events_def m)
  moreover have "t \<notin> {TOPOS_GOSSIP, TOPOS_ECHO, TOPOS_READY} \<Longrightarrow> net_events C source [m] = []"
    by (simp add: net_events_def m poll_message_def)
  ultimately show ?case using Cons.IH by auto
qed (simp add: net_events_def received_on_def)

section \<open>A concrete wire\<close>

text \<open>A wire on which a batch is a constructor.\<close>

datatype 'r toy_wire = ToyRequest 'r | ToyBatch "'r toy_wire list"

definition toy_batch_codec :: "'r toy_wire batch_codec" where
  "toy_batch_codec = \<lparr>serialize_batch = (\<lambda>data. Some (ToyBatch data)),
     deserialize_batch = (\<lambda>b. case b of ToyBatch data \<Rightarrow> Some data | ToyRequest _ \<Rightarrow> None)\<rparr>"

lemma toy_batch_laws: "batch_laws toy_batch_codec"
  by (simp add: batch_laws_def toy_batch_codec_def)


end
