(* ===== verification/Grpc_Conversions.thy ===== *)
theory Grpc_Conversions
  imports Core_Types
begin

text \<open>
  The messages of the gRPC interface and their conversions to the types of the node: the
  crate \<^verbatim>\<open>topos-api\<close> (\<^verbatim>\<open>grpc/conversions\<close>, \<^verbatim>\<open>grpc/checkpoints\<close>, and the structs of
  \<^verbatim>\<open>grpc/generated\<close>) and the proofs of delivery of \<^verbatim>\<open>topos-core\<close> (\<^verbatim>\<open>types.rs\<close>). A
  conversion into a message is total; a conversion from a message fails with the error of
  the first field that is missing or malformed, in the order of the fields of the Rust
  struct expression, or panics. The 256-bit integers and the signature struct of the
  \<^verbatim>\<open>ethers\<close> crate are the parameter \<open>eth_types\<close>.
\<close>

named_theorems proto_simps \<open>conversions of well-formed values\<close>

section \<open>Messages\<close>

datatype proto_subnet_id = ProtoSubnetId (psid_value: bytes)

datatype proto_certificate_id = ProtoCertificateId (pcid_value: bytes)

datatype proto_validator_id = ProtoValidatorId (pvid_value: bytes)

record proto_uuid =
  most_significant_bits :: u64
  least_significant_bits :: u64

record proto_certificate =
  pc_prev_id :: "proto_certificate_id option"
  pc_source_subnet_id :: "proto_subnet_id option"
  pc_state_root :: bytes
  pc_tx_root_hash :: bytes
  pc_receipts_root_hash :: bytes
  pc_target_subnets :: "proto_subnet_id list"
  pc_verifier :: u32
  pc_id :: "proto_certificate_id option"
  pc_proof :: "bytes option"
  pc_signature :: "bytes option"

record proto_source_stream_position =
  psp_source_subnet_id :: "proto_subnet_id option"
  psp_position :: u64
  psp_certificate_id :: "proto_certificate_id option"

record proto_target_stream_position =
  ptp_source_subnet_id :: "proto_subnet_id option"
  ptp_target_subnet_id :: "proto_subnet_id option"
  ptp_position :: u64
  ptp_certificate_id :: "proto_certificate_id option"

record proto_target_checkpoint =
  ptc_target_subnet_ids :: "proto_subnet_id list"
  ptc_positions :: "proto_target_stream_position list"

record proto_signed_ready =
  sr_ready :: utf8
  sr_signature :: utf8

record proto_proof_of_delivery =
  ppod_delivery_position :: "proto_source_stream_position option"
  ppod_readies :: "proto_signed_ready list"
  ppod_threshold :: u64

record proto_ecdsa_signature =
  pes_r :: bytes
  pes_s :: bytes
  pes_v :: u64

section \<open>Identifiers\<close>

datatype subnet_conversion_error =
    SubnetValidationError proto_subnet_id
  | SubnetUci uci_error
  | MissingField string
  | InvalidStateRoot
  | InvalidTxRootHash
  | InvalidReceiptsRootHash

definition subnet_id_to_proto :: "subnet_id \<Rightarrow> proto_subnet_id" where
  "subnet_id_to_proto s = ProtoSubnetId (sid_array s)"

definition subnet_id_from_proto :: "proto_subnet_id \<Rightarrow> subnet_conversion_error failure + subnet_id" where
  "subnet_id_from_proto p =
     (if length (psid_value p) \<noteq> SUBNET_ID_LENGTH then Inl (Failed (SubnetValidationError p))
      else and_then (copy_from_slice SUBNET_ID_LENGTH (psid_value p)) (\<lambda>arr. Inr (SubnetId arr)))"

datatype certificate_conversion_error = CertificateValidationError proto_certificate_id

definition certificate_id_to_proto :: "certificate_id \<Rightarrow> proto_certificate_id" where
  "certificate_id_to_proto c = ProtoCertificateId (cid_array c)"

definition certificate_id_from_proto ::
  "proto_certificate_id \<Rightarrow> certificate_conversion_error failure + certificate_id" where
  "certificate_id_from_proto p =
     (if length (pcid_value p) \<noteq> CERTIFICATE_ID_LENGTH then Inl (Failed (CertificateValidationError p))
      else and_then (copy_from_slice CERTIFICATE_ID_LENGTH (pcid_value p)) (\<lambda>arr. Inr (CertificateId arr)))"

datatype validator_conversion_error = InvalidByteLength utf8

definition validator_id_to_proto :: "validator_id \<Rightarrow> proto_validator_id" where
  "validator_id_to_proto v = ProtoValidatorId (vid_bytes v)"

definition validator_id_from_proto ::
  "hex \<Rightarrow> proto_validator_id \<Rightarrow> validator_conversion_error failure + validator_id" where
  "validator_id_from_proto H p =
     (if length (pvid_value p) \<noteq> VALIDATOR_ID_LENGTH
      then Inl (Failed (InvalidByteLength (hex_encode H (pvid_value p))))
      else and_then (copy_from_slice VALIDATOR_ID_LENGTH (pvid_value p)) (\<lambda>arr. Inr (ValidatorId arr)))"

definition uuid_to_proto :: "u64 \<times> u64 \<Rightarrow> proto_uuid" where
  "uuid_to_proto bits = \<lparr>most_significant_bits = fst bits, least_significant_bits = snd bits\<rparr>"

definition uuid_from_proto :: "proto_uuid \<Rightarrow> u64 \<times> u64" where
  "uuid_from_proto p = (most_significant_bits p, least_significant_bits p)"

lemma subnet_id_from_proto_Inr_iff [result_simps]:
  "subnet_id_from_proto p = Inr s \<longleftrightarrow> p = subnet_id_to_proto s \<and> wf_subnet_id s"
  by (cases p; cases s) (auto simp: subnet_id_from_proto_def subnet_id_to_proto_def wf_subnet_id_def)

lemma certificate_id_from_proto_Inr_iff [result_simps]:
  "certificate_id_from_proto p = Inr c \<longleftrightarrow> wf_certificate_id c \<and> p = certificate_id_to_proto c"
  by (cases p; cases c) (auto simp: certificate_id_from_proto_def certificate_id_to_proto_def wf_certificate_id_def)

lemma validator_id_from_proto_Inr_iff [result_simps]:
  "validator_id_from_proto H p = Inr v \<longleftrightarrow> length (vid_bytes v) = VALIDATOR_ID_LENGTH \<and> p = validator_id_to_proto v"
  by (cases p; cases v) (auto simp: validator_id_from_proto_def validator_id_to_proto_def)

lemma id_conversions_no_panic [simp]:
  "subnet_id_from_proto p \<noteq> Inl Panic" "certificate_id_from_proto q \<noteq> Inl Panic"
  "validator_id_from_proto H r \<noteq> Inl Panic"
  by (simp_all add: subnet_id_from_proto_def certificate_id_from_proto_def validator_id_from_proto_def)

lemma id_round_trips [proto_simps]:
  "wf_subnet_id s \<Longrightarrow> subnet_id_from_proto (subnet_id_to_proto s) = Inr s"
  "wf_certificate_id c \<Longrightarrow> certificate_id_from_proto (certificate_id_to_proto c) = Inr c"
  "length (vid_bytes v) = VALIDATOR_ID_LENGTH \<Longrightarrow> validator_id_from_proto H (validator_id_to_proto v) = Inr v"
  "uuid_from_proto (uuid_to_proto bits) = bits"
  by (simp_all add: result_simps uuid_from_proto_def uuid_to_proto_def)

section \<open>Certificates\<close>

text \<open>\<^verbatim>\<open>Vec<u8>::try_into::<[u8; n]>\<close> gives the vector back when the length is wrong.\<close>

definition to_array :: "nat \<Rightarrow> bytes \<Rightarrow> bytes + bytes" where
  "to_array n b = (if length b = n then Inr b else Inl b)"

definition expect :: "'a option \<Rightarrow> 'e failure + 'a" where
  "expect r = ok_or Panic r"

definition certificate_from_proto ::
  "hex \<Rightarrow> proto_certificate \<Rightarrow> subnet_conversion_error failure + certificate" where
  "certificate_from_proto H p =
     and_then (ok_or (Failed (MissingField ''certificate.prev_id'')) (pc_prev_id p)) (\<lambda>prev.
     and_then (map_err (map_failure SubnetUci) (certificate_id_try_from H (pcid_value prev))) (\<lambda>prev.
     and_then (ok_or (Failed (MissingField ''certificate.source_subnet_id'')) (pc_source_subnet_id p)) (\<lambda>source.
     and_then (map_err (\<lambda>e. Failed (SubnetUci e)) (subnet_id_try_from (psid_value source))) (\<lambda>source.
     and_then (map_err (\<lambda>_. Failed InvalidStateRoot) (to_array 32 (pc_state_root p))) (\<lambda>sroot.
     and_then (map_err (\<lambda>_. Failed InvalidTxRootHash) (to_array 32 (pc_tx_root_hash p))) (\<lambda>txroot.
     and_then (map_err (\<lambda>_. Failed InvalidReceiptsRootHash) (to_array 32 (pc_receipts_root_hash p))) (\<lambda>rroot.
     and_then (collect_results (map subnet_id_from_proto (pc_target_subnets p))) (\<lambda>targets.
     and_then (ok_or (Failed (MissingField ''certificate.id'')) (pc_id p)) (\<lambda>own.
     and_then (map_err (map_failure SubnetUci) (certificate_id_try_from H (pcid_value own))) (\<lambda>own.
     and_then (expect (pc_proof p)) (\<lambda>prf.
     and_then (expect (pc_signature p)) (\<lambda>sg.
       Inr \<lparr>cert_id = own, prev_id = prev, source_subnet_id = source, state_root = sroot,
            tx_root_hash = txroot, receipts_root_hash = rroot, target_subnets = targets,
            verifier = pc_verifier p, stark_proof = prf, frost_signature = sg\<rparr>))))))))))))"

definition certificate_to_proto :: "certificate \<Rightarrow> proto_certificate" where
  "certificate_to_proto c =
     \<lparr>pc_prev_id = Some (ProtoCertificateId (cid_array (prev_id c))),
      pc_source_subnet_id = Some (ProtoSubnetId (sid_array (source_subnet_id c))),
      pc_state_root = state_root c, pc_tx_root_hash = tx_root_hash c,
      pc_receipts_root_hash = receipts_root_hash c,
      pc_target_subnets = map subnet_id_to_proto (target_subnets c), pc_verifier = verifier c,
      pc_id = Some (ProtoCertificateId (cid_array (cert_id c))),
      pc_proof = Some (stark_proof c), pc_signature = Some (frost_signature c)\<rparr>"

lemma to_array_Inr_iff [result_simps]: "to_array n b = Inr x \<longleftrightarrow> length b = n \<and> x = b"
  by (auto simp: to_array_def)

lemma expect_Inr_iff [result_simps]: "expect r = Inr x \<longleftrightarrow> r = Some x"
  by (simp add: expect_def result_simps)

lemma failure_map_Panic: "Panic = map_failure f x \<longleftrightarrow> x = Panic" "map_failure f x = Panic \<longleftrightarrow> x = Panic"
  by (cases x; simp)+

lemma certificate_id_try_from_wf: "certificate_id_try_from H v = Inr c \<Longrightarrow> wf_certificate_id c"
  by (auto simp: certificate_id_try_from_def Let_def copy_from_slice_def wf_certificate_id_def result_simps
      split: if_splits)

lemma certificate_id_try_from_array [simp]:
  "wf_certificate_id c \<Longrightarrow> certificate_id_try_from H (cid_array c) = Inr c"
  by (simp add: wf_certificate_id_def certificate_id_try_from_raw)

text \<open>A vector of messages converts when each of them does.\<close>

lemma collect_from_proto_iff:
  assumes "\<And>p x. f p = Inr x \<longleftrightarrow> p = g x \<and> Q x"
  shows "collect_results (map f ps) = Inr xs \<longleftrightarrow> ps = map g xs \<and> (\<forall>x \<in> set xs. Q x)"
proof (induction ps arbitrary: xs)
  case (Cons p ps)
  then show ?case by (cases xs) (auto simp: and_then_Inr_iff assms)
qed auto

lemma collect_no_panic:
  "(\<And>p. f p \<noteq> Inl Panic) \<Longrightarrow> collect_results (map f ps) \<noteq> Inl Panic"
  by (induction ps) (auto simp: and_then_Inl_iff)

lemmas collect_subnets_iff =
  collect_from_proto_iff [of subnet_id_from_proto subnet_id_to_proto wf_subnet_id, OF subnet_id_from_proto_Inr_iff]

lemma collect_subnets_to_proto:
  "\<forall>s \<in> set ss. wf_subnet_id s \<Longrightarrow>
   collect_results (map subnet_id_from_proto (map subnet_id_to_proto ss)) = Inr ss"
  by (simp only: collect_subnets_iff)

lemma collect_subnets_no_panic [simp]: "collect_results (map subnet_id_from_proto ps) \<noteq> Inl Panic"
  by (rule collect_no_panic) simp

lemma certificate_from_proto_wf: "certificate_from_proto H p = Inr c \<Longrightarrow> wf_certificate c"
  by (auto simp: certificate_from_proto_def wf_certificate_def and_then_Inr_iff map_err_Inr_iff ok_or_Inr_iff
      to_array_Inr_iff subnet_id_try_from_Inr_iff collect_subnets_iff dest: certificate_id_try_from_wf)

lemma certificate_round_trip [proto_simps]:
  assumes "wf_certificate c"
  shows "certificate_from_proto H (certificate_to_proto c) = Inr c"
proof -
  have "subnet_id_try_from (sid_array (source_subnet_id c)) = Inr (source_subnet_id c)"
    using assms by (simp add: wf_certificate_def result_simps)
  then show ?thesis using assms
    by (simp add: certificate_from_proto_def certificate_to_proto_def wf_certificate_def to_array_def expect_def
        collect_subnets_to_proto del: map_map)
qed

text \<open>
  Whatever the network sends, a certificate that a conversion lets into the node is
  well-formed: its identifiers, roots and hashes have their lengths, and so do the identifiers
  of its target subnets.
\<close>

lemma converted_certificate_wf:
  assumes "certificate_from_proto H p = Inr c"
  shows "wf_certificate c \<and> wf_certificate_id (cert_id c) \<and> wf_subnet_id (source_subnet_id c)"
  using certificate_from_proto_wf [OF assms] by (simp add: wf_certificate_def)

lemma converted_certificate_wf_witness:
  "\<exists>c. certificate_from_proto lower_hex (certificate_to_proto (example_certificate 1)) = Inr c \<and>
     wf_certificate c \<and> wf_certificate_id (cert_id c) \<and> wf_subnet_id (source_subnet_id c)"
  using converted_certificate_wf [OF certificate_round_trip [OF wf_example_certificate]]
    certificate_round_trip [OF wf_example_certificate] by blast

lemma certificate_id_try_from_no_panic:
  "hex_laws H \<Longrightarrow> certificate_id_try_from H v \<noteq> Inl Panic"
  using certificate_id_try_from_total [of H v] by auto

lemma certificate_from_proto_expects:
  "certificate_from_proto H p =
     and_then (certificate_from_proto H (p\<lparr>pc_proof := Some [], pc_signature := Some []\<rparr>)) (\<lambda>c.
     and_then (expect (pc_proof p)) (\<lambda>prf. and_then (expect (pc_signature p)) (\<lambda>sg.
       Inr (c\<lparr>stark_proof := prf, frost_signature := sg\<rparr>))))"
  by (simp add: certificate_from_proto_def and_then_assoc expect_def)

text \<open>
  The conversion of a certificate panics for the messages without a proof or without a
  signature that are otherwise valid, and for no other message: every other defect is an
  error value.
\<close>

lemma certificate_conversion_panics:
  assumes "hex_laws H"
  shows "certificate_from_proto H p = Inl Panic \<longleftrightarrow>
    (pc_proof p = None \<or> pc_signature p = None) \<and>
    (\<exists>c. certificate_from_proto H (p\<lparr>pc_proof := Some [], pc_signature := Some []\<rparr>) = Inr c)"
proof -
  let ?p = "p\<lparr>pc_proof := Some [], pc_signature := Some []\<rparr>"
  have "certificate_from_proto H ?p \<noteq> Inl Panic"
    using certificate_id_try_from_no_panic [OF assms]
    by (auto simp: certificate_from_proto_def expect_def result_simps failure_map_Panic)
  then show ?thesis
    by (subst certificate_from_proto_expects) (auto simp: result_simps expect_def)
qed

lemma certificate_conversion_panics_witness:
  "certificate_from_proto lower_hex ((certificate_to_proto (example_certificate 1))\<lparr>pc_proof := None\<rparr>) = Inl Panic"
proof -
  let ?c = "example_certificate 1"
  have "wf_certificate (?c\<lparr>stark_proof := [], frost_signature := []\<rparr>)"
    using wf_example_certificate [of 1] by (simp add: wf_certificate_def)
  then have "certificate_from_proto lower_hex (certificate_to_proto (?c\<lparr>stark_proof := [], frost_signature := []\<rparr>)) =
      Inr (?c\<lparr>stark_proof := [], frost_signature := []\<rparr>)"
    by (rule certificate_round_trip)
  then show ?thesis
    by (subst certificate_conversion_panics [OF lower_hex_laws]) (simp add: certificate_to_proto_def)
qed

section \<open>Stream positions and checkpoints\<close>

record target_stream_position =
  tsp_target_subnet_id :: subnet_id
  tsp_source_subnet_id :: subnet_id
  tsp_position :: u64
  tsp_certificate_id :: "certificate_id option"

record source_stream_position =
  ssp_source_subnet_id :: subnet_id
  ssp_position :: u64
  ssp_certificate_id :: "certificate_id option"

datatype stream_position_error =
    MissingTargetSubnetId
  | MissingSourceSubnetId
  | InvalidSubnetFormat subnet_conversion_error
  | InvalidCertificateIdFormat

datatype target_checkpoint_error =
    CheckpointInvalidSubnetFormat
  | InvalidTargetStreamPosition
  | CheckpointParseError

text \<open>\<^verbatim>\<open>value.certificate_id.map(TryInto::try_into).map_or(Ok(None), ...)\<close>\<close>

definition optional_certificate_id ::
  "proto_certificate_id option \<Rightarrow> stream_position_error failure + certificate_id option" where
  "optional_certificate_id r =
     (case r of None \<Rightarrow> Inr None
      | Some p \<Rightarrow> and_then (map_err (map_failure (\<lambda>_. InvalidCertificateIdFormat)) (certificate_id_from_proto p))
          (\<lambda>c. Inr (Some c)))"

definition mandatory_subnet_id ::
  "stream_position_error \<Rightarrow> proto_subnet_id option \<Rightarrow> stream_position_error failure + subnet_id" where
  "mandatory_subnet_id missing r =
     and_then (ok_or (Failed missing) r) (\<lambda>p. map_err (map_failure InvalidSubnetFormat) (subnet_id_from_proto p))"

definition target_stream_position_from_proto ::
  "proto_target_stream_position \<Rightarrow> stream_position_error failure + target_stream_position" where
  "target_stream_position_from_proto p =
     and_then (mandatory_subnet_id MissingTargetSubnetId (ptp_target_subnet_id p)) (\<lambda>target.
     and_then (mandatory_subnet_id MissingSourceSubnetId (ptp_source_subnet_id p)) (\<lambda>source.
     and_then (optional_certificate_id (ptp_certificate_id p)) (\<lambda>cid.
       Inr \<lparr>tsp_target_subnet_id = target, tsp_source_subnet_id = source,
            tsp_position = ptp_position p, tsp_certificate_id = cid\<rparr>)))"

definition target_stream_position_to_proto :: "target_stream_position \<Rightarrow> proto_target_stream_position" where
  "target_stream_position_to_proto t =
     \<lparr>ptp_source_subnet_id = Some (subnet_id_to_proto (tsp_source_subnet_id t)),
      ptp_target_subnet_id = Some (subnet_id_to_proto (tsp_target_subnet_id t)),
      ptp_position = tsp_position t,
      ptp_certificate_id = map_option certificate_id_to_proto (tsp_certificate_id t)\<rparr>"

definition source_stream_position_from_proto ::
  "proto_source_stream_position \<Rightarrow> stream_position_error failure + source_stream_position" where
  "source_stream_position_from_proto p =
     and_then (mandatory_subnet_id MissingSourceSubnetId (psp_source_subnet_id p)) (\<lambda>source.
     and_then (optional_certificate_id (psp_certificate_id p)) (\<lambda>cid.
       Inr \<lparr>ssp_source_subnet_id = source, ssp_position = psp_position p, ssp_certificate_id = cid\<rparr>))"

definition source_stream_position_to_proto :: "source_stream_position \<Rightarrow> proto_source_stream_position" where
  "source_stream_position_to_proto t =
     \<lparr>psp_source_subnet_id = Some (subnet_id_to_proto (ssp_source_subnet_id t)),
      psp_position = ssp_position t,
      psp_certificate_id = map_option certificate_id_to_proto (ssp_certificate_id t)\<rparr>"

record target_checkpoint =
  tc_target_subnet_ids :: "subnet_id list"
  tc_positions :: "target_stream_position list"

definition target_checkpoint_from_proto ::
  "proto_target_checkpoint \<Rightarrow> target_checkpoint_error failure + target_checkpoint" where
  "target_checkpoint_from_proto p =
     and_then (map_err (map_failure (\<lambda>_. CheckpointInvalidSubnetFormat))
       (collect_results (map subnet_id_from_proto (ptc_target_subnet_ids p)))) (\<lambda>subnets.
     and_then (map_err (map_failure (\<lambda>_. InvalidTargetStreamPosition))
       (collect_results (map target_stream_position_from_proto (ptc_positions p)))) (\<lambda>positions.
       Inr \<lparr>tc_target_subnet_ids = subnets, tc_positions = positions\<rparr>))"

definition target_checkpoint_to_proto :: "target_checkpoint \<Rightarrow> proto_target_checkpoint" where
  "target_checkpoint_to_proto t =
     \<lparr>ptc_target_subnet_ids = map subnet_id_to_proto (tc_target_subnet_ids t),
      ptc_positions = map target_stream_position_to_proto (tc_positions t)\<rparr>"

definition wf_target_stream_position :: "target_stream_position \<Rightarrow> bool" where
  "wf_target_stream_position t \<longleftrightarrow> wf_subnet_id (tsp_target_subnet_id t) \<and>
     wf_subnet_id (tsp_source_subnet_id t) \<and> pred_option wf_certificate_id (tsp_certificate_id t)"

definition wf_target_checkpoint :: "target_checkpoint \<Rightarrow> bool" where
  "wf_target_checkpoint t \<longleftrightarrow> (\<forall>s \<in> set (tc_target_subnet_ids t). wf_subnet_id s) \<and>
     (\<forall>q \<in> set (tc_positions t). wf_target_stream_position q)"

lemma optional_certificate_id_Inr_iff [result_simps]:
  "optional_certificate_id r = Inr x \<longleftrightarrow> r = map_option certificate_id_to_proto x \<and> pred_option wf_certificate_id x"
  by (cases r; cases x) (auto simp: optional_certificate_id_def result_simps)

lemma mandatory_subnet_id_Inr_iff [result_simps]:
  "mandatory_subnet_id e r = Inr s \<longleftrightarrow> r = Some (subnet_id_to_proto s) \<and> wf_subnet_id s"
  by (auto simp: mandatory_subnet_id_def result_simps)

lemma position_conversions_no_panic [simp]:
  "optional_certificate_id r \<noteq> Inl Panic" "mandatory_subnet_id e q \<noteq> Inl Panic"
  by (auto simp: optional_certificate_id_def mandatory_subnet_id_def result_simps failure_map_Panic split: option.split)

lemma target_stream_position_from_proto_Inr_iff [result_simps]:
  "target_stream_position_from_proto p = Inr t \<longleftrightarrow>
     p = target_stream_position_to_proto t \<and> wf_target_stream_position t"
  by (cases p; cases t)
    (auto simp: target_stream_position_from_proto_def target_stream_position_to_proto_def
      wf_target_stream_position_def result_simps)

lemma target_stream_position_no_panic [simp]: "target_stream_position_from_proto p \<noteq> Inl Panic"
  by (auto simp: target_stream_position_from_proto_def result_simps)

lemmas collect_positions_iff [result_simps] =
  collect_from_proto_iff [of target_stream_position_from_proto target_stream_position_to_proto
    wf_target_stream_position, OF target_stream_position_from_proto_Inr_iff]

lemma target_checkpoint_from_proto_Inr_iff [result_simps]:
  "target_checkpoint_from_proto p = Inr t \<longleftrightarrow> p = target_checkpoint_to_proto t \<and> wf_target_checkpoint t"
  by (cases p; cases t)
    (auto simp: target_checkpoint_from_proto_def target_checkpoint_to_proto_def wf_target_checkpoint_def
      map_err_Inr_iff and_then_Inr_iff collect_subnets_iff collect_positions_iff)

text \<open>
  C35: The conversion of a checkpoint accepts exactly the messages of well-formed checkpoints
  and inverts the conversion to a message; a message it refuses is an error value, never a
  panic.
\<close>

theorem target_checkpoint_conversion_exact:
  "(target_checkpoint_from_proto p = Inr t \<longleftrightarrow> wf_target_checkpoint t \<and> target_checkpoint_to_proto t = p) \<and>
   target_checkpoint_from_proto p \<noteq> Inl Panic"
proof -
  have "target_checkpoint_from_proto p \<noteq> Inl Panic"
    by (auto simp: target_checkpoint_from_proto_def map_err_Inl_iff and_then_Inl_iff failure_map_Panic
        collect_no_panic [of target_stream_position_from_proto])
  then show ?thesis by (auto simp: target_checkpoint_from_proto_Inr_iff)
qed

section \<open>Proofs of delivery\<close>

datatype grpc_parsing_error = GrpcMalformedType string | PositionParsing stream_position_error

definition source_position_of :: "source_stream_position \<Rightarrow> certificate_source_stream_position" where
  "source_position_of t = \<lparr>src_subnet_id = ssp_source_subnet_id t, src_position = ssp_position t\<rparr>"

definition proof_of_delivery_from_proto ::
  "proto_proof_of_delivery \<Rightarrow> grpc_parsing_error failure + proof_of_delivery" where
  "proof_of_delivery_from_proto p =
     and_then (ok_or (Failed (GrpcMalformedType ''position'')) (ppod_delivery_position p)) (\<lambda>q.
     and_then (map_err (map_failure PositionParsing) (source_stream_position_from_proto q)) (\<lambda>pos.
     and_then (ok_or (Failed (GrpcMalformedType ''position.certificate_id'')) (ssp_certificate_id pos)) (\<lambda>cid.
       Inr \<lparr>pod_certificate_id = cid, delivery_position = source_position_of pos,
            pod_readies = map (\<lambda>v. (sr_ready v, sr_signature v)) (ppod_readies p),
            threshold = ppod_threshold p\<rparr>)))"

definition proof_of_delivery_to_proto :: "proof_of_delivery \<Rightarrow> proto_proof_of_delivery" where
  "proof_of_delivery_to_proto pod =
     \<lparr>ppod_delivery_position = Some (source_stream_position_to_proto
        \<lparr>ssp_source_subnet_id = src_subnet_id (delivery_position pod),
         ssp_position = src_position (delivery_position pod),
         ssp_certificate_id = Some (pod_certificate_id pod)\<rparr>),
      ppod_readies = map (\<lambda>v. \<lparr>sr_ready = fst v, sr_signature = snd v\<rparr>) (pod_readies pod),
      ppod_threshold = threshold pod\<rparr>"

lemma source_stream_position_from_proto_Inr_iff [result_simps]:
  "source_stream_position_from_proto p = Inr t \<longleftrightarrow> p = source_stream_position_to_proto t \<and>
     wf_subnet_id (ssp_source_subnet_id t) \<and> pred_option wf_certificate_id (ssp_certificate_id t)"
  by (cases p; cases t)
    (auto simp: source_stream_position_from_proto_def source_stream_position_to_proto_def result_simps)

lemma proof_of_delivery_from_proto_Inr_iff [result_simps]:
  "proof_of_delivery_from_proto p = Inr pod \<longleftrightarrow> p = proof_of_delivery_to_proto pod \<and>
     wf_subnet_id (src_subnet_id (delivery_position pod)) \<and> wf_certificate_id (pod_certificate_id pod)"
proof
  assume "proof_of_delivery_from_proto p = Inr pod"
  then obtain t where t: "ppod_delivery_position p = Some (source_stream_position_to_proto t)"
      "wf_subnet_id (ssp_source_subnet_id t)" "ssp_certificate_id t = Some (pod_certificate_id pod)"
      "wf_certificate_id (pod_certificate_id pod)" "delivery_position pod = source_position_of t"
      "pod_readies pod = map (\<lambda>v. (sr_ready v, sr_signature v)) (ppod_readies p)" "threshold pod = ppod_threshold p"
    by (auto simp: proof_of_delivery_from_proto_def result_simps)
  have "map (\<lambda>v. \<lparr>sr_ready = sr_ready v, sr_signature = sr_signature v\<rparr>) xs = xs" for xs
    by (induction xs) simp_all
  with t show "p = proof_of_delivery_to_proto pod \<and> wf_subnet_id (src_subnet_id (delivery_position pod)) \<and>
      wf_certificate_id (pod_certificate_id pod)"
    by (cases p; cases t) (simp add: proof_of_delivery_to_proto_def source_position_of_def comp_def)
next
  assume "p = proof_of_delivery_to_proto pod \<and> wf_subnet_id (src_subnet_id (delivery_position pod)) \<and>
      wf_certificate_id (pod_certificate_id pod)"
  moreover have "source_stream_position_from_proto (source_stream_position_to_proto t) = Inr t"
    if "wf_subnet_id (ssp_source_subnet_id t)" "pred_option wf_certificate_id (ssp_certificate_id t)" for t
    using that by (simp add: result_simps)
  ultimately show "proof_of_delivery_from_proto p = Inr pod"
    by (simp add: proof_of_delivery_from_proto_def proof_of_delivery_to_proto_def source_position_of_def comp_def)
qed

lemma proof_of_delivery_no_panic [simp]: "proof_of_delivery_from_proto p \<noteq> Inl Panic"
  by (auto simp: proof_of_delivery_from_proto_def source_stream_position_from_proto_def result_simps failure_map_Panic)

section \<open>Message signatures\<close>

text \<open>
  \<^verbatim>\<open>U256::from_big_endian\<close> panics on more than 32 bytes, the value \<open>None\<close> of the
  parameter, and \<^verbatim>\<open>to_big_endian\<close> writes 32 bytes.
\<close>

record ('u, 'sig) eth_types =
  U256_from_big_endian :: "bytes \<Rightarrow> 'u option"
  U256_to_big_endian :: "'u \<Rightarrow> bytes"
  Signature_new :: "'u \<Rightarrow> 'u \<Rightarrow> u64 \<Rightarrow> 'sig"
  Signature_r :: "'sig \<Rightarrow> 'u"
  Signature_s :: "'sig \<Rightarrow> 'u"
  Signature_v :: "'sig \<Rightarrow> u64"

definition eth_types_laws :: "('u, 'sig) eth_types \<Rightarrow> bool" where
  "eth_types_laws T \<longleftrightarrow>
     (\<forall>b. U256_from_big_endian T b = None \<longleftrightarrow> 32 < length b) \<and>
     (\<forall>u. U256_from_big_endian T (U256_to_big_endian T u) = Some u) \<and>
     (\<forall>g. Signature_new T (Signature_r T g) (Signature_s T g) (Signature_v T g) = g)"

definition signature_from_proto :: "('u, 'sig) eth_types \<Rightarrow> proto_ecdsa_signature \<Rightarrow> 'e failure + 'sig" where
  "signature_from_proto T p =
     and_then (expect (U256_from_big_endian T (pes_r p))) (\<lambda>r.
     and_then (expect (U256_from_big_endian T (pes_s p))) (\<lambda>s. Inr (Signature_new T r s (pes_v p))))"

definition signature_to_proto :: "('u, 'sig) eth_types \<Rightarrow> 'sig \<Rightarrow> proto_ecdsa_signature" where
  "signature_to_proto T g =
     \<lparr>pes_r = U256_to_big_endian T (Signature_r T g), pes_s = U256_to_big_endian T (Signature_s T g),
      pes_v = Signature_v T g\<rparr>"

lemma signature_round_trip [proto_simps]:
  "eth_types_laws T \<Longrightarrow> signature_from_proto T (signature_to_proto T g) = Inr g"
  by (simp add: eth_types_laws_def signature_from_proto_def signature_to_proto_def expect_def)

lemma signature_from_proto_panics:
  "eth_types_laws T \<Longrightarrow> signature_from_proto T p = Inl Panic \<longleftrightarrow> 32 < length (pes_r p) \<or> 32 < length (pes_s p)"
  by (simp add: eth_types_laws_def signature_from_proto_def expect_def and_then_Inl_iff ok_or_Inl_iff ok_or_Inr_iff)
    (metis not_None_eq)

lemma signature_from_proto_error: "signature_from_proto T p = Inl e \<Longrightarrow> e = Panic"
  by (auto simp: signature_from_proto_def expect_def result_simps)

end
