(* ===== verification/Sequencer.thy ===== *)
theory Sequencer
  imports Grpc_Conversions
begin

text \<open>
  The sequencer of a subnet: the client of the subnet node
  (\<^verbatim>\<open>topos-sequencer-subnet-client\<close>), the generation of certificates from finalized blocks and
  the two tasks of the subnet runtime proxy (\<^verbatim>\<open>topos-sequencer-subnet-runtime\<close>). The Ethereum
  node is the parameter \<open>eth_node\<close>, one value for each moment it is asked; the set of target
  subnets of a block is visited in the order \<open>iter\<close> of its hash set. \<open>i128\<close> block numbers are
  integers. Tracing spans are left out.
\<close>

section \<open>The subnet client\<close>

datatype subnet_event = CrossSubnetMessageSent (target_subnet_id: subnet_id)

record block_info =
  bi_hash :: utf8
  bi_parent_hash :: utf8
  bi_number :: u64
  bi_state_root :: bytes
  bi_tx_root_hash :: bytes
  bi_receipts_root_hash :: bytes
  bi_events :: "subnet_event list"

datatype subnet_client_error =
    BlockNotAvailable u64
  | InvalidBlockNumber u64
  | DataNotAvailable
  | MutableCastFailed
  | JsonError utf8
  | JsonParseError
  | InvalidUrl utf8
  | HexDecodingError utf8
  | EthersProviderError utf8
  | ContractError utf8
  | EventDecodingError utf8
  | EventError utf8
  | InvalidArgument utf8
  | WalletError utf8
  | InvalidKey utf8
  | EthereumTxSignError
  | WsClientError utf8
  | InputOutputError utf8
  | InvalidCertificateId
  | InvalidCheckpointsData

record eth_block =
  eb_number :: "u64 option"
  eb_hash :: utf8
  eb_parent_hash :: utf8
  eb_state_root :: bytes
  eb_transactions_root :: bytes
  eb_receipts_root :: bytes

datatype contract_event = CrossSubnetMessageSentFilter bytes | OtherContractEvent

datatype contract_failure = DecodingFailure utf8 | OtherContractFailure utf8

record eth_node =
  node_block_number :: "utf8 + u64"
  node_block :: "u64 \<Rightarrow> utf8 + eth_block option"
  node_events :: "u64 \<Rightarrow> contract_failure + contract_event list"
  node_checkpoints :: "utf8 + (bytes \<times> bytes \<times> u64) list"

definition get_block_events :: "eth_node \<Rightarrow> u64 \<Rightarrow> subnet_client_error + subnet_event list" where
  "get_block_events node block_number =
     (if block_number = 0 then Inr []
      else and_then (map_err (\<lambda>e. case e of DecodingFailure m \<Rightarrow> EventDecodingError m
                              | OtherContractFailure m \<Rightarrow> ContractError m) (node_events node block_number)) (\<lambda>events.
        Inr (List.map_filter (\<lambda>event. case event of
            CrossSubnetMessageSentFilter t \<Rightarrow> Some (CrossSubnetMessageSent (SubnetId t))
          | OtherContractEvent \<Rightarrow> None) events)))"

definition get_finalized_block :: "eth_node \<Rightarrow> u64 \<Rightarrow> subnet_client_error + block_info" where
  "get_finalized_block node next_block_number =
     and_then (map_err EthersProviderError (node_block_number node)) (\<lambda>latest.
     if latest < next_block_number then Inl (BlockNotAvailable next_block_number)
     else
       and_then (map_err EthersProviderError (node_block node next_block_number)) (\<lambda>r.
       and_then (ok_or (InvalidBlockNumber next_block_number) r) (\<lambda>block.
       and_then (ok_or (InvalidBlockNumber next_block_number) (eb_number block)) (\<lambda>block_number.
       and_then (case get_block_events node block_number of
           Inl (EventDecodingError _) \<Rightarrow> Inr []
         | r \<Rightarrow> r) (\<lambda>events.
         Inr \<lparr>bi_hash = eb_hash block, bi_parent_hash = eb_parent_hash block, bi_number = block_number,
              bi_state_root = eb_state_root block, bi_tx_root_hash = eb_transactions_root block,
              bi_receipts_root_hash = eb_receipts_root block, bi_events = events\<rparr>)))))"

definition get_subnet_block_number :: "eth_node \<Rightarrow> subnet_client_error + u64" where
  "get_subnet_block_number node = map_err EthersProviderError (node_block_number node)"

text \<open>One attempt of \<open>get_checkpoints\<close>; an attempt that fails is repeated with a backoff.\<close>

definition get_checkpoints ::
  "eth_node \<Rightarrow> subnet_id \<Rightarrow> subnet_client_error + target_stream_position list" where
  "get_checkpoints node target =
     and_then (map_err ContractError (node_checkpoints node)) (\<lambda>positions.
       collect_results (map (\<lambda>(cid, source, position).
         and_then (map_err (\<lambda>_. InvalidCheckpointsData) (to_array CERTIFICATE_ID_LENGTH cid)) (\<lambda>cid.
         and_then (map_err (\<lambda>_. InvalidCheckpointsData) (to_array SUBNET_ID_LENGTH source)) (\<lambda>source.
           Inr \<lparr>tsp_target_subnet_id = target, tsp_source_subnet_id = SubnetId source,
                tsp_position = position, tsp_certificate_id = Some (CertificateId cid)\<rparr>))) positions))"

text \<open>The arguments of the transaction \<open>pushCertificate\<close>.\<close>

datatype abi_token = FixedBytes bytes | TokenArray "abi_token list" | Uint nat | TokenBytes bytes

definition certificate_tokens :: "certificate \<Rightarrow> abi_token list" where
  "certificate_tokens c =
     [FixedBytes (cid_array (prev_id c)), FixedBytes (sid_array (source_subnet_id c)),
      FixedBytes (state_root c), FixedBytes (tx_root_hash c), FixedBytes (receipts_root_hash c),
      TokenArray (map (\<lambda>t. FixedBytes (sid_array t)) (target_subnets c)), Uint (unat (verifier c)),
      FixedBytes (cid_array (cert_id c)), TokenBytes (stark_proof c), TokenBytes (frost_signature c)]"

lemma certificate_tokens_inject: "certificate_tokens c = certificate_tokens d \<longleftrightarrow> c = d"
proof
  assume eq: "certificate_tokens c = certificate_tokens d"
  have "inj (\<lambda>t. FixedBytes (sid_array t))" by (simp add: inj_def subnet_id.expand)
  with eq have "target_subnets c = target_subnets d" by (simp add: certificate_tokens_def inj_map_eq_map)
  with eq show "c = d"
    by (simp add: certificate_tokens_def certificate_id.expand subnet_id.expand word_unat_eq_iff)
qed simp

section \<open>Certification\<close>

datatype runtime_error =
    BadPeers utf8
  | BadCommand utf8
  | TokioError utf8
  | UnlockError
  | InvalidTransactionType
  | SubnetError subnet_client_error
  | UnableToRetrieveKey crypto_error
  | ShutdownCommunication
  | ShutdownSignalReceiveError
  | InvalidPreviousCertificateId
  | IllFormedSubnetHistory
  | CertificateGenerationError utf8
  | CertificateSigningError uci_error
  | SourceHeadCertChannelError utf8
  | CommandEvalChannelError utf8
  | InvalidEndpoint utf8

record certification =
  last_certificate_id :: "certificate_id option"
  finalized_blocks :: "block_info list"
  cf_subnet_id :: subnet_id
  cf_verifier :: u32
  signing_key :: bytes
  start_block :: "u64 option"

definition BLOCK_HISTORY_LENGTH :: nat where
  "BLOCK_HISTORY_LENGTH = 256"

definition certification_new ::
  "subnet_id \<Rightarrow> certificate_id option \<Rightarrow> u32 \<Rightarrow> bytes \<Rightarrow> u64 option \<Rightarrow> certification" where
  "certification_new subnet head vf key start =
     \<lparr>last_certificate_id = head, finalized_blocks = [], cf_subnet_id = subnet, cf_verifier = vf,
      signing_key = key, start_block = start\<rparr>"

definition previous_certificate_id :: "certification \<Rightarrow> certificate_id" where
  "previous_certificate_id cf =
     (case last_certificate_id cf of Some cid \<Rightarrow> cid | None \<Rightarrow> INITIAL_CERTIFICATE_ID)"

text \<open>The certificate of one block.\<close>

definition block_certificate ::
  "(bytes \<Rightarrow> bytes) \<Rightarrow> ('sk, 'pk, 'sig, 'msg) secp256k1 \<Rightarrow> (subnet_id set \<Rightarrow> subnet_id list) \<Rightarrow>
   certification \<Rightarrow> block_info \<Rightarrow> runtime_error failure + certificate" where
  "block_certificate keccak S iter cf b =
     map_err (\<lambda>e. Failed (CertificateSigningError e))
       (update_signature keccak S (signing_key cf)
         (certificate_new keccak (previous_certificate_id cf) (cf_subnet_id cf) (bi_state_root b)
           (bi_tx_root_hash b) (bi_receipts_root_hash b) (iter (set (map target_subnet_id (bi_events b))))
           (cf_verifier cf) []))"

definition last_known_certificate_id :: "certification \<Rightarrow> runtime_error failure + certificate_id" where
  "last_known_certificate_id cf =
     (if (case finalized_blocks cf of [] \<Rightarrow> False
          | b # _ \<Rightarrow> bi_number b = 0 \<or> start_block cf \<noteq> None)
      then Inr INITIAL_CERTIFICATE_ID
      else ok_or (Failed InvalidPreviousCertificateId) (last_certificate_id cf))"

definition generate_certificates ::
  "(bytes \<Rightarrow> bytes) \<Rightarrow> ('sk, 'pk, 'sig, 'msg) secp256k1 \<Rightarrow> (subnet_id set \<Rightarrow> subnet_id list) \<Rightarrow>
   certification \<Rightarrow> certification \<times> (runtime_error failure + certificate list)" where
  "generate_certificates keccak S iter cf =
     (case and_then (collect_results (map (block_certificate keccak S iter cf) (finalized_blocks cf))) (\<lambda>generated.
           and_then (last_known_certificate_id cf) (\<lambda>last_known.
           if last_known \<in> set (map cert_id generated) then Inl Panic else Inr generated)) of
        Inl e \<Rightarrow> (cf, Inl e)
      | Inr generated \<Rightarrow>
          (cf\<lparr>last_certificate_id := (if generated = [] then last_certificate_id cf
                                     else Some (cert_id (last generated))),
             finalized_blocks := []\<rparr>, Inr generated))"

function trim_history :: "block_info list \<Rightarrow> block_info list" where
  "trim_history bs = (if BLOCK_HISTORY_LENGTH < length bs then trim_history (tl bs) else bs)"
  by pat_completeness auto
termination by (relation "measure length") auto

declare trim_history.simps [simp del]

definition append_blocks :: "block_info list \<Rightarrow> certification \<Rightarrow> certification" where
  "append_blocks blocks cf = cf\<lparr>finalized_blocks := trim_history (finalized_blocks cf @ blocks)\<rparr>"

lemma trim_history_eq: "trim_history bs = drop (length bs - BLOCK_HISTORY_LENGTH) bs"
proof (induction bs rule: trim_history.induct)
  case (1 bs)
  show ?case
  proof (cases "BLOCK_HISTORY_LENGTH < length bs")
    case True
    then have "trim_history bs = drop (length (tl bs) - BLOCK_HISTORY_LENGTH) (tl bs)"
      using 1 by (subst trim_history.simps) simp
    also have "\<dots> = drop (Suc (length bs - 1 - BLOCK_HISTORY_LENGTH)) bs" by (simp add: drop_Suc)
    also have "Suc (length bs - 1 - BLOCK_HISTORY_LENGTH) = length bs - BLOCK_HISTORY_LENGTH" using True by simp
    finally show ?thesis .
  qed (simp add: trim_history.simps)
qed

lemma length_trim_history: "length (trim_history bs) = min BLOCK_HISTORY_LENGTH (length bs)"
  by (simp add: trim_history_eq min_def)

text \<open>
  The history keeps the latest blocks and never more than \<open>BLOCK_HISTORY_LENGTH\<close> of them,
  however many are appended; nothing is dropped while the bound is kept.
\<close>

lemma append_blocks_bounded:
  "length (finalized_blocks (append_blocks blocks cf)) =
     min BLOCK_HISTORY_LENGTH (length (finalized_blocks cf) + length blocks) \<and>
   (\<exists>dropped. dropped @ finalized_blocks (append_blocks blocks cf) = finalized_blocks cf @ blocks) \<and>
   length (finalized_blocks (append_blocks blocks cf)) \<le> 256"
proof -
  let ?bs = "finalized_blocks cf @ blocks"
  have "take (length ?bs - BLOCK_HISTORY_LENGTH) ?bs @ trim_history ?bs = ?bs"
    by (simp only: trim_history_eq append_take_drop_id)
  then have "\<exists>dropped. dropped @ trim_history ?bs = ?bs" by blast
  then show ?thesis by (simp add: append_blocks_def length_trim_history BLOCK_HISTORY_LENGTH_def)
qed

section \<open>The block task\<close>

datatype runtime_event = NewCertificate certificate u64 | NewEra

text \<open>
  One block is fetched, appended to the history and certified; the event of a certificate carries
  the number that was asked for. On an error the block stays in the history.
\<close>

definition process_next_block ::
  "(bytes \<Rightarrow> bytes) \<Rightarrow> ('sk, 'pk, 'sig, 'msg) secp256k1 \<Rightarrow> (subnet_id set \<Rightarrow> subnet_id list) \<Rightarrow>
   eth_node \<Rightarrow> u64 \<Rightarrow> certification \<Rightarrow> certification \<times> (runtime_error failure + runtime_event list)" where
  "process_next_block keccak S iter node next_block cf =
     (case get_finalized_block node next_block of
        Inl e \<Rightarrow> (cf, Inl (Failed (SubnetError e)))
      | Inr block_info \<Rightarrow>
          (case generate_certificates keccak S iter (append_blocks [block_info] cf) of
             (cf, Inl e) \<Rightarrow> (cf, Inl e)
           | (cf, Inr certificates) \<Rightarrow> (cf, Inr (map (\<lambda>c. NewCertificate c next_block) certificates))))"

text \<open>
  The block after which the task starts. \<open>block_number - 1\<close> wraps for block zero in a build without
  overflow checks.
\<close>

definition default_block_sync_start :: "u64 option \<Rightarrow> int" where
  "default_block_sync_start start = (case start of Some b \<Rightarrow> uint (b - 1) | None \<Rightarrow> -1)"

definition receive_source_head ::
  "(certificate_id \<times> u64) option \<Rightarrow> certification \<Rightarrow> certification \<times> int" where
  "receive_source_head head cf =
     (if last_certificate_id cf = None
      then (cf\<lparr>last_certificate_id := map_option fst head\<rparr>,
            case head of Some (_, position) \<Rightarrow> uint position | None \<Rightarrow> default_block_sync_start (start_block cf))
      else (cf, default_block_sync_start (start_block cf)))"

datatype task_state = TaskRunning | TaskSynced | TaskStopped | TaskPanicked

text \<open>
  The inner loop of the synchronisation: the blocks up to the current one, the node being
  \<open>nodes n\<close> when block \<open>n\<close> is fetched. Any error panics.
\<close>

function sync_historical ::
  "(bytes \<Rightarrow> bytes) \<Rightarrow> ('sk, 'pk, 'sig, 'msg) secp256k1 \<Rightarrow> (subnet_id set \<Rightarrow> subnet_id list) \<Rightarrow>
   (int \<Rightarrow> eth_node) \<Rightarrow> int \<Rightarrow> int \<Rightarrow> certification \<Rightarrow>
   certification \<times> int \<times> runtime_event list \<times> task_state" where
  "sync_historical keccak S iter nodes current latest cf =
     (if latest < current
      then
        (case process_next_block keccak S iter (nodes (latest + 1)) (of_int (latest + 1)) cf of
           (cf, Inl _) \<Rightarrow> (cf, latest, [], TaskPanicked)
         | (cf, Inr events) \<Rightarrow>
             (case sync_historical keccak S iter nodes current (latest + 1) cf of
                (cf, latest, events', st) \<Rightarrow> (cf, latest, events @ events', st)))
      else (cf, latest, [], TaskRunning))"
  by pat_completeness auto
termination by (relation "measure (\<lambda>(_, _, _, _, current, latest, _). nat (current - latest))") auto

declare sync_historical.simps [simp del]

text \<open>The outer loop; each round asks the node for its block number.\<close>

fun sync_missing ::
  "(bytes \<Rightarrow> bytes) \<Rightarrow> ('sk, 'pk, 'sig, 'msg) secp256k1 \<Rightarrow> (subnet_id set \<Rightarrow> subnet_id list) \<Rightarrow>
   (eth_node \<times> (int \<Rightarrow> eth_node)) list \<Rightarrow> int \<Rightarrow> certification \<Rightarrow>
   certification \<times> int \<times> runtime_event list \<times> task_state" where
  "sync_missing keccak S iter [] latest cf = (cf, latest, [], TaskRunning)"
| "sync_missing keccak S iter ((node, nodes) # rounds) latest cf =
     (case get_subnet_block_number node of
        Inl _ \<Rightarrow> (cf, latest, [], TaskPanicked)
      | Inr n \<Rightarrow>
          (if latest = uint n then (cf, latest, [], TaskSynced)
           else
             (case sync_historical keccak S iter nodes (uint n) latest cf of
                (cf, latest, events, TaskPanicked) \<Rightarrow> (cf, latest, events, TaskPanicked)
              | (cf, latest, events, _) \<Rightarrow>
                  (case sync_missing keccak S iter rounds latest cf of
                     (cf, latest, events', st) \<Rightarrow> (cf, latest, events @ events', st)))))"

definition listen_tick ::
  "(bytes \<Rightarrow> bytes) \<Rightarrow> ('sk, 'pk, 'sig, 'msg) secp256k1 \<Rightarrow> (subnet_id set \<Rightarrow> subnet_id list) \<Rightarrow>
   eth_node \<Rightarrow> int \<Rightarrow> certification \<Rightarrow> certification \<times> int \<times> runtime_event list \<times> task_state" where
  "listen_tick keccak S iter node latest cf =
     (case process_next_block keccak S iter node (of_int (latest + 1)) cf of
        (cf, Inl (Failed (SubnetError (BlockNotAvailable _)))) \<Rightarrow> (cf, latest, [], TaskRunning)
      | (cf, Inl Panic) \<Rightarrow> (cf, latest, [], TaskPanicked)
      | (cf, Inl _) \<Rightarrow> (cf, latest, [], TaskStopped)
      | (cf, Inr events) \<Rightarrow> (cf, latest + 1, events, TaskRunning))"

fun listen ::
  "(bytes \<Rightarrow> bytes) \<Rightarrow> ('sk, 'pk, 'sig, 'msg) secp256k1 \<Rightarrow> (subnet_id set \<Rightarrow> subnet_id list) \<Rightarrow>
   eth_node list \<Rightarrow> int \<Rightarrow> certification \<Rightarrow> certification \<times> int \<times> runtime_event list \<times> task_state" where
  "listen keccak S iter [] latest cf = (cf, latest, [], TaskRunning)"
| "listen keccak S iter (node # ticks) latest cf =
     (case listen_tick keccak S iter node latest cf of
        (cf, latest, events, TaskRunning) \<Rightarrow>
          (case listen keccak S iter ticks latest cf of
             (cf, latest, events', st) \<Rightarrow> (cf, latest, events @ events', st))
      | r \<Rightarrow> r)"

definition block_task ::
  "(bytes \<Rightarrow> bytes) \<Rightarrow> ('sk, 'pk, 'sig, 'msg) secp256k1 \<Rightarrow> (subnet_id set \<Rightarrow> subnet_id list) \<Rightarrow>
   (certificate_id \<times> u64) option \<Rightarrow> (eth_node \<times> (int \<Rightarrow> eth_node)) list \<Rightarrow> eth_node list \<Rightarrow> certification \<Rightarrow>
   certification \<times> int \<times> runtime_event list \<times> task_state" where
  "block_task keccak S iter head rounds ticks cf =
     (case receive_source_head head cf of (cf, latest) \<Rightarrow>
      case sync_missing keccak S iter rounds latest cf of
        (cf, latest, events, TaskSynced) \<Rightarrow>
          (case listen keccak S iter ticks latest cf of
             (cf, latest, events', st) \<Rightarrow> (cf, latest, events @ events', st))
      | r \<Rightarrow> r)"

section \<open>The command task\<close>

datatype runtime_command = OnNewDeliveredCertificate certificate u64

text \<open>The certificate and the position that are pushed to the contract, if any.\<close>

fun on_command ::
  "(bytes \<Rightarrow> bytes) \<Rightarrow> ('sk, 'pk, 'sig, 'msg) secp256k1 \<Rightarrow> runtime_command option \<Rightarrow>
   (abi_token list \<times> u64) option" where
  "on_command keccak S (Some (OnNewDeliveredCertificate c position)) =
     (case verify keccak S (to_secp256k1_public_key (source_subnet_id c)) (get_payload c) (frost_signature c) of
        Inl _ \<Rightarrow> None
      | Inr _ \<Rightarrow> Some (certificate_tokens c, position))"
| "on_command keccak S None = None"

section \<open>The chain of certificates\<close>

text \<open>Each certificate names the one before it.\<close>

fun chained :: "certificate_id \<Rightarrow> certificate list \<Rightarrow> bool" where
  "chained prev [] \<longleftrightarrow> True"
| "chained prev (c # cs) \<longleftrightarrow> prev_id c = prev \<and> chained (cert_id c) cs"

definition chain_end :: "certificate_id \<Rightarrow> certificate list \<Rightarrow> certificate_id" where
  "chain_end prev cs = (if cs = [] then prev else cert_id (last cs))"

lemma chained_append: "chained prev (cs @ ds) \<longleftrightarrow> chained prev cs \<and> chained (chain_end prev cs) ds"
  by (induction cs arbitrary: prev) (auto simp: chain_end_def)

lemma chain_end_append [simp]: "chain_end (chain_end prev cs) ds = chain_end prev (cs @ ds)"
  by (simp add: chain_end_def)

text \<open>What the certification does not change.\<close>

definition same_sequencer :: "certification \<Rightarrow> certification \<Rightarrow> bool" where
  "same_sequencer cf cf' \<longleftrightarrow> cf_subnet_id cf' = cf_subnet_id cf \<and> cf_verifier cf' = cf_verifier cf \<and>
     signing_key cf' = signing_key cf \<and> start_block cf' = start_block cf"

lemma generate_single:
  assumes "finalized_blocks cf = [b]" and "generate_certificates keccak S iter cf = (cf', r)"
  obtains (ok) c where "r = Inr [c]" "block_certificate keccak S iter cf b = Inr c"
      "cf' = cf\<lparr>last_certificate_id := Some (cert_id c), finalized_blocks := []\<rparr>"
    | (failed) e where "r = Inl e" "cf' = cf"
proof (cases "block_certificate keccak S iter cf b")
  case (Inl e)
  then show thesis using assms by (intro failed) (auto simp: generate_certificates_def)
next
  case (Inr c)
  show thesis
  proof (cases "and_then (last_known_certificate_id cf) (\<lambda>l. if l = cert_id c then Inl Panic else Inr [c])")
    case (Inl e)
    with Inr assms failed [of e] show thesis by (simp add: generate_certificates_def)
  next
    case (Inr cs)
    moreover from this have "cs = [c]" by (auto simp: and_then_Inr_iff split: if_splits)
    ultimately show thesis using \<open>block_certificate keccak S iter cf b = Inr c\<close> assms
      by (intro ok) (auto simp: generate_certificates_def)
  qed
qed

lemma collect_results_error: "collect_results rs = Inl e \<Longrightarrow> Inl e \<in> set rs"
  by (induction rs) (auto simp: result_simps)

lemma block_certificate_error:
  "block_certificate keccak S iter cf b = Inl e \<Longrightarrow> \<exists>x. e = Failed (CertificateSigningError x)"
  by (auto simp: block_certificate_def map_err_Inl_iff)

lemma generate_error: "generate_certificates keccak S iter cf = (cf', Inl e) \<Longrightarrow> e \<noteq> Failed (SubnetError x)"
proof -
  assume "generate_certificates keccak S iter cf = (cf', Inl e)"
  then have "Inl e \<in> set (map (block_certificate keccak S iter cf) (finalized_blocks cf)) \<or>
      last_known_certificate_id cf = Inl e \<or> e = Panic"
    by (auto simp: generate_certificates_def and_then_Inl_iff dest: collect_results_error split: sum.splits if_splits)
  then show ?thesis
    using block_certificate_error [of keccak S iter cf _ e]
    by (fastforce simp: last_known_certificate_id_def ok_or_Inl_iff split: if_splits)
qed

lemma process_next_block_cases:
  assumes "process_next_block keccak S iter node n cf = (cf', r)" and "finalized_blocks cf = []"
  obtains (ok) c b where "r = Inr [NewCertificate c n]" "get_finalized_block node n = Inr b"
      "block_certificate keccak S iter cf b = Inr c"
      "last_certificate_id cf' = Some (cert_id c)" "finalized_blocks cf' = []" "same_sequencer cf cf'"
    | (unavailable) e where "r = Inl (Failed (SubnetError e))" "cf' = cf"
    | (failed) e where "r = Inl e" "\<forall>x. e \<noteq> Failed (SubnetError x)"
proof (cases "get_finalized_block node n")
  case (Inl e)
  then show thesis using assms unavailable [of e] by (simp add: process_next_block_def)
next
  case (Inr b)
  let ?cf = "append_blocks [b] cf"
  obtain cf2 r2 where gen: "generate_certificates keccak S iter ?cf = (cf2, r2)" by force
  have one: "finalized_blocks ?cf = [b]"
    using assms(2) by (simp add: append_blocks_def trim_history.simps BLOCK_HISTORY_LENGTH_def)
  have same: "block_certificate keccak S iter ?cf b = block_certificate keccak S iter cf b"
    by (simp add: block_certificate_def append_blocks_def previous_certificate_id_def)
  from one gen show thesis
  proof (cases rule: generate_single)
    case (ok c)
    have "cf' = cf2" "r = Inr [NewCertificate c n]"
      using gen Inr assms(1) ok(1) by (simp_all add: process_next_block_def)
    with ok Inr same show thesis
      by (intro that(1) [of c b]) (simp_all add: same_sequencer_def append_blocks_def)
  next
    case (failed e)
    with gen Inr assms that(3) [of e] generate_error [of keccak S iter ?cf cf2 e] show thesis
      by (simp add: process_next_block_def)
  qed
qed

lemma block_certificate_fields:
  assumes "block_certificate keccak S iter cf b = Inr c"
  shows "prev_id c = previous_certificate_id cf" "source_subnet_id c = cf_subnet_id cf"
    "state_root c = bi_state_root b" "target_subnets c = iter (set (map target_subnet_id (bi_events b)))"
  using assms
  by (auto simp: block_certificate_def map_err_Inr_iff update_signature_def and_then_Inr_iff certificate_new_def Let_def)

text \<open>
  A stretch of the task after the block \<open>latest\<close>: it sent one certificate for each further block,
  chained to the last known one, and is ready for more unless it \<open>ended\<close>.
\<close>

fun numbered :: "int \<Rightarrow> certificate list \<Rightarrow> runtime_event list" where
  "numbered latest [] = []"
| "numbered latest (c # cs) = NewCertificate c (of_int (latest + 1)) # numbered (latest + 1) cs"

lemma numbered_append: "numbered l (cs @ ds) = numbered l cs @ numbered (l + int (length cs)) ds"
  by (induction cs arbitrary: l) (simp_all add: ac_simps)

definition chain_stretch ::
  "certification \<Rightarrow> int \<Rightarrow> runtime_event list \<Rightarrow> certification \<Rightarrow> int \<Rightarrow> bool \<Rightarrow> certificate list \<Rightarrow> bool" where
  "chain_stretch cf latest events cf' latest' ended cs \<longleftrightarrow>
     events = numbered latest cs \<and> latest' = latest + int (length cs) \<and>
     chained (previous_certificate_id cf) cs \<and> (\<forall>c \<in> set cs. source_subnet_id c = cf_subnet_id cf) \<and>
     (ended \<or> finalized_blocks cf' = [] \<and> same_sequencer cf cf' \<and>
        previous_certificate_id cf' = chain_end (previous_certificate_id cf) cs)"

lemma chain_stretch_Nil [simp]:
  "chain_stretch cf latest [] cf' latest ended [] \<longleftrightarrow> ended \<or>
     finalized_blocks cf' = [] \<and> same_sequencer cf cf' \<and> previous_certificate_id cf' = previous_certificate_id cf"
  by (simp add: chain_stretch_def chain_end_def)

lemma chain_stretch_append:
  assumes "chain_stretch cf l es cf' l' False cs" and "chain_stretch cf' l' es' cf'' l'' ended ds"
  shows "chain_stretch cf l (es @ es') cf'' l'' ended (cs @ ds)"
  using assms by (auto simp: chain_stretch_def numbered_append chained_append same_sequencer_def)

lemma chain_stretch_step:
  assumes "process_next_block keccak S iter node (of_int (l + 1)) cf = (cf', r)" and "finalized_blocks cf = []"
  shows "case r of Inr es \<Rightarrow> \<exists>cs. chain_stretch cf l es cf' (l + 1) False cs
     | Inl (Failed (SubnetError e)) \<Rightarrow> cf' = cf | Inl _ \<Rightarrow> True"
  using assms
proof (cases rule: process_next_block_cases)
  case (ok c b)
  then have "chain_stretch cf l [NewCertificate c (of_int (l + 1))] cf' (l + 1) False [c]"
    using block_certificate_fields [OF ok(3)]
    by (simp add: chain_stretch_def chain_end_def previous_certificate_id_def)
  then show ?thesis using ok(1) by auto
next
  case (failed e)
  then show ?thesis by (auto split: failure.split runtime_error.split)
qed simp

lemma sync_historical_chain:
  assumes "finalized_blocks cf = []"
    and "sync_historical keccak S iter nodes current latest cf = (cf', latest', es, st)"
  shows "\<exists>cs. chain_stretch cf latest es cf' latest' (st = TaskPanicked) cs"
  using assms
proof (induction keccak S iter nodes current latest cf arbitrary: es rule: sync_historical.induct)
  case (1 keccak S iter nodes current latest cf)
  show ?case
  proof (cases "latest < current")
    case False
    with 1 show ?thesis
      by (intro exI [of _ "[]"]) (simp add: sync_historical.simps [of _ _ _ _ current latest] same_sequencer_def)
  next
    case True
    obtain cf1 r where p: "process_next_block keccak S iter (nodes (latest + 1)) (of_int (latest + 1)) cf = (cf1, r)"
      by force
    note step = chain_stretch_step [OF p 1(2)]
    show ?thesis
    proof (cases r)
      case (Inl e)
      with 1(3) True p show ?thesis
        by (intro exI [of _ "[]"]) (simp add: sync_historical.simps [of _ _ _ _ current latest])
    next
      case (Inr es1)
      obtain cf2 l2 es2 st2 where rest: "sync_historical keccak S iter nodes current (latest + 1) cf1 = (cf2, l2, es2, st2)"
        by (metis prod_cases4)
      with 1(3) True p Inr have out: "cf' = cf2" "latest' = l2" "es = es1 @ es2" "st = st2"
        by (simp_all add: sync_historical.simps [of _ _ _ _ current latest])
      obtain cs1 where cs1: "chain_stretch cf latest es1 cf1 (latest + 1) False cs1" using step Inr by auto
      then have "finalized_blocks cf1 = []" by (simp add: chain_stretch_def)
      with 1(1) [OF True p [symmetric] Inr] rest out
      obtain cs2 where "chain_stretch cf1 (latest + 1) es2 cf2 l2 (st2 = TaskPanicked) cs2" by blast
      with chain_stretch_append [OF cs1] out show ?thesis by blast
    qed
  qed
qed

lemma sync_missing_chain:
  assumes "finalized_blocks cf = []" and "sync_missing keccak S iter rounds latest cf = (cf', latest', es, st)"
  shows "\<exists>cs. chain_stretch cf latest es cf' latest' (st = TaskPanicked) cs"
  using assms
proof (induction keccak S iter rounds latest cf arbitrary: es rule: sync_missing.induct)
  case (1 keccak S iter latest cf)
  then show ?case by (intro exI [of _ "[]"]) (simp add: same_sequencer_def)
next
  case (2 keccak S iter node nodes rounds latest cf)
  have stay: "\<exists>cs. chain_stretch cf latest [] cf latest ended cs" for ended
    using "2.prems"(1) by (intro exI [of _ "[]"]) (simp add: same_sequencer_def)
  show ?case
  proof (cases "get_subnet_block_number node")
    case (Inl e)
    with "2.prems"(2) stay show ?thesis by simp
  next
    case (Inr n)
    show ?thesis
    proof (cases "latest = uint n")
      case True
      with "2.prems"(2) Inr stay show ?thesis by auto
    next
      case False
      obtain cf1 l1 es1 st1 where h: "sync_historical keccak S iter nodes (uint n) latest cf = (cf1, l1, es1, st1)"
        by (metis prod_cases4)
      obtain cs1 where cs1: "chain_stretch cf latest es1 cf1 l1 (st1 = TaskPanicked) cs1"
        using sync_historical_chain [OF "2.prems"(1) h] by blast
      show ?thesis
      proof (cases "st1 = TaskPanicked")
        case True
        with "2.prems"(2) Inr False h cs1 show ?thesis by auto
      next
        case ok: False
        obtain cf2 l2 es2 st2 where rest: "sync_missing keccak S iter rounds l1 cf1 = (cf2, l2, es2, st2)"
          by (metis prod_cases4)
        have out: "cf' = cf2" "latest' = l2" "es = es1 @ es2" "st = st2"
          using "2.prems"(2) Inr False h ok rest by (cases st1; simp)+
        have fb: "finalized_blocks cf1 = []" using cs1 ok by (simp add: chain_stretch_def)
        have "\<exists>cs. chain_stretch cf1 l1 es2 cf2 l2 (st2 = TaskPanicked) cs"
          using "2.IH" [OF Inr False] h ok rest fb out by (cases st1) auto
        moreover have "chain_stretch cf latest es1 cf1 l1 False cs1" using cs1 ok by simp
        ultimately show ?thesis using chain_stretch_append out by blast
      qed
    qed
  qed
qed

lemma listen_chain:
  assumes "finalized_blocks cf = []" and "listen keccak S iter ticks latest cf = (cf', latest', es, st)"
  shows "\<exists>cs. chain_stretch cf latest es cf' latest' (st \<noteq> TaskRunning) cs"
  using assms
proof (induction ticks arbitrary: latest cf es)
  case Nil
  then show ?case by (intro exI [of _ "[]"]) (simp add: same_sequencer_def)
next
  case (Cons node ticks)
  obtain cf1 l1 es1 st1 where tick: "listen_tick keccak S iter node latest cf = (cf1, l1, es1, st1)"
    by (metis prod_cases4)
  obtain cf0 r where p: "process_next_block keccak S iter node (of_int (latest + 1)) cf = (cf0, r)" by force
  have "\<exists>cs. chain_stretch cf latest es1 cf1 l1 (st1 \<noteq> TaskRunning) cs"
    using chain_stretch_step [OF p Cons.prems(1)] tick p Cons.prems(1)
    by (auto simp: listen_tick_def same_sequencer_def intro!: exI [of _ "[]"]
        split: sum.splits failure.splits runtime_error.splits subnet_client_error.splits)
  then obtain cs1 where cs1: "chain_stretch cf latest es1 cf1 l1 (st1 \<noteq> TaskRunning) cs1" by blast
  show ?case
  proof (cases "st1 = TaskRunning")
    case False
    then have "(cf', latest', es, st) = (cf1, l1, es1, st1)" using Cons.prems(2) tick by (cases st1) simp_all
    with cs1 show ?thesis by auto
  next
    case True
    obtain cf2 l2 es2 st2 where rest: "listen keccak S iter ticks l1 cf1 = (cf2, l2, es2, st2)" by (metis prod_cases4)
    have out: "cf' = cf2" "latest' = l2" "es = es1 @ es2" "st = st2" using Cons.prems(2) tick True rest by simp_all
    have "finalized_blocks cf1 = []" using cs1 True by (simp add: chain_stretch_def)
    from Cons.IH [OF this] rest out obtain cs2 where "chain_stretch cf1 l1 es2 cf2 l2 (st2 \<noteq> TaskRunning) cs2" by blast
    moreover have "chain_stretch cf latest es1 cf1 l1 False cs1" using cs1 True by simp
    ultimately show ?thesis using chain_stretch_append out by blast
  qed
qed

lemma block_task_chain:
  fixes subnet vf key start
  defines "cf0 \<equiv> certification_new subnet None vf key start"
  assumes "block_task keccak S iter head rounds ticks cf0 = (cf', latest', es, st)"
  shows "\<exists>cs ended. chain_stretch (cf0\<lparr>last_certificate_id := map_option fst head\<rparr>)
      (case head of Some (_, p) \<Rightarrow> uint p | None \<Rightarrow> default_block_sync_start start) es cf' latest' ended cs"
proof -
  let ?cf = "cf0\<lparr>last_certificate_id := map_option fst head\<rparr>"
  let ?l = "case head of Some (_, p) \<Rightarrow> uint p | None \<Rightarrow> default_block_sync_start start"
  have head: "receive_source_head head cf0 = (?cf, ?l)"
    by (cases head) (simp_all add: receive_source_head_def cf0_def certification_new_def)
  have fb: "finalized_blocks ?cf = []" by (simp add: cf0_def certification_new_def)
  obtain cf1 l1 es1 st1 where sync: "sync_missing keccak S iter rounds ?l ?cf = (cf1, l1, es1, st1)"
    by (metis prod_cases4)
  obtain cs1 where cs1: "chain_stretch ?cf ?l es1 cf1 l1 (st1 = TaskPanicked) cs1"
    using sync_missing_chain [OF fb sync] by blast
  show ?thesis
  proof (cases "st1 = TaskSynced")
    case False
    then have "(cf', latest', es, st) = (cf1, l1, es1, st1)"
      using assms(2) head sync by (cases st1) (simp_all add: block_task_def)
    with cs1 show ?thesis by auto
  next
    case True
    obtain cf2 l2 es2 st2 where rest: "listen keccak S iter ticks l1 cf1 = (cf2, l2, es2, st2)" by (metis prod_cases4)
    have out: "cf' = cf2" "latest' = l2" "es = es1 @ es2" using assms(2) head sync True rest by (simp_all add: block_task_def)
    have "finalized_blocks cf1 = []" using cs1 True by (simp add: chain_stretch_def)
    from listen_chain [OF this rest] obtain cs2 where "chain_stretch cf1 l1 es2 cf2 l2 (st2 \<noteq> TaskRunning) cs2" by blast
    moreover have "chain_stretch ?cf ?l es1 cf1 l1 False cs1" using cs1 True by simp
    ultimately show ?thesis using chain_stretch_append out by blast
  qed
qed

text \<open>
  C8: In every run of the block task, whatever the subnet node answers, the certificates it sends
  out are of its own subnet and form one chain from the source head it was started with: each
  names the certificate before it, and they belong to consecutive blocks, the first being the
  block after the source head.
\<close>

theorem sequencer_certificates_chained:
  assumes "block_task keccak S iter head rounds ticks (certification_new subnet None vf key start) =
      (cf', latest', events, st)"
  shows "\<exists>cs first. events = numbered first cs \<and> latest' = first + int (length cs) \<and>
    first = (case head of Some (_, p) \<Rightarrow> uint p | None \<Rightarrow> default_block_sync_start start) \<and>
    chained (case head of Some (cid, _) \<Rightarrow> cid | None \<Rightarrow> INITIAL_CERTIFICATE_ID) cs \<and>
    (\<forall>c \<in> set cs. source_subnet_id c = subnet)"
  using block_task_chain [OF assms]
  by (auto simp: chain_stretch_def certification_new_def previous_certificate_id_def split: option.splits)

end
