(* ===== verification/Tce_Proxy.thy ===== *)
theory Tce_Proxy
  imports Sequencer
begin

text \<open>
  The connection of a sequencer to a node of the transmission control engine
  (\<^verbatim>\<open>topos-tce-proxy\<close>: \<^verbatim>\<open>client.rs\<close>, \<^verbatim>\<open>worker.rs\<close>) and the application that connects the two
  proxies (\<^verbatim>\<open>topos-sequencer\<close>: \<^verbatim>\<open>app_context.rs\<close>, \<^verbatim>\<open>lib.rs\<close>). Every handler is a function of the
  message it handles; the answers of the node arrive as arguments. A handler of the command loop
  that leaves the loop with \<open>?\<close> is the value \<open>TaskEnded\<close>. \<open>base64_decode\<close> stands for the
  \<^verbatim>\<open>base64ct\<close> crate.
\<close>

section \<open>Messages\<close>

datatype tce_proxy_error =
    TonicTransportError
  | TonicStatusError utf8
  | InvalidChannelError
  | InvalidTceEndpoint
  | ProxyInvalidSubnetId
  | InvalidCertificate
  | HexConversionError utf8
  | UnableToGetSourceHeadCertificate subnet_id utf8
  | SourceHeadEmpty subnet_id
  | UnableToGetLastPendingCertificates subnet_id

record certificate_pushed =
  pushed_certificate :: "proto_certificate option"
  pushed_positions :: "proto_target_stream_position list"

datatype watch_event = CertificatePushed certificate_pushed | StreamOpened "proto_subnet_id list"

datatype tce_proxy_event = NewDeliveredCerts "(certificate \<times> u64) list" | WatchCertificatesChannelFailed

datatype tce_proxy_command = SubmitCertificate certificate | ProxyShutdown

datatype tce_client_command =
    GetSourceHead subnet_id
  | GetLastPendingCertificates "subnet_id list"
  | OpenStream target_checkpoint
  | SendCertificate certificate
  | ClientShutdown

text \<open>What a call of the node sends.\<close>

datatype tce_request =
    SubmitCertificateRequest "proto_certificate option"
  | OpenStreamRequest "proto_target_checkpoint option"
  | GetSourceHeadRequest "proto_subnet_id option"
  | GetLastPendingCertificatesRequest "proto_subnet_id list"

section \<open>The client\<close>

definition client_open_stream :: "subnet_id \<Rightarrow> target_stream_position list \<Rightarrow> tce_client_command" where
  "client_open_stream subnet positions =
     OpenStream \<lparr>tc_target_subnet_ids = [subnet], tc_positions = positions\<rparr>"

fun client_request :: "tce_client_command \<Rightarrow> tce_request option" where
  "client_request (SendCertificate cert) = Some (SubmitCertificateRequest (Some (certificate_to_proto cert)))"
| "client_request (OpenStream checkpoint) = Some (OpenStreamRequest (Some (target_checkpoint_to_proto checkpoint)))"
| "client_request (GetSourceHead subnet) = Some (GetSourceHeadRequest (Some (subnet_id_to_proto subnet)))"
| "client_request (GetLastPendingCertificates subnets) =
     Some (GetLastPendingCertificatesRequest (map subnet_id_to_proto subnets))"
| "client_request ClientShutdown = None"

text \<open>
  A response of the watch stream: the certificate and the position passed to the application, if
  any, and the events for the application. An \<open>Err\<close> of the stream is \<open>Inl\<close>.
\<close>

definition inbound_response ::
  "hex \<Rightarrow> utf8 + watch_event option \<Rightarrow>
   unit failure + (certificate \<times> target_stream_position) option \<times> tce_proxy_event list" where
  "inbound_response H response =
     (case response of
        Inl _ \<Rightarrow> Inr (None, [WatchCertificatesChannelFailed])
      | Inr None \<Rightarrow> Inr (None, [])
      | Inr (Some (StreamOpened _)) \<Rightarrow> Inr (None, [])
      | Inr (Some (CertificatePushed pushed)) \<Rightarrow>
          (case pushed_certificate pushed of
             None \<Rightarrow> Inr (None, [])
           | Some certificate \<Rightarrow>
               (case certificate_from_proto H certificate of
                  Inl Panic \<Rightarrow> Inl Panic
                | Inl (Failed _) \<Rightarrow> Inr (None, [])
                | Inr cert \<Rightarrow>
                    (case pushed_positions pushed of
                       [] \<Rightarrow> Inr (None, [])
                     | p # _ \<Rightarrow>
                         (case target_stream_position_from_proto p of
                            Inl _ \<Rightarrow> Inr (None, [])
                          | Inr position \<Rightarrow> Inr (Some (cert, position), []))))))"

text \<open>The answer of the command loop to a caller; a caller whose sender is dropped sees a channel error.\<close>

datatype 'a client_reply = Replied "tce_proxy_error + 'a" | TaskEnded tce_proxy_error | TaskPanic

definition reply_result :: "'a client_reply \<Rightarrow> tce_proxy_error + 'a" where
  "reply_result r = (case r of Replied x \<Rightarrow> x | _ \<Rightarrow> Inl InvalidChannelError)"

definition client_get_source_head ::
  "hex \<Rightarrow> subnet_id \<Rightarrow> utf8 + proto_source_stream_position option \<times> proto_certificate option \<Rightarrow>
   (certificate \<times> u64) client_reply" where
  "client_get_source_head H subnet response =
     (case response of
        Inl status \<Rightarrow> Replied (Inl (UnableToGetSourceHeadCertificate subnet status))
      | Inr (Some pos, Some cert) \<Rightarrow>
          (case certificate_from_proto H cert of
             Inl Panic \<Rightarrow> TaskPanic
           | Inl (Failed _) \<Rightarrow> TaskEnded InvalidCertificate
           | Inr c \<Rightarrow> Replied (Inr (c, psp_position pos)))
      | Inr _ \<Rightarrow> Replied (Inl (SourceHeadEmpty subnet)))"

type_synonym last_pending_entry = "utf8 \<times> proto_certificate option \<times> u64"

definition last_pending_entry ::
  "(utf8 \<Rightarrow> bytes option) \<Rightarrow> hex \<Rightarrow> last_pending_entry \<Rightarrow>
   tce_proxy_error failure + subnet_id \<times> (certificate \<times> u64) option" where
  "last_pending_entry base64_decode H e =
     (case e of (key, value, index) \<Rightarrow>
      and_then (ok_or (Failed ProxyInvalidSubnetId) (base64_decode key)) (\<lambda>b.
      and_then (map_err (\<lambda>_. Failed ProxyInvalidSubnetId) (subnet_id_try_from b)) (\<lambda>subnet.
      and_then (case value of
          None \<Rightarrow> Inr None
        | Some p \<Rightarrow> and_then (map_err (map_failure (\<lambda>_. UnableToGetLastPendingCertificates subnet))
            (certificate_from_proto H p)) (\<lambda>c. Inr (Some (c, index)))) (\<lambda>r.
        Inr (subnet, r)))))"

definition client_get_last_pending_certificates ::
  "(utf8 \<Rightarrow> bytes option) \<Rightarrow> hex \<Rightarrow> subnet_id \<Rightarrow> utf8 + last_pending_entry list \<Rightarrow>
   (subnet_id \<rightharpoonup> (certificate \<times> u64) option) client_reply" where
  "client_get_last_pending_certificates base64_decode H own response =
     (case response of
        Inl _ \<Rightarrow> Replied (Inl (UnableToGetLastPendingCertificates own))
      | Inr entries \<Rightarrow>
          (case collect_results (map (last_pending_entry base64_decode H) entries) of
             Inl Panic \<Rightarrow> TaskPanic
           | Inl (Failed e) \<Rightarrow> TaskEnded e
           | Inr kvs \<Rightarrow> Replied (Inr (map_of (rev kvs)))))"

section \<open>The worker\<close>

text \<open>
  The certificate the sequencer continues from: the last pending one, at the position of the
  last delivered one plus the number of pending ones, or else the last delivered one.
\<close>

definition source_last_certificate ::
  "(certificate \<times> u64) option \<Rightarrow> (certificate \<times> u64) option \<Rightarrow> (certificate \<times> u64) option" where
  "source_last_certificate pending delivered =
     (if pending = None then delivered
      else map_option (\<lambda>(cert, index).
        (cert, (case delivered of Some (_, position) \<Rightarrow> position | None \<Rightarrow> 0) + index)) pending)"

definition worker_source_head ::
  "subnet_id \<Rightarrow> tce_proxy_error + (subnet_id \<rightharpoonup> (certificate \<times> u64) option) \<Rightarrow>
   tce_proxy_error + certificate \<times> u64 \<Rightarrow> tce_proxy_error + (certificate \<times> u64) option" where
  "worker_source_head subnet pending_answer head_answer =
     and_then pending_answer (\<lambda>pending.
     (let last_pending = (case pending subnet of Some r \<Rightarrow> r | None \<Rightarrow> None) in
      case head_answer of
        Inr c \<Rightarrow> Inr (source_last_certificate last_pending (Some c))
      | Inl (SourceHeadEmpty _) \<Rightarrow> Inr (source_last_certificate last_pending None)
      | Inl e \<Rightarrow> Inl e))"

fun worker_command :: "tce_proxy_command \<Rightarrow> tce_client_command option" where
  "worker_command (SubmitCertificate cert) = Some (SendCertificate cert)"
| "worker_command ProxyShutdown = None"

definition worker_certificate :: "certificate \<times> target_stream_position \<Rightarrow> tce_proxy_event" where
  "worker_certificate received = NewDeliveredCerts [(fst received, tsp_position (snd received))]"

section \<open>The application\<close>

text \<open>\<open>NewEra\<close> is not implemented and panics.\<close>

fun on_subnet_runtime_proxy_event :: "runtime_event \<Rightarrow> unit failure + tce_proxy_command" where
  "on_subnet_runtime_proxy_event (NewCertificate cert _) = Inr (SubmitCertificate cert)"
| "on_subnet_runtime_proxy_event NewEra = Inl Panic"

text \<open>
  The commands for the subnet runtime, or the positions a new worker is started with after the
  watch stream failed.
\<close>

datatype app_action = RuntimeCommands "runtime_command list" | RestartWorker "target_stream_position list"

fun on_tce_proxy_event :: "tce_proxy_event \<Rightarrow> app_action" where
  "on_tce_proxy_event (NewDeliveredCerts certificates) =
     RuntimeCommands (map (\<lambda>(cert, position). OnNewDeliveredCertificate cert position) certificates)"
| "on_tce_proxy_event WatchCertificatesChannelFailed = RestartWorker []"

text \<open>The source head a launched sequencer hands to the block task.\<close>

definition launch_source_head :: "(certificate \<times> u64) option \<Rightarrow> (certificate_id \<times> u64) option" where
  "launch_source_head head =
     (case head of
        Some (cert, position) \<Rightarrow>
          (if cert_id cert = INITIAL_CERTIFICATE_ID then None else Some (cert_id cert, position))
      | None \<Rightarrow> None)"

section \<open>From block to contract\<close>

lemma block_certificate_wf:
  assumes "block_certificate keccak S iter cf b = Inr c" and "keccak_laws keccak" and "hash_iter_laws iter"
    and "wf_certificate_id (previous_certificate_id cf)" and "wf_subnet_id (cf_subnet_id cf)"
    and "length (bi_state_root b) = 32" "length (bi_tx_root_hash b) = 32" "length (bi_receipts_root_hash b) = 32"
    and "\<forall>e \<in> set (bi_events b). wf_subnet_id (target_subnet_id e)"
  shows "wf_certificate c"
proof -
  let ?targets = "iter (set (map target_subnet_id (bi_events b)))"
  have "set ?targets = set (map target_subnet_id (bi_events b))"
    using assms(3) by (simp add: hash_iter_laws_def)
  then have "\<forall>t \<in> set ?targets. wf_subnet_id t" using assms(9) by auto
  moreover obtain sg where "c = (certificate_new keccak (previous_certificate_id cf) (cf_subnet_id cf) (bi_state_root b)
      (bi_tx_root_hash b) (bi_receipts_root_hash b) ?targets (cf_verifier cf) [])\<lparr>frost_signature := sg\<rparr>"
    using assms(1) by (auto simp: block_certificate_def map_err_Inr_iff update_signature_def and_then_Inr_iff)
  ultimately show ?thesis
    using assms(2,4-8)
    by (simp add: certificate_new_def Let_def wf_certificate_def wf_certificate_id_def calculate_cert_id_def id_lengths)
qed

lemma block_certificate_verifies:
  assumes "block_certificate keccak S iter cf b = Inr c" and "secp_laws S"
    and "derive_public_key S (signing_key cf) = Inr (to_secp256k1_public_key (cf_subnet_id cf))"
  shows "verify keccak S (to_secp256k1_public_key (source_subnet_id c)) (get_payload c) (frost_signature c) = Inr ()"
proof -
  let ?c = "certificate_new keccak (previous_certificate_id cf) (cf_subnet_id cf) (bi_state_root b)
      (bi_tx_root_hash b) (bi_receipts_root_hash b) (iter (set (map target_subnet_id (bi_events b)))) (cf_verifier cf) []"
  have "update_signature keccak S (signing_key cf) ?c = Inr c"
    using assms(1) by (simp add: block_certificate_def map_err_Inr_iff)
  moreover have "source_subnet_id ?c = cf_subnet_id cf" by (simp add: certificate_new_def Let_def)
  ultimately show ?thesis using update_signature_sound(1) [OF assms(2), of "signing_key cf" ?c keccak c] assms(3) by simp
qed

text \<open>
  What the target's sequencer does with a certificate of the watch stream: the push to the
  contract, through the client, the worker, the application and the command task.
\<close>

definition relay ::
  "hex \<Rightarrow> (bytes \<Rightarrow> bytes) \<Rightarrow> ('sk, 'pk, 'sig, 'msg) secp256k1 \<Rightarrow> utf8 + watch_event option \<Rightarrow>
   (abi_token list \<times> u64) list" where
  "relay H keccak S response =
     (case inbound_response H response of
        Inr (Some received, _) \<Rightarrow>
          (case on_tce_proxy_event (worker_certificate received) of
             RuntimeCommands cmds \<Rightarrow> List.map_filter (\<lambda>cmd. on_command keccak S (Some cmd)) cmds
           | RestartWorker _ \<Rightarrow> [])
      | _ \<Rightarrow> [])"

lemma on_command_eq:
  "on_command keccak S (Some (OnNewDeliveredCertificate c position)) =
     (if verify keccak S (to_secp256k1_public_key (source_subnet_id c)) (get_payload c) (frost_signature c) = Inr ()
      then Some (certificate_tokens c, position) else None)"
  by (auto split: sum.split)

lemma relay_received:
  "relay H keccak S response =
     (case inbound_response H response of
        Inr (Some (c, t), _) \<Rightarrow>
          (if verify keccak S (to_secp256k1_public_key (source_subnet_id c)) (get_payload c) (frost_signature c) = Inr ()
           then [(certificate_tokens c, tsp_position t)] else [])
      | _ \<Rightarrow> [])"
  by (auto simp: relay_def worker_certificate_def on_command_eq List.map_filter_simps simp del: on_command.simps
      split: sum.split option.split)

lemma relay_pushed:
  assumes "wf_certificate c" and "wf_target_stream_position t"
  shows "relay H keccak S (Inr (Some (CertificatePushed
      \<lparr>pushed_certificate = Some (certificate_to_proto c), pushed_positions = [target_stream_position_to_proto t]\<rparr>))) =
    (if verify keccak S (to_secp256k1_public_key (source_subnet_id c)) (get_payload c) (frost_signature c) = Inr ()
     then [(certificate_tokens c, tsp_position t)] else [])"
proof -
  have "target_stream_position_from_proto (target_stream_position_to_proto t) = Inr t"
    using assms(2) by (simp add: result_simps)
  then show ?thesis
    using certificate_round_trip [OF assms(1)]
    by (simp add: relay_received inbound_response_def)
qed

text \<open>
  C14: From the block of one subnet to the contract of another: the certificate a sequencer makes
  for a block with the key of its subnet, turned into the message of the node and delivered on
  the watch stream of a target subnet, is pushed to the contract of the target, unchanged and
  with its position in the target stream.
\<close>

theorem certificate_reaches_contract:
  assumes "keccak_laws keccak" and "secp_laws S" and "hash_iter_laws iter"
    and "block_certificate keccak S iter cf b = Inr c"
    and "derive_public_key S (signing_key cf) = Inr (to_secp256k1_public_key (cf_subnet_id cf))"
    and "wf_certificate_id (previous_certificate_id cf)" and "wf_subnet_id (cf_subnet_id cf)"
    and "length (bi_state_root b) = 32" "length (bi_tx_root_hash b) = 32" "length (bi_receipts_root_hash b) = 32"
    and "\<forall>e \<in> set (bi_events b). wf_subnet_id (target_subnet_id e)"
    and "client_request (SendCertificate c) = Some (SubmitCertificateRequest (Some p))"
    and "wf_target_stream_position t"
  shows "relay H keccak S (Inr (Some (CertificatePushed
      \<lparr>pushed_certificate = Some p, pushed_positions = [target_stream_position_to_proto t]\<rparr>))) =
    [(certificate_tokens c, tsp_position t)]"
proof -
  have "wf_certificate c" by (rule block_certificate_wf [OF assms(4,1,3,6-11)])
  from relay_pushed [OF this assms(13), of H keccak S] block_certificate_verifies [OF assms(4,2,5)] assms(12)
  show ?thesis by simp
qed

text \<open>
  C37: Only certificates whose signature verifies under the key of their source subnet are pushed
  to the contract, and only well-formed ones, whatever the node sends.
\<close>

theorem pushed_certificate_verified:
  assumes "(tokens, position) \<in> set (relay H keccak S response)"
  shows "\<exists>c. tokens = certificate_tokens c \<and> wf_certificate c \<and>
    verify keccak S (to_secp256k1_public_key (source_subnet_id c)) (get_payload c) (frost_signature c) = Inr ()"
proof -
  from assms obtain c t evs where r: "inbound_response H response = Inr (Some (c, t), evs)" "tokens = certificate_tokens c"
      "verify keccak S (to_secp256k1_public_key (source_subnet_id c)) (get_payload c) (frost_signature c) = Inr ()"
    by (cases "inbound_response H response") (auto simp: relay_received split: prod.splits option.splits if_splits)
  have "\<exists>q. certificate_from_proto H q = Inr c"
    using r(1) by (auto simp: inbound_response_def split: sum.splits option.splits watch_event.splits failure.splits list.splits)
  then have "wf_certificate c" using certificate_from_proto_wf by blast
  with r show ?thesis by blast
qed

section \<open>Restarting\<close>


section \<open>A concrete sequencer\<close>

definition toy_block :: block_info where
  "toy_block = \<lparr>bi_hash = [], bi_parent_hash = [], bi_number = 0, bi_state_root = 1 # replicate 31 0,
     bi_tx_root_hash = replicate 32 0, bi_receipts_root_hash = replicate 32 0, bi_events = []\<rparr>"

definition toy_node :: eth_node where
  "toy_node = \<lparr>node_block_number = Inr 0,
     node_block = (\<lambda>_. Inr (Some \<lparr>eb_number = Some 0, eb_hash = [], eb_parent_hash = [], eb_state_root = 1 # replicate 31 0,
       eb_transactions_root = replicate 32 0, eb_receipts_root = replicate 32 0\<rparr>)),
     node_events = (\<lambda>_. Inr []), node_checkpoints = Inr []\<rparr>"

abbreviation toy_key :: bytes where
  "toy_key \<equiv> replicate 32 1"

abbreviation toy_subnet :: subnet_id where
  "toy_subnet \<equiv> SubnetId toy_key"

abbreviation toy_certification :: certification where
  "toy_certification \<equiv> certification_new toy_subnet None 0 toy_key None"

abbreviation subnet_iter :: "subnet_id set \<Rightarrow> subnet_id list" where
  "subnet_iter \<equiv> sorted_list_of_set"

lemma subnet_iter_laws: "hash_iter_laws subnet_iter"
  by (simp add: hash_iter_laws_def)

lemma toy_finalized_block: "get_finalized_block toy_node 0 = Inr toy_block"
  by (simp add: get_finalized_block_def toy_node_def get_block_events_def toy_block_def)

lemma toy_certificate:
  obtains c where "block_certificate toy_keccak toy_secp subnet_iter toy_certification toy_block = Inr c"
    "cert_id c = CertificateId (replicate 32 33)"
proof -
  let ?c = "certificate_new toy_keccak INITIAL_CERTIFICATE_ID toy_subnet (1 # replicate 31 0) (replicate 32 0)
      (replicate 32 0) [] 0 []"
  have cid: "cert_id ?c = CertificateId (replicate 32 33)"
    by (simp add: certificate_new_def Let_def calculate_cert_id_def calculate_hash_def toy_keccak_def cert_id_buffer_def
        INITIAL_CERTIFICATE_ID_def sum_list_replicate be_bytes32_def id_lengths)
  have "derive_public_key toy_secp toy_key = Inr (2 # toy_key)"
    by (simp add: derive_public_key_def toy_secp_def)
  then obtain sg where "sign toy_keccak toy_secp toy_key (get_payload ?c) = Inr sg"
    using sign_total [OF toy_secp_laws toy_keccak_laws] by blast
  then have "block_certificate toy_keccak toy_secp subnet_iter toy_certification toy_block = Inr (?c\<lparr>frost_signature := sg\<rparr>)"
    by (simp add: block_certificate_def update_signature_def certification_new_def previous_certificate_id_def toy_block_def)
  with cid show thesis by (intro that [of "?c\<lparr>frost_signature := sg\<rparr>"]) simp_all
qed

lemma toy_block_task:
  obtains c cf' where "block_task toy_keccak toy_secp subnet_iter None [(toy_node, \<lambda>_. toy_node), (toy_node, \<lambda>_. toy_node)] []
    toy_certification = (cf', 0, [NewCertificate c 0], TaskRunning)"
proof -
  obtain c where c: "block_certificate toy_keccak toy_secp subnet_iter toy_certification toy_block = Inr c"
    "cert_id c = CertificateId (replicate 32 33)" by (rule toy_certificate)
  let ?cf = "append_blocks [toy_block] toy_certification"
  have blocks: "finalized_blocks ?cf = [toy_block]"
    by (simp add: append_blocks_def certification_new_def trim_history.simps BLOCK_HISTORY_LENGTH_def)
  have "block_certificate toy_keccak toy_secp subnet_iter ?cf toy_block = Inr c"
    using c(1) by (simp add: block_certificate_def append_blocks_def previous_certificate_id_def)
  moreover have "last_known_certificate_id ?cf = Inr INITIAL_CERTIFICATE_ID"
    unfolding last_known_certificate_id_def blocks by (simp add: toy_block_def)
  moreover have "INITIAL_CERTIFICATE_ID \<noteq> cert_id c"
    by (simp add: c(2) INITIAL_CERTIFICATE_ID_def id_lengths)
  ultimately obtain cf1 where "generate_certificates toy_keccak toy_secp subnet_iter ?cf = (cf1, Inr [c])"
    by (simp add: generate_certificates_def blocks)
  then have step: "process_next_block toy_keccak toy_secp subnet_iter toy_node 0 toy_certification =
      (cf1, Inr [NewCertificate c 0])"
    by (simp add: process_next_block_def toy_finalized_block)
  have "sync_historical toy_keccak toy_secp subnet_iter (\<lambda>_. toy_node) 0 (- 1) toy_certification =
      (cf1, 0, [NewCertificate c 0], TaskRunning)"
    by (simp add: sync_historical.simps [of _ _ _ _ 0 "- 1"] sync_historical.simps [of _ _ _ _ 0 0] step)
  moreover have "get_subnet_block_number toy_node = Inr 0" by (simp add: get_subnet_block_number_def toy_node_def)
  moreover have "receive_source_head None toy_certification = (toy_certification, - 1)"
    by (simp add: receive_source_head_def certification_new_def default_block_sync_start_def)
  ultimately show thesis by (intro that [of cf1 c]) (simp add: block_task_def)
qed

theorem sequencer_certificates_chained_witness:
  "\<exists>cs. length cs = 1 \<and> chained INITIAL_CERTIFICATE_ID cs \<and> (\<forall>c \<in> set cs. source_subnet_id c = toy_subnet) \<and>
     fst (snd (snd (block_task toy_keccak toy_secp subnet_iter None [(toy_node, \<lambda>_. toy_node), (toy_node, \<lambda>_. toy_node)] []
       toy_certification))) = numbered (- 1) cs"
proof -
  obtain c cf' where run: "block_task toy_keccak toy_secp subnet_iter None
      [(toy_node, \<lambda>_. toy_node), (toy_node, \<lambda>_. toy_node)] [] toy_certification =
      (cf', 0, [NewCertificate c 0], TaskRunning)" by (rule toy_block_task)
  from sequencer_certificates_chained [OF this] obtain cs where "[NewCertificate c 0] = numbered (- 1) cs" "length cs = 1"
    "chained INITIAL_CERTIFICATE_ID cs" "\<forall>c \<in> set cs. source_subnet_id c = toy_subnet"
    by (auto simp: default_block_sync_start_def)
  with run show ?thesis by (intro exI [of _ cs]) simp
qed

theorem certificate_reaches_contract_witness:
  "\<exists>c. block_certificate toy_keccak toy_secp subnet_iter toy_certification toy_block = Inr c \<and>
     relay lower_hex toy_keccak toy_secp (Inr (Some (CertificatePushed
       \<lparr>pushed_certificate = Some (certificate_to_proto c),
        pushed_positions = [target_stream_position_to_proto
          \<lparr>tsp_target_subnet_id = toy_subnet, tsp_source_subnet_id = toy_subnet, tsp_position = 4,
           tsp_certificate_id = None\<rparr>]\<rparr>))) = [(certificate_tokens c, 4)]"
proof -
  obtain c where c: "block_certificate toy_keccak toy_secp subnet_iter toy_certification toy_block = Inr c"
    by (rule toy_certificate)
  have "derive_public_key toy_secp (signing_key toy_certification) =
      Inr (to_secp256k1_public_key (cf_subnet_id toy_certification))"
    by (simp add: derive_public_key_def toy_secp_def certification_new_def to_secp256k1_public_key_def)
  from certificate_reaches_contract [OF toy_keccak_laws toy_secp_laws subnet_iter_laws c this,
      of "certificate_to_proto c" "\<lparr>tsp_target_subnet_id = toy_subnet, tsp_source_subnet_id = toy_subnet,
        tsp_position = 4, tsp_certificate_id = None\<rparr>" lower_hex]
  show ?thesis using c
    by (simp add: certification_new_def previous_certificate_id_def toy_block_def wf_certificate_id_def wf_subnet_id_def
        INITIAL_CERTIFICATE_ID_def id_lengths wf_target_stream_position_def)
qed

theorem pushed_certificate_verified_witness:
  "\<exists>tokens position c. tokens = certificate_tokens c \<and> wf_certificate c \<and>
     (tokens, position) \<in> set (relay lower_hex toy_keccak toy_secp (Inr (Some (CertificatePushed
       \<lparr>pushed_certificate = Some (certificate_to_proto c),
        pushed_positions = [target_stream_position_to_proto
          \<lparr>tsp_target_subnet_id = toy_subnet, tsp_source_subnet_id = toy_subnet, tsp_position = 4,
           tsp_certificate_id = None\<rparr>]\<rparr>))))"
proof -
  obtain c where c: "block_certificate toy_keccak toy_secp subnet_iter toy_certification toy_block = Inr c"
    by (rule toy_certificate)
  let ?t = "\<lparr>tsp_target_subnet_id = toy_subnet, tsp_source_subnet_id = toy_subnet, tsp_position = 4, tsp_certificate_id = None\<rparr>"
  let ?r = "relay lower_hex toy_keccak toy_secp (Inr (Some (CertificatePushed
      \<lparr>pushed_certificate = Some (certificate_to_proto c), pushed_positions = [target_stream_position_to_proto ?t]\<rparr>)))"
  have "derive_public_key toy_secp (signing_key toy_certification) =
      Inr (to_secp256k1_public_key (cf_subnet_id toy_certification))"
    by (simp add: derive_public_key_def toy_secp_def certification_new_def to_secp256k1_public_key_def)
  note v = block_certificate_verifies [OF c toy_secp_laws this]
  have wfc: "wf_certificate c"
    by (rule block_certificate_wf [OF c toy_keccak_laws subnet_iter_laws])
      (simp_all add: certification_new_def previous_certificate_id_def toy_block_def wf_certificate_id_def wf_subnet_id_def
        INITIAL_CERTIFICATE_ID_def id_lengths)
  have "wf_target_stream_position ?t" by (simp add: wf_target_stream_position_def wf_subnet_id_def id_lengths)
  from relay_pushed [OF wfc this, of lower_hex toy_keccak toy_secp] v have mem: "(certificate_tokens c, 4) \<in> set ?r" by simp
  from pushed_certificate_verified [OF mem] obtain d where "certificate_tokens c = certificate_tokens d" "wf_certificate d" by blast
  with mem show ?thesis by (auto simp: certificate_tokens_inject)
qed


end
