(* ===== verification/Tce_Api.thy ===== *)
theory Tce_Api
  imports Tce_Proxy Validator_Sync
begin

text \<open>
  The client side interface of a node (\<^verbatim>\<open>topos-tce-api\<close>): the runtime that keeps the streams of the
  clients (\<^verbatim>\<open>runtime/mod.rs\<close>), the stream of one client (\<^verbatim>\<open>stream/mod.rs\<close>), the task that catches a
  client up (\<^verbatim>\<open>runtime/sync_task.rs\<close>), the messages (\<^verbatim>\<open>grpc/messaging.rs\<close>, \<^verbatim>\<open>grpc/mod.rs\<close>), and the
  storage client they read through (\<^verbatim>\<open>topos-tce-storage/src/client.rs\<close>).

  A channel is a number, and a handler returns what it sends with the channel it sends it to, in
  the order of the sends. Whether a receiver still exists when something is sent to it is an
  argument of the handlers whose result depends on it. The identifiers \<^verbatim>\<open>Uuid::new_v4\<close> draws are
  part of the command that makes the code draw them.
\<close>

type_synonym uuid = "u64 \<times> u64"
type_synonym sender = nat
type_synonym stream_positions = "subnet_id \<rightharpoonup> (subnet_id \<rightharpoonup> target_stream_position)"

section \<open>The storage client\<close>

datatype fetch_certificates_filter =
    FilterSource certificate_source_stream_position nat
  | FilterTarget certificate_target_stream_position nat

datatype fetch_certificates_position =
    FetchedSource certificate_source_stream_position
  | FetchedTarget certificate_target_stream_position

text \<open>The filter on a source stream is \<^verbatim>\<open>unimplemented!()\<close>.\<close>

fun storage_fetch_certificates ::
  "('db, 'b) store_env \<Rightarrow> fetch_certificates_filter \<Rightarrow> 'db validator_store \<Rightarrow>
   storage_error failure + (certificate_delivered \<times> fetch_certificates_position) list" where
  "storage_fetch_certificates E (FilterSource _ _) s = Inl Panic"
| "storage_fetch_certificates E (FilterTarget pos limit) s =
     and_then (map_err Failed (validator_get_target_stream_certificates_from_position E
       \<lparr>tgt_target_subnet_id = tgt_target_subnet_id pos, tgt_source_subnet_id = tgt_source_subnet_id pos,
        tgt_position = tgt_position pos\<rparr> limit s))
       (\<lambda>values. Inr (map (\<lambda>(certificate, position). (certificate, FetchedTarget position)) values))"

text \<open>An error of the second read is the absence of a head.\<close>

definition storage_get_source_head ::
  "('db, 'b) store_env \<Rightarrow> subnet_id \<Rightarrow> 'db validator_store \<Rightarrow> storage_error + (u64 \<times> certificate) option" where
  "storage_get_source_head E subnet s =
     and_then (validator_get_source_head E subnet s) (\<lambda>head.
     Inr (case head of
        None \<Rightarrow> None
      | Some h \<Rightarrow>
          (case validator_get_certificate E (sh_certificate_id h) s of
             Inl _ \<Rightarrow> None
           | Inr cd \<Rightarrow> map_option (\<lambda>cd. (sh_position h, cd_certificate cd)) cd)))"

section \<open>Messages and errors\<close>

datatype stream_command = PushCertificate certificate "target_stream_position list"

text \<open>The text of a storage error is the error itself.\<close>

datatype api_error =
    PendingStreamNotFound uuid
  | UnableToGetSourceHead subnet_id storage_error
  | UnknownSubnet subnet_id
  | ApiStoreError storage_error

datatype handshake_error =
    HandshakeRuntime api_error
  | OneshotCommunicationChannel
  | InternalCommunicationChannel

datatype stream_error_kind =
    HandshakeFailed handshake_error
  | PreStartError
  | StreamClosed
  | Timeout
  | InvalidCommand
  | TransportError nat
  | MalformedTargetCheckpoint

record stream_error =
  se_stream_id :: uuid
  se_kind :: stream_error_kind

datatype grpc_status = InvalidArgument string | InternalStatus string | OtherStatus nat

datatype inbound_message = InOpenStream target_checkpoint

datatype outbound_message =
    OutStreamOpened "subnet_id list"
  | OutCertificatePushed certificate "target_stream_position list"

datatype internal_command =
    NewStream uuid sender
  | Register uuid stream_positions
  | Handshaked uuid
  | CertificateSubmitted certificate
  | InternalGetSourceHead subnet_id
  | NewTransientStream uuid sender bool

datatype api_event =
    ApiCertificateSubmitted certificate
  | ApiGetSourceHead subnet_id
  | ApiGetLastPendingCertificates "subnet_id set"

text \<open>\<^verbatim>\<open>InboundMessage::try_from\<close>: a checkpoint must be present and valid.\<close>

definition open_stream_from_proto :: "proto_target_checkpoint option \<Rightarrow> grpc_status failure + inbound_message" where
  "open_stream_from_proto value =
     (case value of
        None \<Rightarrow> Inl (Failed (InvalidArgument ''missing target_checkpoint''))
      | Some checkpoint \<Rightarrow>
          and_then (map_err (map_failure (\<lambda>_. InvalidArgument ''invalid checkpoint''))
            (target_checkpoint_from_proto checkpoint)) (\<lambda>c. Inr (InOpenStream c)))"

fun outbound_event :: "outbound_message \<Rightarrow> watch_event" where
  "outbound_event (OutStreamOpened subnet_ids) = StreamOpened (map subnet_id_to_proto subnet_ids)"
| "outbound_event (OutCertificatePushed certificate positions) =
     CertificatePushed \<lparr>pushed_certificate = Some (certificate_to_proto certificate),
       pushed_positions = map target_stream_position_to_proto positions\<rparr>"

text \<open>A request of the client, an \<open>OpenStream\<close> command or none, or the code of a transport error.\<close>

definition parse_stream ::
  "nat + proto_uuid option \<times> proto_target_checkpoint option option \<Rightarrow> uuid \<Rightarrow>
   stream_error failure + uuid option \<times> inbound_message" where
  "parse_stream message stream_id =
     (case message of
        Inl code \<Rightarrow> Inl (Failed \<lparr>se_stream_id = stream_id, se_kind = TransportError code\<rparr>)
      | Inr (_, None) \<Rightarrow> Inl (Failed \<lparr>se_stream_id = stream_id, se_kind = InvalidCommand\<rparr>)
      | Inr (request_id, Some command) \<Rightarrow>
          and_then (map_err (map_failure (\<lambda>_. \<lparr>se_stream_id = stream_id, se_kind = InvalidCommand\<rparr>))
            (open_stream_from_proto command)) (\<lambda>m. Inr (map_option uuid_from_proto request_id, m)))"

text \<open>\<^verbatim>\<open>create_stream\<close>: the responses of a stream.\<close>

fun stream_response ::
  "grpc_status + uuid option \<times> outbound_message \<Rightarrow> grpc_status + proto_uuid option \<times> watch_event option" where
  "stream_response (Inl status) = Inl status"
| "stream_response (Inr (request_id, message)) =
     Inr (map_option uuid_to_proto request_id, Some (outbound_event message))"

section \<open>The stream of a client\<close>

record api_stream =
  str_id :: uuid
  str_listeners :: stream_positions

definition stream_new :: "uuid \<Rightarrow> api_stream" where
  "stream_new u = \<lparr>str_id = u, str_listeners = Map.empty\<rparr>"

text \<open>The loop over the positions stops at the first one of a target that is not listed.\<close>

fun apply_positions ::
  "uuid \<Rightarrow> target_stream_position list \<Rightarrow> stream_positions \<Rightarrow> stream_positions \<times> (stream_error + unit)" where
  "apply_positions u [] m = (m, Inr ())"
| "apply_positions u (p # ps) m =
     (case m (tsp_target_subnet_id p) of
        Some e \<Rightarrow> apply_positions u ps (m(tsp_target_subnet_id p \<mapsto> e(tsp_source_subnet_id p \<mapsto> p)))
      | None \<Rightarrow> (m, Inl \<lparr>se_stream_id = u, se_kind = MalformedTargetCheckpoint\<rparr>))"

definition handle_checkpoint :: "target_checkpoint \<Rightarrow> api_stream \<Rightarrow> api_stream \<times> (stream_error + unit)" where
  "handle_checkpoint checkpoint st =
     (let listed = fold (\<lambda>t m. m(t \<mapsto> Map.empty)) (tc_target_subnet_ids checkpoint) Map.empty;
          (m, r) = apply_positions (str_id st) (tc_positions checkpoint) listed
      in (st\<lparr>str_listeners := m\<rparr>, r))"

text \<open>
  The first message of the client within the time limit: \<open>None\<close> is the timeout, \<open>Inr None\<close> the end
  of the inbound stream. The result also has what is sent to the client.
\<close>

definition pre_start ::
  "(stream_error + (uuid option \<times> inbound_message) option) option \<Rightarrow> bool \<Rightarrow> api_stream \<Rightarrow>
   (grpc_status + uuid option \<times> outbound_message) list \<times> (stream_error + uuid option \<times> target_checkpoint)" where
  "pre_start inbound outbound_open st =
     (case inbound of
        None \<Rightarrow> ([], Inl \<lparr>se_stream_id = str_id st, se_kind = Timeout\<rparr>)
      | Some (Inr (Some (request_id, InOpenStream checkpoint))) \<Rightarrow> ([], Inr (request_id, checkpoint))
      | Some _ \<Rightarrow>
          if outbound_open then ([Inl (InvalidArgument ''No OpenStream provided'')],
            Inl \<lparr>se_stream_id = str_id st, se_kind = PreStartError\<rparr>)
          else ([], Inl \<lparr>se_stream_id = str_id st, se_kind = StreamClosed\<rparr>))"

text \<open>
  \<open>registered\<close> and \<open>handshaked\<close> say whether the runtime still takes the two commands, \<open>reply\<close> is its
  answer to the first one, if any. The result of \<open>handle_checkpoint\<close> is dropped, as in the code.
\<close>

definition handshake ::
  "target_checkpoint \<Rightarrow> bool \<Rightarrow> (api_error + unit) option \<Rightarrow> bool \<Rightarrow> api_stream \<Rightarrow>
   api_stream \<times> internal_command list \<times> (handshake_error + unit)" where
  "handshake checkpoint registered reply handshaked st =
     (let st = fst (handle_checkpoint checkpoint st);
          register = Register (str_id st) (str_listeners st)
      in if \<not> registered then (st, [], Inl InternalCommunicationChannel)
         else case reply of
             None \<Rightarrow> (st, [register], Inl OneshotCommunicationChannel)
           | Some (Inl e) \<Rightarrow> (st, [register], Inl (HandshakeRuntime e))
           | Some (Inr _) \<Rightarrow>
               if handshaked then (st, [register, Handshaked (str_id st)], Inr ())
               else (st, [register], Inl InternalCommunicationChannel))"

fun stream_handle_command ::
  "stream_command \<Rightarrow> bool \<Rightarrow> api_stream \<Rightarrow> (uuid option \<times> outbound_message) list \<times> (stream_error + bool)" where
  "stream_handle_command (PushCertificate certificate positions) outbound_open st =
     (if outbound_open then ([(None, OutCertificatePushed certificate positions)], Inr False)
      else ([], Inl \<lparr>se_stream_id = str_id st, se_kind = StreamClosed\<rparr>))"

text \<open>
  The loop of \<open>run\<close>: a command with whether the outbound channel is open, or a packet of the client,
  which is ignored. The end of the list is the end of both channels.
\<close>

fun stream_loop ::
  "(stream_command \<times> bool) option list \<Rightarrow> api_stream \<Rightarrow> (uuid option \<times> outbound_message) list \<times> (stream_error + uuid)" where
  "stream_loop [] st = ([], Inr (str_id st))"
| "stream_loop (None # inputs) st = stream_loop inputs st"
| "stream_loop (Some (command, outbound_open) # inputs) st =
     (case stream_handle_command command outbound_open st of
        (out, Inl e) \<Rightarrow> (out, Inl e)
      | (out, Inr stop) \<Rightarrow>
          if stop then (out, Inr (str_id st))
          else (let (out', r) = stream_loop inputs st in (out @ out', r)))"

text \<open>What the environment of one stream does: the answers \<open>run\<close> waits for, in their order.\<close>

record stream_env =
  env_inbound :: "(stream_error + (uuid option \<times> inbound_message) option) option"
  env_outbound_open :: bool
  env_registered :: bool
  env_reply :: "(api_error + unit) option"
  env_handshaked :: bool
  env_opened :: bool
  env_inputs :: "(stream_command \<times> bool) option list"

definition stream_run ::
  "(subnet_id set \<Rightarrow> subnet_id list) \<Rightarrow> stream_env \<Rightarrow> api_stream \<Rightarrow>
   internal_command list \<times> (grpc_status + uuid option \<times> outbound_message) list \<times> (stream_error + uuid)" where
  "stream_run iter e st =
     (case pre_start (env_inbound e) (env_outbound_open e) st of
        (out, Inl err) \<Rightarrow> ([], out, Inl err)
      | (out, Inr (request_id, checkpoint)) \<Rightarrow>
          (case handshake checkpoint (env_registered e) (env_reply e) (env_handshaked e) st of
             (st, commands, Inl err) \<Rightarrow>
               (commands, out, Inl \<lparr>se_stream_id = str_id st, se_kind = HandshakeFailed err\<rparr>)
           | (st, commands, Inr _) \<Rightarrow>
               if \<not> env_opened e then
                 (commands, out, Inl \<lparr>se_stream_id = str_id st, se_kind = StreamClosed\<rparr>)
               else (let (pushed, r) = stream_loop (env_inputs e) st
                     in (commands, out @ [Inr (request_id, OutStreamOpened (iter (dom (str_listeners st))))]
                           @ map Inr pushed, r))))"

section \<open>Stores that can be read\<close>

definition readable_store :: "('db, 'b) store_env \<Rightarrow> 'db validator_store \<Rightarrow> bool" where
  "readable_store E s \<longleftrightarrow> validator_ready E s \<and> rocksdb_reliable (env_rocks E) \<and>
     store_consistent (fullnode_view E (vs_fullnode s))"

lemma readable_storeD:
  assumes "readable_store E s"
  shows "fullnode_ready E (vs_fullnode s)" and "rocksdb_reliable (env_rocks E)"
    and "store_consistent (fullnode_view E (vs_fullnode s))"
  using assms by (simp_all add: readable_store_def validator_ready_def)

end
