(* ===== verification/Tce_Api_Runtime.thy ===== *)
theory Tce_Api_Runtime
  imports Tce_Api "HOL-Library.Multiset"
begin

text \<open>
  The task that catches a client up (\<^verbatim>\<open>runtime/sync_task.rs\<close>) and the runtime of the interface
  (\<^verbatim>\<open>runtime/mod.rs\<close>): the pending, active and transient streams, the subscriptions, and the
  dispatch of delivered certificates. The order of the iteration over a hash map is an argument.

  The specification of the runtime is the history of what it handled: the phase of a stream and
  the subscribers of a subnet are read off the history, and the tables of the runtime are shown
  to be them.
\<close>

section \<open>The synchronisation task\<close>

datatype sync_task_error = SendingToStream stream_command | InvalidCertificatePosition

datatype sync_task_status = SyncRunning | SyncError sync_task_error | SyncDone | SyncCancelled

record sync_task =
  st_status :: sync_task_status
  st_stream_id :: uuid
  st_positions :: stream_positions
  st_notifier :: sender
  st_cancel_token :: nat

definition sync_task_new :: "uuid \<Rightarrow> stream_positions \<Rightarrow> sender \<Rightarrow> nat \<Rightarrow> sync_task" where
  "sync_task_new u positions notifier token =
     \<lparr>st_status = SyncRunning, st_stream_id = u, st_positions = positions, st_notifier = notifier,
      st_cancel_token = token\<rparr>"

text \<open>The sources without a position of the client start at 0.\<close>

definition start_position :: "subnet_id \<Rightarrow> subnet_id \<Rightarrow> target_stream_position" where
  "start_position t u =
     \<lparr>tsp_target_subnet_id = t, tsp_source_subnet_id = u, tsp_position = 0, tsp_certificate_id = None\<rparr>"

definition complete_sources ::
  "subnet_id \<Rightarrow> subnet_id list \<Rightarrow> (subnet_id \<rightharpoonup> target_stream_position) \<Rightarrow> (subnet_id \<rightharpoonup> target_stream_position)"
  where
  "complete_sources t sources m = fold (\<lambda>u m. if m u = None then m(u \<mapsto> start_position t u) else m) sources m"

text \<open>
  The task shares the store and the cancellation token with the rest of the node: \<open>store k\<close> and
  \<open>cancelled k\<close> are what its step \<open>k\<close> sees. A result \<open>None\<close> is a cancelled task.
\<close>

type_synonym sync_collector = "(certificate_delivered \<times> fetch_certificates_position) list"

fun collect_sources ::
  "('db, 'b) store_env \<Rightarrow> (nat \<Rightarrow> 'db validator_store) \<Rightarrow> (nat \<Rightarrow> bool) \<Rightarrow> nat \<Rightarrow> target_stream_position list \<Rightarrow>
   sync_collector \<Rightarrow> (nat \<times> sync_collector) option" where
  "collect_sources E store cancelled k [] collector = Some (k, collector)"
| "collect_sources E store cancelled k (p # ps) collector =
     (if cancelled k then None
      else collect_sources E store cancelled (Suc k) ps
        (case storage_fetch_certificates E (FilterTarget
            \<lparr>tgt_target_subnet_id = tsp_target_subnet_id p, tgt_source_subnet_id = tsp_source_subnet_id p,
             tgt_position = tsp_position p\<rparr> 100) (store k) of
           Inr certificates \<Rightarrow> collector @ certificates
         | Inl _ \<Rightarrow> collector))"

fun collect_targets ::
  "('db, 'b) store_env \<Rightarrow> (subnet_id set \<Rightarrow> subnet_id list) \<Rightarrow> (nat \<Rightarrow> 'db validator_store) \<Rightarrow> (nat \<Rightarrow> bool) \<Rightarrow> nat \<Rightarrow>
   (subnet_id \<times> (subnet_id \<rightharpoonup> target_stream_position)) list \<Rightarrow> sync_collector \<Rightarrow> (nat \<times> sync_collector) option" where
  "collect_targets E iter store cancelled k [] collector = Some (k, collector)"
| "collect_targets E iter store cancelled k ((t, source) # ts) collector =
     (if cancelled k then None
      else
        let source = (case validator_get_target_source_subnet_list E t (store k) of
              Inr sources \<Rightarrow> complete_sources t sources source
            | Inl _ \<Rightarrow> source)
        in case collect_sources E store cancelled (Suc k) (map (\<lambda>u. the (source u)) (iter (dom source))) collector of
             None \<Rightarrow> None
           | Some (k, collector) \<Rightarrow> collect_targets E iter store cancelled k ts collector)"

text \<open>The sends to the stream; \<open>accepts n\<close> says whether the receiver exists at the send \<open>n\<close>.\<close>

fun push_collected ::
  "(nat \<Rightarrow> bool) \<Rightarrow> nat \<Rightarrow> sync_collector \<Rightarrow> stream_command list \<times> sync_task_status" where
  "push_collected accepts n [] = ([], SyncDone)"
| "push_collected accepts n ((cd, FetchedTarget p) # collector) =
     (let command = PushCertificate (cd_certificate cd)
            [\<lparr>tsp_target_subnet_id = tgt_target_subnet_id p, tsp_source_subnet_id = tgt_source_subnet_id p,
              tsp_position = tgt_position p, tsp_certificate_id = Some (cert_id (cd_certificate cd))\<rparr>]
      in if accepts n
         then (let (commands, status) = push_collected accepts (Suc n) collector in (command # commands, status))
         else ([], SyncError (SendingToStream command)))"
| "push_collected accepts n ((cd, FetchedSource p) # collector) = ([], SyncError InvalidCertificatePosition)"

definition sync_task_run ::
  "('db, 'b) store_env \<Rightarrow> (subnet_id set \<Rightarrow> subnet_id list) \<Rightarrow> (nat \<Rightarrow> 'db validator_store) \<Rightarrow> (nat \<Rightarrow> bool) \<Rightarrow>
   (nat \<Rightarrow> bool) \<Rightarrow> sync_task \<Rightarrow> stream_command list \<times> uuid \<times> sync_task_status" where
  "sync_task_run E iter store cancelled accepts task =
     (case collect_targets E iter store cancelled 0
        (map (\<lambda>t. (t, the (st_positions task t))) (iter (dom (st_positions task)))) [] of
        None \<Rightarrow> ([], st_stream_id task, SyncCancelled)
      | Some (_, collector) \<Rightarrow>
          (let (commands, status) = push_collected accepts 0 collector
           in (commands, st_stream_id task, status)))"

section \<open>The runtime\<close>

text \<open>
  \<open>rt_cancelled\<close> holds the cancellation tokens that were cancelled and \<open>rt_next_token\<close> the next one;
  \<open>rt_streams\<close> the streams that were started; \<open>rt_events\<close> what was sent to the application.
\<close>

record api_runtime =
  rt_sync_tasks :: "uuid \<rightharpoonup> nat"
  rt_running_sync_tasks :: "sync_task list"
  rt_cancelled :: "nat set"
  rt_next_token :: nat
  rt_transient_streams :: "uuid \<rightharpoonup> sender"
  rt_active_streams :: "uuid \<rightharpoonup> sender"
  rt_pending_streams :: "uuid \<rightharpoonup> sender"
  rt_subnet_subscriptions :: "subnet_id \<rightharpoonup> uuid set"
  rt_events :: "api_event list"
  rt_streams :: "uuid list"

definition api_runtime_new :: api_runtime where
  "api_runtime_new =
     \<lparr>rt_sync_tasks = Map.empty, rt_running_sync_tasks = [], rt_cancelled = {}, rt_next_token = 0,
      rt_transient_streams = Map.empty, rt_active_streams = Map.empty, rt_pending_streams = Map.empty,
      rt_subnet_subscriptions = Map.empty, rt_events = [], rt_streams = []\<rparr>"

definition handle_stream_termination :: "stream_error + uuid \<Rightarrow> api_runtime \<Rightarrow> api_runtime" where
  "handle_stream_termination result rt =
     (case result of
        Inr u \<Rightarrow> rt\<lparr>rt_active_streams := (rt_active_streams rt)(u := None),
                    rt_pending_streams := (rt_pending_streams rt)(u := None)\<rparr>
      | Inl e \<Rightarrow> rt\<lparr>rt_active_streams := (rt_active_streams rt)(se_stream_id e := None),
                    rt_pending_streams := (rt_pending_streams rt)(se_stream_id e := None)\<rparr>)"

text \<open>The positions of a delivered certificate as the runtime dispatches them.\<close>

definition dispatch_positions ::
  "certificate \<Rightarrow> certificate_positions \<Rightarrow> subnet_id \<rightharpoonup> target_stream_position" where
  "dispatch_positions certificate positions =
     (\<lambda>t. map_option (\<lambda>p. \<lparr>tsp_target_subnet_id = tgt_target_subnet_id p, tsp_source_subnet_id = tgt_source_subnet_id p,
        tsp_position = tgt_position p, tsp_certificate_id = Some (cert_id certificate)\<rparr>) (cp_targets positions t))"

definition dispatch_target ::
  "(uuid set \<Rightarrow> uuid list) \<Rightarrow> certificate \<Rightarrow> (subnet_id \<rightharpoonup> target_stream_position) \<Rightarrow> api_runtime \<Rightarrow> subnet_id \<Rightarrow>
   (sender \<times> stream_command) list" where
  "dispatch_target uiter certificate positions rt t =
     (case rt_subnet_subscriptions rt t of
        None \<Rightarrow> []
      | Some stream_list \<Rightarrow>
          List.map_filter (\<lambda>u.
            case rt_active_streams rt u of
              None \<Rightarrow> None
            | Some sender \<Rightarrow> map_option (\<lambda>p. (sender, PushCertificate certificate [p])) (positions t))
            (uiter stream_list))"

text \<open>
  A dispatch changes nothing of the runtime: what it sends to the transient streams and to the
  streams. The targets are a set, so that no position is removed before it is used.
\<close>

definition dispatch_certificate ::
  "(subnet_id set \<Rightarrow> subnet_id list) \<Rightarrow> (uuid set \<Rightarrow> uuid list) \<Rightarrow> certificate \<Rightarrow> (subnet_id \<rightharpoonup> target_stream_position) \<Rightarrow>
   api_runtime \<Rightarrow> (sender \<times> certificate) list \<times> (sender \<times> stream_command) list" where
  "dispatch_certificate iter uiter certificate positions rt =
     (map (\<lambda>u. (the (rt_transient_streams rt u), certificate)) (uiter (dom (rt_transient_streams rt))),
      concat (map (dispatch_target uiter certificate positions rt) (iter (set (target_subnets certificate)))))"

fun handle_internal_command :: "internal_command \<Rightarrow> api_runtime \<Rightarrow> api_runtime" where
  "handle_internal_command (NewTransientStream u sender replied) rt =
     (let rt = rt\<lparr>rt_transient_streams := (rt_transient_streams rt)(u \<mapsto> sender), rt_streams := rt_streams rt @ [u]\<rparr>
      in if replied then rt else rt\<lparr>rt_transient_streams := (rt_transient_streams rt)(u := None)\<rparr>)"
| "handle_internal_command (NewStream u command_sender) rt =
     rt\<lparr>rt_pending_streams := (rt_pending_streams rt)(u \<mapsto> command_sender), rt_streams := rt_streams rt @ [u]\<rparr>"
| "handle_internal_command (Handshaked u) rt =
     (case rt_pending_streams rt u of
        Some sender \<Rightarrow> rt\<lparr>rt_pending_streams := (rt_pending_streams rt)(u := None),
                         rt_active_streams := (rt_active_streams rt)(u \<mapsto> sender)\<rparr>
      | None \<Rightarrow> rt)"
| "handle_internal_command (Register u positions) rt =
     (let rt = (case rt_sync_tasks rt u of
            Some token \<Rightarrow> rt\<lparr>rt_sync_tasks := (rt_sync_tasks rt)(u := None), rt_cancelled := insert token (rt_cancelled rt)\<rparr>
          | None \<Rightarrow> rt);
          notifier = (case rt_active_streams rt u of Some sender \<Rightarrow> Some sender | None \<Rightarrow> rt_pending_streams rt u)
      in case notifier of
           None \<Rightarrow> rt
         | Some sender \<Rightarrow>
             rt\<lparr>rt_subnet_subscriptions := (\<lambda>t. if t \<in> dom positions
                  then Some (insert u (case rt_subnet_subscriptions rt t of Some us \<Rightarrow> us | None \<Rightarrow> {}))
                  else rt_subnet_subscriptions rt t),
                rt_running_sync_tasks := rt_running_sync_tasks rt @ [sync_task_new u positions sender (rt_next_token rt)],
                rt_sync_tasks := (rt_sync_tasks rt)(u \<mapsto> rt_next_token rt),
                rt_next_token := Suc (rt_next_token rt)\<rparr>)"
| "handle_internal_command (CertificateSubmitted certificate) rt =
     rt\<lparr>rt_events := rt_events rt @ [ApiCertificateSubmitted certificate]\<rparr>"
| "handle_internal_command (InternalGetSourceHead subnet) rt =
     rt\<lparr>rt_events := rt_events rt @ [ApiGetSourceHead subnet]\<rparr>"

text \<open>One turn of the loop of \<open>launch\<close>; the health report and a finished task change nothing.\<close>

datatype api_input =
    Delivered certificate_delivered certificate_positions
  | Dispatch certificate "subnet_id \<rightharpoonup> target_stream_position"
  | StreamEnded "stream_error + uuid"
  | Internal internal_command
  | SyncTaskEnded uuid sync_task_status

fun api_step :: "api_input \<Rightarrow> api_runtime \<Rightarrow> api_runtime" where
  "api_step (Internal command) rt = handle_internal_command command rt"
| "api_step (StreamEnded result) rt = handle_stream_termination result rt"
| "api_step (Delivered cd positions) rt = rt"
| "api_step (Dispatch certificate positions) rt = rt"
| "api_step (SyncTaskEnded u status) rt = rt"

fun api_pushes ::
  "(subnet_id set \<Rightarrow> subnet_id list) \<Rightarrow> (uuid set \<Rightarrow> uuid list) \<Rightarrow> api_input \<Rightarrow> api_runtime \<Rightarrow> (sender \<times> stream_command) list"
  where
  "api_pushes iter uiter (Delivered cd positions) rt =
     snd (dispatch_certificate iter uiter (cd_certificate cd) (dispatch_positions (cd_certificate cd) positions) rt)"
| "api_pushes iter uiter (Dispatch certificate positions) rt =
     snd (dispatch_certificate iter uiter certificate positions rt)"
| "api_pushes iter uiter _ rt = []"

definition api_run :: "api_input list \<Rightarrow> api_runtime" where
  "api_run history = fold api_step history api_runtime_new"

section \<open>The runtime and its history\<close>

datatype stream_phase = Absent | Negotiating sender | Opened sender

fun phase_step :: "uuid \<Rightarrow> api_input \<Rightarrow> stream_phase \<Rightarrow> stream_phase" where
  "phase_step u (Internal (NewStream v sender)) ph = (if v = u then Negotiating sender else ph)"
| "phase_step u (Internal (Handshaked v)) ph =
     (case ph of Negotiating sender \<Rightarrow> if v = u then Opened sender else ph | _ \<Rightarrow> ph)"
| "phase_step u (StreamEnded (Inr v)) ph = (if v = u then Absent else ph)"
| "phase_step u (StreamEnded (Inl e)) ph = (if se_stream_id e = u then Absent else ph)"
| "phase_step u _ ph = ph"

definition phase :: "api_input list \<Rightarrow> uuid \<Rightarrow> stream_phase" where
  "phase history u = fold (phase_step u) history Absent"

definition subscribers :: "api_input list \<Rightarrow> subnet_id \<Rightarrow> uuid set" where
  "subscribers history t =
     {u. \<exists>before positions after. history = before @ Internal (Register u positions) # after \<and>
        t \<in> dom positions \<and> phase before u \<noteq> Absent}"

text \<open>The streams that were opened, and that each has its own identifier.\<close>

definition new_streams :: "api_input list \<Rightarrow> uuid list" where
  "new_streams history = List.map_filter (\<lambda>i. case i of Internal (NewStream u _) \<Rightarrow> Some u | _ \<Rightarrow> None) history"

lemma phase_Nil [simp]: "phase [] u = Absent"
  by (simp add: phase_def)

lemma phase_append [simp]: "phase (h @ [i]) u = phase_step u i (phase h u)"
  by (simp add: phase_def)

lemma api_run_Nil [simp]: "api_run [] = api_runtime_new"
  by (simp add: api_run_def)

lemma api_run_append [simp]: "api_run (h @ [i]) = api_step i (api_run h)"
  by (simp add: api_run_def)

lemma subscribers_Nil [simp]: "subscribers [] t = {}"
  by (simp add: subscribers_def)

lemma snoc_eq_split_iff:
  "h @ [i] = before @ x # after \<longleftrightarrow>
     after = [] \<and> h = before \<and> i = x \<or> (\<exists>rest. after = rest @ [i] \<and> h = before @ x # rest)"
  by (cases after rule: rev_cases) auto

lemma subscribers_append:
  "u \<in> subscribers (h @ [i]) t \<longleftrightarrow> u \<in> subscribers h t \<or>
     (\<exists>positions. i = Internal (Register u positions) \<and> t \<in> dom positions \<and> phase h u \<noteq> Absent)"
  unfolding subscribers_def mem_Collect_eq snoc_eq_split_iff by blast

lemma new_streams_append [simp]:
  "new_streams (h @ [i]) = new_streams h @ (case i of Internal (NewStream u _) \<Rightarrow> [u] | _ \<Rightarrow> [])"
  by (auto simp: new_streams_def List.map_filter_def split: api_input.splits internal_command.splits)

lemma phase_known: "phase h u \<noteq> Absent \<Longrightarrow> u \<in> set (new_streams h)"
proof (induction h rule: rev_induct)
  case (snoc i h)
  then show ?case
    by (cases "(u, i, phase h u)" rule: phase_step.cases)
      (auto split: api_input.splits internal_command.splits stream_phase.splits if_splits)
qed simp

lemma finite_subscribers: "finite (subscribers h t)"
proof (rule finite_subset)
  show "subscribers h t \<subseteq> set (new_streams h)"
  proof
    fix u assume "u \<in> subscribers h t"
    then obtain b p a where "h = b @ Internal (Register u p) # a" "phase b u \<noteq> Absent" by (auto simp: subscribers_def)
    with phase_known [of b u] show "u \<in> set (new_streams h)" by (auto simp: new_streams_def List.map_filter_def)
  qed
qed simp

text \<open>The tables of the runtime are what the history says.\<close>

definition tables_match :: "api_input list \<Rightarrow> api_runtime \<Rightarrow> bool" where
  "tables_match h rt \<longleftrightarrow>
     (\<forall>u. rt_active_streams rt u = (case phase h u of Opened s \<Rightarrow> Some s | _ \<Rightarrow> None)) \<and>
     (\<forall>u. rt_pending_streams rt u = (case phase h u of Negotiating s \<Rightarrow> Some s | _ \<Rightarrow> None)) \<and>
     (\<forall>t. rt_subnet_subscriptions rt t = (if subscribers h t = {} then None else Some (subscribers h t)))"

lemma tables_matchI:
  assumes "\<And>u. rt_active_streams rt u = (case phase h u of Opened s \<Rightarrow> Some s | _ \<Rightarrow> None)"
    and "\<And>u. rt_pending_streams rt u = (case phase h u of Negotiating s \<Rightarrow> Some s | _ \<Rightarrow> None)"
    and "\<And>t. rt_subnet_subscriptions rt t = (if subscribers h t = {} then None else Some (subscribers h t))"
  shows "tables_match h rt"
  using assms unfolding tables_match_def by blast

lemma tables_matchD:
  assumes "tables_match h rt"
  shows "rt_active_streams rt u = (case phase h u of Opened s \<Rightarrow> Some s | _ \<Rightarrow> None)"
    and "rt_pending_streams rt u = (case phase h u of Negotiating s \<Rightarrow> Some s | _ \<Rightarrow> None)"
    and "rt_subnet_subscriptions rt t = (if subscribers h t = {} then None else Some (subscribers h t))"
  using assms unfolding tables_match_def by blast+

lemma subscribers_other:
  "(\<And>u positions. i \<noteq> Internal (Register u positions)) \<Longrightarrow> subscribers (h @ [i]) t = subscribers h t"
  by (auto simp: subscribers_append)

lemma subscribers_register:
  "subscribers (h @ [Internal (Register u positions)]) t =
     (if t \<in> dom positions \<and> phase h u \<noteq> Absent then insert u (subscribers h t) else subscribers h t)"
  by (auto simp: subscribers_append)

lemma register_matches:
  assumes "tables_match h rt"
  shows "tables_match (h @ [Internal (Register u positions)]) (handle_internal_command (Register u positions) rt)"
proof -
  note m = tables_matchD [OF assms]
  let ?rt = "handle_internal_command (Register u positions) rt"
  have streams: "rt_active_streams ?rt = rt_active_streams rt" "rt_pending_streams ?rt = rt_pending_streams rt"
    by (simp_all add: Let_def split: option.splits)
  have notifier: "(case rt_active_streams rt u of Some sender \<Rightarrow> Some sender | None \<Rightarrow> rt_pending_streams rt u) = None
      \<longleftrightarrow> phase h u = Absent"
    by (simp add: m split: stream_phase.splits)
  have subs: "rt_subnet_subscriptions ?rt t =
      (if t \<in> dom positions \<and> phase h u \<noteq> Absent
       then Some (insert u (case rt_subnet_subscriptions rt t of Some us \<Rightarrow> us | None \<Rightarrow> {}))
       else rt_subnet_subscriptions rt t)" for t
    using notifier by (auto simp: Let_def split: option.splits)
  show ?thesis
    by (rule tables_matchI) (simp_all add: streams m(1,2) subs subscribers_register m(3) del: handle_internal_command.simps)
qed

lemma termination_matches:
  assumes "tables_match h rt"
  shows "tables_match (h @ [StreamEnded r]) (handle_stream_termination r rt)"
  by (rule tables_matchI; cases r)
    (simp_all add: handle_stream_termination_def tables_matchD [OF assms] subscribers_other)

lemma handshaked_matches:
  assumes "tables_match h rt"
  shows "tables_match (h @ [Internal (Handshaked u)]) (handle_internal_command (Handshaked u) rt)"
  by (rule tables_matchI) (auto simp: tables_matchD [OF assms] subscribers_other split: stream_phase.splits)

lemma new_stream_matches:
  assumes "tables_match h rt" and "phase h u = Absent"
  shows "tables_match (h @ [Internal (NewStream u sender)]) (handle_internal_command (NewStream u sender) rt)"
proof (rule tables_matchI)
  fix v
  show "rt_active_streams (handle_internal_command (NewStream u sender) rt) v =
      (case phase (h @ [Internal (NewStream u sender)]) v of Opened s \<Rightarrow> Some s | _ \<Rightarrow> None)"
    using assms(2) by (cases "u = v") (simp_all add: tables_matchD [OF assms(1)])
  show "rt_pending_streams (handle_internal_command (NewStream u sender) rt) v =
      (case phase (h @ [Internal (NewStream u sender)]) v of Negotiating s \<Rightarrow> Some s | _ \<Rightarrow> None)"
    by (cases "u = v") (simp_all add: tables_matchD [OF assms(1)])
qed (simp add: tables_matchD [OF assms(1)] subscribers_other)

lemma api_run_matches:
  assumes "distinct (new_streams h)"
  shows "tables_match h (api_run h)"
  using assms
proof (induction h rule: rev_induct)
  case Nil
  show ?case by (simp add: tables_match_def api_runtime_new_def)
next
  case (snoc i h)
  then have IH: "tables_match h (api_run h)" by simp
  have same: "tables_match (h @ [i]) rt" if "tables_match h rt" "\<And>u. phase_step u i (phase h u) = phase h u"
    "\<And>u positions. i \<noteq> Internal (Register u positions)" for rt
    by (rule tables_matchI) (simp_all add: that(2) subscribers_other [OF that(3)] tables_matchD [OF that(1)])
  have keep: "tables_match h (rt\<lparr>rt_transient_streams := a, rt_streams := b\<rparr>)"
    "tables_match h (rt\<lparr>rt_transient_streams := a\<rparr>)" "tables_match h (rt\<lparr>rt_events := e\<rparr>)"
    if "tables_match h rt" for rt a b e
    using that by (simp_all add: tables_match_def)
  show ?case
  proof (cases i)
    case (Internal command)
    then show ?thesis
    proof (cases command)
      case (NewStream u sender)
      with snoc.prems Internal have "phase h u = Absent" using phase_known [of h u] by auto
      with new_stream_matches [OF IH] NewStream Internal show ?thesis by simp
    next
      case (NewTransientStream u sender replied)
      with Internal have "api_run (h @ [i]) = (if replied
          then (api_run h)\<lparr>rt_transient_streams := (rt_transient_streams (api_run h))(u \<mapsto> sender),
            rt_streams := rt_streams (api_run h) @ [u]\<rparr>
          else (api_run h)\<lparr>rt_transient_streams := (rt_transient_streams (api_run h))(u := None),
            rt_streams := rt_streams (api_run h) @ [u]\<rparr>)"
        by (simp add: Let_def)
      moreover have "tables_match (h @ [i]) ((api_run h)\<lparr>rt_transient_streams := a, rt_streams := b\<rparr>)" for a b
        by (rule same [OF keep(1) [OF IH]]) (use Internal NewTransientStream in simp_all)
      ultimately show ?thesis by simp
    qed (use IH Internal register_matches handshaked_matches same keep in \<open>simp_all add: Let_def\<close>)
  qed (use IH termination_matches same in simp_all)
qed

section \<open>Dispatch\<close>

fun phase_sender :: "stream_phase \<Rightarrow> sender" where
  "phase_sender (Opened s) = s"
| "phase_sender (Negotiating s) = s"
| "phase_sender Absent = 0"

definition is_opened :: "stream_phase \<Rightarrow> bool" where
  "is_opened ph \<longleftrightarrow> (\<exists>s. ph = Opened s)"

lemma distinct_pairs:
  "distinct ts \<Longrightarrow> (\<And>t. distinct (f t)) \<Longrightarrow> distinct (concat (map (\<lambda>t. map (Pair t) (f t)) ts))"
  by (induction ts) (auto simp: distinct_map inj_on_def)

lemma dispatch_target_eq:
  assumes "tables_match h rt"
  shows "dispatch_target uiter c positions rt t =
    map (\<lambda>(t, u). (phase_sender (phase h u), PushCertificate c [the (positions t)]))
      (filter (\<lambda>(t, u). positions t \<noteq> None \<and> is_opened (phase h u))
        (map (Pair t) (if subscribers h t = {} then [] else uiter (subscribers h t))))"
proof -
  have "List.map_filter (\<lambda>u. case rt_active_streams rt u of None \<Rightarrow> None
        | Some sender \<Rightarrow> map_option (\<lambda>p. (sender, PushCertificate c [p])) (positions t)) us =
      map (\<lambda>(t, u). (phase_sender (phase h u), PushCertificate c [the (positions t)]))
        (filter (\<lambda>(t, u). positions t \<noteq> None \<and> is_opened (phase h u)) (map (Pair t) us))" for us
    by (induction us)
      (auto simp: List.map_filter_simps tables_matchD [OF assms] is_opened_def split: stream_phase.splits)
  then show ?thesis by (simp add: dispatch_target_def tables_matchD [OF assms])
qed

text \<open>The pairs of a target and a subscribed stream, in the order of the dispatch.\<close>

definition dispatch_pairs ::
  "(subnet_id set \<Rightarrow> subnet_id list) \<Rightarrow> (uuid set \<Rightarrow> uuid list) \<Rightarrow> api_input list \<Rightarrow> certificate \<Rightarrow> (subnet_id \<times> uuid) list" where
  "dispatch_pairs iter uiter h c =
     concat (map (\<lambda>t. map (Pair t) (if subscribers h t = {} then [] else uiter (subscribers h t)))
       (iter (set (target_subnets c))))"

lemma dispatch_pairs_spec:
  assumes "hash_iter_laws iter" and "hash_iter_laws uiter"
  shows "distinct (dispatch_pairs iter uiter h c)"
    and "set (dispatch_pairs iter uiter h c) = {(t, u). t \<in> set (target_subnets c) \<and> u \<in> subscribers h t}"
proof -
  let ?f = "\<lambda>t. if subscribers h t = {} then [] else uiter (subscribers h t)"
  have it: "distinct (iter (set (target_subnets c)))" "set (iter (set (target_subnets c))) = set (target_subnets c)"
    using assms(1) by (simp_all add: hash_iter_laws_def)
  have us: "distinct (?f t)" "set (?f t) = subscribers h t" for t
    using assms(2) finite_subscribers by (simp_all add: hash_iter_laws_def)
  show "distinct (dispatch_pairs iter uiter h c)"
    unfolding dispatch_pairs_def by (rule distinct_pairs [of _ ?f], rule it(1), rule us(1))
  show "set (dispatch_pairs iter uiter h c) = {(t, u). t \<in> set (target_subnets c) \<and> u \<in> subscribers h t}"
    unfolding dispatch_pairs_def using us(2) it(2) by fastforce
qed

lemma dispatch_eq:
  assumes "distinct (new_streams h)"
  shows "snd (dispatch_certificate iter uiter c positions (api_run h)) =
    map (\<lambda>(t, u). (phase_sender (phase h u), PushCertificate c [the (positions t)]))
      (filter (\<lambda>(t, u). positions t \<noteq> None \<and> is_opened (phase h u)) (dispatch_pairs iter uiter h c))"
  unfolding dispatch_certificate_def dispatch_pairs_def snd_conv map_concat filter_concat map_map comp_def
  by (simp only: dispatch_target_eq [OF api_run_matches [OF assms(1)], of uiter c positions, abs_def] cong: map_cong)

text \<open>
  C7: A dispatched certificate is pushed once for every one of its target subnets with a position
  and every stream that registered for the subnet and whose handshake is complete, with the
  position for that subnet, and to no other stream: not to one that ended.
\<close>

theorem dispatch_refines_subscriptions:
  assumes "distinct (new_streams h)" and "hash_iter_laws iter" and "hash_iter_laws uiter"
  shows "mset (snd (dispatch_certificate iter uiter c positions (api_run h))) =
    image_mset (\<lambda>(t, u). (phase_sender (phase h u), PushCertificate c [the (positions t)]))
      (mset_set {(t, u). t \<in> set (target_subnets c) \<and> positions t \<noteq> None \<and> u \<in> subscribers h t \<and> is_opened (phase h u)})"
proof -
  let ?P = "\<lambda>(t, u). positions t \<noteq> None \<and> is_opened (phase h u)"
  note pairs = dispatch_pairs_spec [OF assms(2,3), of h c]
  have "mset (filter ?P (dispatch_pairs iter uiter h c)) = mset_set (set (filter ?P (dispatch_pairs iter uiter h c)))"
    by (rule mset_set_set [symmetric], rule distinct_filter, rule pairs(1))
  moreover have "set (filter ?P (dispatch_pairs iter uiter h c)) =
      {(t, u). t \<in> set (target_subnets c) \<and> positions t \<noteq> None \<and> u \<in> subscribers h t \<and> is_opened (phase h u)}"
    by (auto simp: pairs(2))
  ultimately show ?thesis unfolding dispatch_eq [OF assms(1)] mset_map by simp
qed

section \<open>Catching a client up\<close>

text \<open>Each position is filed under its own target and source.\<close>

definition keyed_positions :: "stream_positions \<Rightarrow> bool" where
  "keyed_positions m \<longleftrightarrow> finite (dom m) \<and> (\<forall>t e. m t = Some e \<longrightarrow> wf_subnet_id t \<and> finite (dom e) \<and>
     (\<forall>u p. e u = Some p \<longrightarrow> wf_subnet_id u \<and> tsp_target_subnet_id p = t \<and> tsp_source_subnet_id p = u))"

definition client_start :: "stream_positions \<Rightarrow> subnet_id \<Rightarrow> subnet_id \<Rightarrow> position" where
  "client_start m t u = (case m t of Some e \<Rightarrow> (case e u of Some p \<Rightarrow> tsp_position p | None \<Rightarrow> 0) | None \<Rightarrow> 0)"

text \<open>The entry of a stream that a client receives, and the command with it.\<close>

definition stream_entry :: "fullnode_view \<Rightarrow> certificate_target_stream_position \<Rightarrow> certificate_delivered \<times> fetch_certificates_position" where
  "stream_entry v p = (the (fv_certificates v (the (fv_target_streams v p))), FetchedTarget p)"

definition push_command :: "certificate_delivered \<times> certificate_target_stream_position \<Rightarrow> stream_command" where
  "push_command x = PushCertificate (cd_certificate (fst x))
     [\<lparr>tsp_target_subnet_id = tgt_target_subnet_id (snd x), tsp_source_subnet_id = tgt_source_subnet_id (snd x),
       tsp_position = tgt_position (snd x), tsp_certificate_id = Some (cert_id (cd_certificate (fst x)))\<rparr>]"

definition for_stream :: "subnet_id \<Rightarrow> subnet_id \<Rightarrow> stream_command \<Rightarrow> bool" where
  "for_stream t u command = (case command of PushCertificate _ positions \<Rightarrow>
     \<exists>p \<in> set positions. tsp_target_subnet_id p = t \<and> tsp_source_subnet_id p = u)"

lemma complete_sources_lookup:
  "complete_sources t sources m u = (if u \<in> set sources \<and> m u = None then Some (start_position t u) else m u)"
  unfolding complete_sources_def by (induction sources arbitrary: m) auto

lemma dom_complete_sources: "dom (complete_sources t sources m) = dom m \<union> set sources"
  by (auto simp: complete_sources_lookup dom_def split: if_splits)

text \<open>What one stream contributes.\<close>

definition stream_batch :: "fullnode_view \<Rightarrow> subnet_id \<Rightarrow> subnet_id \<Rightarrow> position \<Rightarrow> (certificate_delivered \<times> certificate_target_stream_position) list" where
  "stream_batch v t u p = map (\<lambda>q. (the (fv_certificates v (the (fv_target_streams v (target_position t u q)))), target_position t u q))
     (take 100 (filter (\<lambda>q. p \<le> q) (sorted_list_of_set (target_positions v t u))))"

lemma stream_batch_empty: "target_positions v t u = {} \<Longrightarrow> stream_batch v t u p = []"
  by (simp add: stream_batch_def)

lemma fetch_batch:
  assumes "readable_store E s" and "wf_subnet_id t" and "wf_subnet_id u"
  shows "storage_fetch_certificates E (FilterTarget (target_position t u p) 100) s =
    Inr (map (\<lambda>(cd, q). (cd, FetchedTarget q)) (stream_batch (fullnode_view E (vs_fullnode s)) t u p))"
proof -
  have "down_closed (target_positions (fullnode_view E (vs_fullnode s)) t u)"
    using readable_storeD(3) [OF assms(1)] by (simp add: store_consistent_def consistent_targets_def)
  then show ?thesis
    using target_stream_read_skip [OF readable_storeD [OF assms(1)] assms(2,3), of p 100]
    by (simp add: validator_get_target_stream_certificates_from_position_def drop_down_closed stream_batch_def)
qed

definition position_batch :: "fullnode_view \<Rightarrow> target_stream_position \<Rightarrow> (certificate_delivered \<times> certificate_target_stream_position) list"
  where "position_batch v p = stream_batch v (tsp_target_subnet_id p) (tsp_source_subnet_id p) (tsp_position p)"

definition wf_position :: "target_stream_position \<Rightarrow> bool" where
  "wf_position p \<longleftrightarrow> wf_subnet_id (tsp_target_subnet_id p) \<and> wf_subnet_id (tsp_source_subnet_id p)"

abbreviation fetched :: "(certificate_delivered \<times> certificate_target_stream_position) list \<Rightarrow> sync_collector" where
  "fetched \<equiv> map (\<lambda>(cd, q). (cd, FetchedTarget q))"

lemma collect_sources_batches:
  assumes "readable_store E s" and "\<forall>p \<in> set ps. wf_position p"
  shows "\<exists>k'. collect_sources E (\<lambda>_. s) (\<lambda>_. False) k ps collector =
    Some (k', collector @ fetched (concat (map (position_batch (fullnode_view E (vs_fullnode s))) ps)))"
  using assms(2)
proof (induction ps arbitrary: k collector)
  case (Cons p ps)
  have "storage_fetch_certificates E (FilterTarget (target_position (tsp_target_subnet_id p) (tsp_source_subnet_id p)
      (tsp_position p)) 100) s = Inr (fetched (position_batch (fullnode_view E (vs_fullnode s)) p))"
    using Cons.prems fetch_batch [OF assms(1)] by (simp add: wf_position_def position_batch_def)
  moreover obtain k' where "collect_sources E (\<lambda>_. s) (\<lambda>_. False) (Suc k) ps
      (collector @ fetched (position_batch (fullnode_view E (vs_fullnode s)) p)) =
      Some (k', (collector @ fetched (position_batch (fullnode_view E (vs_fullnode s)) p)) @
        fetched (concat (map (position_batch (fullnode_view E (vs_fullnode s))) ps)))"
    using Cons by (metis list.set_intros(2))
  ultimately show ?case by (simp del: storage_fetch_certificates.simps)
qed simp

text \<open>The positions the task reads for one target.\<close>

definition completed :: "('db, 'b) store_env \<Rightarrow> 'db validator_store \<Rightarrow> subnet_id \<Rightarrow> (subnet_id \<rightharpoonup> target_stream_position) \<Rightarrow> (subnet_id \<rightharpoonup> target_stream_position)" where
  "completed E s t source = (case validator_get_target_source_subnet_list E t s of
     Inr sources \<Rightarrow> complete_sources t sources source | Inl _ \<Rightarrow> source)"

lemma completed_spec:
  assumes "readable_store E s" and "wf_subnet_id t" and "finite (dom e)"
    and "\<forall>u p. e u = Some p \<longrightarrow> wf_subnet_id u \<and> tsp_target_subnet_id p = t \<and> tsp_source_subnet_id p = u"
  defines "v \<equiv> fullnode_view E (vs_fullnode s)"
  shows "finite (dom (completed E s t e))"
    and "completed E s t e u = Some p \<Longrightarrow> wf_subnet_id u \<and> tsp_target_subnet_id p = t \<and> tsp_source_subnet_id p = u \<and>
      tsp_position p = (case e u of Some p \<Rightarrow> tsp_position p | None \<Rightarrow> 0)"
    and "completed E s t e u = None \<Longrightarrow> target_positions v t u = {}"
proof -
  obtain sources where sources: "get_target_source_subnet_list E t (vs_fullnode s) = Inr sources"
    "\<forall>u \<in> set sources. wf_subnet_id u"
    "set sources = {u. \<exists>t'. t \<le> t' \<and> fv_source_list_per_target v (t', u) \<noteq> None}"
    using target_source_subnets_exact [OF readable_storeD(1) [OF assms(1)] assms(2)] unfolding v_def by blast
  then have eq: "completed E s t e = complete_sources t sources e"
    by (simp add: completed_def validator_get_target_source_subnet_list_def)
  show "finite (dom (completed E s t e))" using assms(3) by (simp add: eq dom_complete_sources)
  show "wf_subnet_id u \<and> tsp_target_subnet_id p = t \<and> tsp_source_subnet_id p = u \<and>
      tsp_position p = (case e u of Some p \<Rightarrow> tsp_position p | None \<Rightarrow> 0)" if "completed E s t e u = Some p"
    using that sources(2) assms(4)
    by (auto simp: eq complete_sources_lookup start_position_def split: if_splits option.splits)
  show "target_positions v t u = {}" if "completed E s t e u = None"
  proof (rule ccontr)
    assume "target_positions v t u \<noteq> {}"
    then have "fv_source_list_per_target v (t, u) \<noteq> None"
      using readable_storeD(3) [OF assms(1)] unfolding v_def by (simp add: store_consistent_def consistent_targets_def)
    then have "u \<in> set sources" unfolding sources(3) by blast
    with that show False by (simp add: eq complete_sources_lookup split: if_splits)
  qed
qed

definition target_batch ::
  "('db, 'b) store_env \<Rightarrow> (subnet_id set \<Rightarrow> subnet_id list) \<Rightarrow> 'db validator_store \<Rightarrow> subnet_id \<times> (subnet_id \<rightharpoonup> target_stream_position) \<Rightarrow>
   (certificate_delivered \<times> certificate_target_stream_position) list" where
  "target_batch E iter s te = (case te of (t, e) \<Rightarrow>
     concat (map (\<lambda>u. position_batch (fullnode_view E (vs_fullnode s)) (the (completed E s t e u)))
       (iter (dom (completed E s t e)))))"

definition keyed_entry :: "subnet_id \<times> (subnet_id \<rightharpoonup> target_stream_position) \<Rightarrow> bool" where
  "keyed_entry te \<longleftrightarrow> (case te of (t, e) \<Rightarrow> wf_subnet_id t \<and> finite (dom e) \<and>
     (\<forall>u p. e u = Some p \<longrightarrow> wf_subnet_id u \<and> tsp_target_subnet_id p = t \<and> tsp_source_subnet_id p = u))"

lemma completed_keyed:
  assumes "readable_store E s" and "keyed_entry (t, e)"
  shows "finite (dom (completed E s t e))"
    and "completed E s t e u = Some p \<Longrightarrow> wf_subnet_id u \<and> tsp_target_subnet_id p = t \<and> tsp_source_subnet_id p = u \<and>
      tsp_position p = (case e u of Some p \<Rightarrow> tsp_position p | None \<Rightarrow> 0)"
    and "completed E s t e u = None \<Longrightarrow> target_positions (fullnode_view E (vs_fullnode s)) t u = {}"
proof -
  have k: "wf_subnet_id t" "finite (dom e)"
    "\<forall>u p. e u = Some p \<longrightarrow> wf_subnet_id u \<and> tsp_target_subnet_id p = t \<and> tsp_source_subnet_id p = u"
    using assms(2) by (simp_all add: keyed_entry_def)
  note spec = completed_spec [OF assms(1) k]
  show "finite (dom (completed E s t e))" by (fact spec(1))
  show "completed E s t e u = Some p \<Longrightarrow> wf_subnet_id u \<and> tsp_target_subnet_id p = t \<and> tsp_source_subnet_id p = u \<and>
      tsp_position p = (case e u of Some p \<Rightarrow> tsp_position p | None \<Rightarrow> 0)" by (fact spec(2))
  show "completed E s t e u = None \<Longrightarrow> target_positions (fullnode_view E (vs_fullnode s)) t u = {}" by (fact spec(3))
qed

lemma collect_targets_batches:
  assumes "readable_store E s" and "hash_iter_laws iter" and "\<forall>te \<in> set ts. keyed_entry te"
  shows "\<exists>k'. collect_targets E iter (\<lambda>_. s) (\<lambda>_. False) k ts collector =
    Some (k', collector @ fetched (concat (map (target_batch E iter s) ts)))"
  using assms(3)
proof (induction ts arbitrary: k collector)
  case (Cons te ts)
  obtain t e where te: "te = (t, e)" by fastforce
  have keyed: "keyed_entry (t, e)" using Cons.prems te by simp
  let ?c = "completed E s t e"
  have "set (iter (dom ?c)) = dom ?c"
    using assms(2) completed_keyed(1) [OF assms(1) keyed] by (simp add: hash_iter_laws_def)
  then have "\<forall>p \<in> set (map (\<lambda>u. the (?c u)) (iter (dom ?c))). wf_position p"
    using completed_keyed(2) [OF assms(1) keyed] keyed by (fastforce simp: wf_position_def keyed_entry_def)
  from collect_sources_batches [OF assms(1) this, of "Suc k" collector]
  obtain k' where one: "collect_sources E (\<lambda>_. s) (\<lambda>_. False) (Suc k) (map (\<lambda>u. the (?c u)) (iter (dom ?c))) collector =
      Some (k', collector @ fetched (target_batch E iter s te))"
    by (auto simp: target_batch_def te comp_def)
  obtain k'' where "collect_targets E iter (\<lambda>_. s) (\<lambda>_. False) k' ts (collector @ fetched (target_batch E iter s te)) =
      Some (k'', (collector @ fetched (target_batch E iter s te)) @ fetched (concat (map (target_batch E iter s) ts)))"
    using Cons by (metis list.set_intros(2))
  then show ?case using one by (simp add: te completed_def Let_def)
qed simp

lemma push_collected_all:
  "(\<And>n. accepts n) \<Longrightarrow> push_collected accepts n (fetched xs) = (map push_command xs, SyncDone)"
  by (induction xs arbitrary: n) (auto simp: push_command_def)

lemma filter_concat_key:
  assumes "distinct xs" and "\<And>x y. x \<in> set xs \<Longrightarrow> y \<in> set (f x) \<Longrightarrow> P y \<Longrightarrow> x = k"
  shows "filter P (concat (map f xs)) = (if k \<in> set xs then filter P (f k) else [])"
  using assms
proof (induction xs)
  case (Cons x xs)
  have "filter P (f x) = []" if "x \<noteq> k" using Cons.prems(2) [of x] that by (auto simp: filter_empty_conv)
  then show ?case using Cons by auto
qed simp

lemma for_stream_batch:
  "x \<in> set (stream_batch v t' u' p) \<Longrightarrow> for_stream t u (push_command x) \<longleftrightarrow> t = t' \<and> u = u'"
  by (auto simp: stream_batch_def for_stream_def push_command_def)

lemma target_batch_stream:
  assumes "readable_store E s" and "hash_iter_laws iter" and "keyed_entry (t, e)"
  shows "filter (\<lambda>x. for_stream t u (push_command x)) (target_batch E iter s (t, e)) =
    stream_batch (fullnode_view E (vs_fullnode s)) t u (case e u of Some p \<Rightarrow> tsp_position p | None \<Rightarrow> 0)"
proof -
  let ?c = "completed E s t e" and ?v = "fullnode_view E (vs_fullnode s)"
  let ?f = "\<lambda>u. position_batch ?v (the (?c u))"
  note c = completed_keyed [OF assms(1,3)]
  have it: "distinct (iter (dom ?c))" "set (iter (dom ?c)) = dom ?c"
    using assms(2) c(1) by (simp_all add: hash_iter_laws_def)
  have batch: "?f w = stream_batch ?v t w (case e w of Some p \<Rightarrow> tsp_position p | None \<Rightarrow> 0)" if "w \<in> dom ?c" for w
    using that c(2) [of w] by (auto simp: position_batch_def)
  have "filter (\<lambda>x. for_stream t u (push_command x)) (concat (map ?f (iter (dom ?c)))) =
      (if u \<in> set (iter (dom ?c)) then filter (\<lambda>x. for_stream t u (push_command x)) (?f u) else [])"
    by (rule filter_concat_key [OF it(1)]) (use batch for_stream_batch it(2) in fastforce)
  also have "\<dots> = stream_batch ?v t u (case e u of Some p \<Rightarrow> tsp_position p | None \<Rightarrow> 0)"
  proof (cases "u \<in> dom ?c")
    case True
    with batch [OF True] for_stream_batch show ?thesis by (fastforce simp: it(2) intro: filter_True)
  next
    case False
    then have "?c u = None" by (simp add: domIff)
    from stream_batch_empty [OF c(3) [OF this]] False show ?thesis by (simp only: it(2) if_False)
  qed
  finally show ?thesis by (simp add: target_batch_def)
qed

lemma target_batch_target:
  assumes "readable_store E s" and "hash_iter_laws iter" and "keyed_entry (t', e)"
    and "x \<in> set (target_batch E iter s (t', e))" and "for_stream t u (push_command x)"
  shows "t' = t"
proof -
  let ?c = "completed E s t' e"
  note c = completed_keyed [OF assms(1,3)]
  have "set (iter (dom ?c)) = dom ?c" using assms(2) c(1) by (simp add: hash_iter_laws_def)
  with assms(4) obtain w p where "?c w = Some p" "x \<in> set (position_batch (fullnode_view E (vs_fullnode s)) p)"
    by (auto simp: target_batch_def)
  with c(2) for_stream_batch assms(5) show ?thesis by (auto simp: position_batch_def)
qed

lemma sync_task_batches:
  assumes "readable_store E s" and "hash_iter_laws iter" and "keyed_positions (st_positions task)"
  defines "v \<equiv> fullnode_view E (vs_fullnode s)"
  defines "m \<equiv> st_positions task"
  shows "\<exists>commands. sync_task_run E iter (\<lambda>_. s) (\<lambda>_. False) (\<lambda>_. True) task = (commands, st_stream_id task, SyncDone) \<and>
    (\<forall>t u. filter (for_stream t u) commands =
      (if t \<in> dom m then map push_command (stream_batch v t u (client_start m t u)) else []))"
proof -
  let ?es = "map (\<lambda>t. (t, the (m t))) (iter (dom m))"
  let ?xs = "concat (map (target_batch E iter s) ?es)"
  have it: "distinct (iter (dom m))" "set (iter (dom m)) = dom m"
    using assms(2,3) by (simp_all add: hash_iter_laws_def keyed_positions_def m_def)
  have keyed: "keyed_entry (t, the (m t))" if "t \<in> dom m" for t
    using that assms(3) by (auto simp: keyed_positions_def keyed_entry_def m_def)
  obtain k where "collect_targets E iter (\<lambda>_. s) (\<lambda>_. False) 0 ?es [] = Some (k, fetched ?xs)"
    using collect_targets_batches [OF assms(1,2), of ?es 0 "[]"] keyed it(2) by auto
  then have run: "sync_task_run E iter (\<lambda>_. s) (\<lambda>_. False) (\<lambda>_. True) task = (map push_command ?xs, st_stream_id task, SyncDone)"
    by (simp add: sync_task_run_def push_collected_all flip: m_def)
  have "filter (for_stream t u) (map push_command ?xs) =
      (if t \<in> dom m then map push_command (stream_batch v t u (client_start m t u)) else [])" for t u
  proof -
    have "filter (\<lambda>x. for_stream t u (push_command x)) (concat (map (\<lambda>t. target_batch E iter s (t, the (m t))) (iter (dom m)))) =
        (if t \<in> set (iter (dom m)) then filter (\<lambda>x. for_stream t u (push_command x)) (target_batch E iter s (t, the (m t))) else [])"
      by (rule filter_concat_key [OF it(1)]) (use target_batch_target [OF assms(1,2) keyed] it(2) in blast)
    then show ?thesis
      using target_batch_stream [OF assms(1,2) keyed, of t u]
      by (auto simp: filter_map comp_def it(2) client_start_def v_def)
  qed
  with run show ?thesis by blast
qed

section \<open>From a request to the certificates\<close>

lemma listed_lookup: "fold (\<lambda>t m. m(t \<mapsto> Map.empty)) ts m t = (if t \<in> set ts then Some Map.empty else m t)"
  by (induction ts arbitrary: m) auto

lemma apply_positions_keyed:
  assumes "keyed_positions m" and "\<forall>p \<in> set ps. wf_position p"
  shows "keyed_positions (fst (apply_positions u ps m))"
  using assms
proof (induction ps arbitrary: m)
  case (Cons p ps)
  show ?case
  proof (cases "m (tsp_target_subnet_id p)")
    case (Some e)
    then have "keyed_positions (m(tsp_target_subnet_id p \<mapsto> e(tsp_source_subnet_id p \<mapsto> p)))"
      using Cons.prems by (auto simp: keyed_positions_def wf_position_def)
    with Cons Some show ?thesis by simp
  qed (use Cons in simp)
qed simp

lemma handle_checkpoint_keyed:
  assumes "\<forall>t \<in> set (tc_target_subnet_ids checkpoint). wf_subnet_id t" and "\<forall>p \<in> set (tc_positions checkpoint). wf_position p"
  shows "keyed_positions (str_listeners (fst (handle_checkpoint checkpoint st)))"
proof -
  let ?m = "fold (\<lambda>t m. m(t \<mapsto> Map.empty)) (tc_target_subnet_ids checkpoint) Map.empty :: stream_positions"
  have "dom ?m = set (tc_target_subnet_ids checkpoint)" by (auto simp: dom_def listed_lookup)
  then have "keyed_positions ?m" using assms(1) by (auto simp: keyed_positions_def listed_lookup split: if_splits)
  from apply_positions_keyed [OF this assms(2), of "str_id st"] show ?thesis
    by (simp add: handle_checkpoint_def Let_def case_prod_unfold)
qed

lemma apply_positions_dom: "dom (fst (apply_positions u ps m)) = dom m"
proof (induction ps arbitrary: m)
  case (Cons p ps)
  then show ?case by (cases "m (tsp_target_subnet_id p)") (auto split: if_splits)
qed simp

lemma handle_checkpoint_dom:
  "dom (str_listeners (fst (handle_checkpoint checkpoint st))) = set (tc_target_subnet_ids checkpoint)"
proof -
  have "dom (fold (\<lambda>t m. m(t \<mapsto> Map.empty)) (tc_target_subnet_ids checkpoint) Map.empty :: stream_positions) =
      set (tc_target_subnet_ids checkpoint)"
    by (auto simp: dom_def listed_lookup)
  then show ?thesis
    by (simp add: handle_checkpoint_def Let_def case_prod_unfold apply_positions_dom)
qed

lemma handle_checkpoint_id [simp]: "str_id (fst (handle_checkpoint checkpoint st)) = str_id st"
  by (simp add: handle_checkpoint_def Let_def case_prod_unfold)

text \<open>The position of a stream that a checkpoint gives: the last one it has.\<close>

definition checkpoint_position :: "target_checkpoint \<Rightarrow> subnet_id \<Rightarrow> subnet_id \<Rightarrow> position" where
  "checkpoint_position checkpoint t u =
     (case find (\<lambda>p. tsp_target_subnet_id p = t \<and> tsp_source_subnet_id p = u) (rev (tc_positions checkpoint)) of
        Some p \<Rightarrow> tsp_position p | None \<Rightarrow> 0)"

lemma find_append: "find P (xs @ ys) = (case find P xs of None \<Rightarrow> find P ys | Some x \<Rightarrow> Some x)"
  by (induction xs) auto

lemma apply_positions_ok:
  "\<forall>p \<in> set ps. tsp_target_subnet_id p \<in> dom m \<Longrightarrow> snd (apply_positions u ps m) = Inr ()"
  by (induction ps arbitrary: m) (auto split: option.splits)

lemma apply_positions_lookup:
  assumes "\<forall>p \<in> set ps. tsp_target_subnet_id p \<in> dom m" and "t \<in> dom m"
  shows "the (fst (apply_positions u ps m) t) w =
      (case find (\<lambda>p. tsp_target_subnet_id p = t \<and> tsp_source_subnet_id p = w) (rev ps) of
         Some p \<Rightarrow> Some p | None \<Rightarrow> the (m t) w)"
  using assms
proof (induction ps arbitrary: m)
  case (Cons p ps)
  from Cons.prems(1) obtain e where e: "m (tsp_target_subnet_id p) = Some e" by auto
  let ?m = "m(tsp_target_subnet_id p \<mapsto> e(tsp_source_subnet_id p \<mapsto> p))"
  have d: "dom ?m = dom m" using e by auto
  have "the (fst (apply_positions u ps ?m) t) w =
      (case find (\<lambda>p. tsp_target_subnet_id p = t \<and> tsp_source_subnet_id p = w) (rev ps) of
         Some p \<Rightarrow> Some p | None \<Rightarrow> the (?m t) w)"
    by (rule Cons.IH) (use Cons.prems d in auto)
  then show ?case using e by (simp add: find_append split: option.splits)
qed simp

lemma handle_checkpoint_start:
  assumes "\<forall>p \<in> set (tc_positions checkpoint). tsp_target_subnet_id p \<in> set (tc_target_subnet_ids checkpoint)"
    and "t \<in> set (tc_target_subnet_ids checkpoint)"
  shows "client_start (str_listeners (fst (handle_checkpoint checkpoint st))) t u = checkpoint_position checkpoint t u"
proof -
  let ?m = "fold (\<lambda>t m. m(t \<mapsto> Map.empty)) (tc_target_subnet_ids checkpoint) Map.empty :: stream_positions"
  let ?r = "fst (apply_positions (str_id st) (tc_positions checkpoint) ?m)"
  have d: "dom ?m = set (tc_target_subnet_ids checkpoint)" by (auto simp: dom_def listed_lookup)
  then obtain e where e: "?r t = Some e" using apply_positions_dom [of "str_id st" "tc_positions checkpoint" ?m] assms(2) by blast
  have "e u = find (\<lambda>p. tsp_target_subnet_id p = t \<and> tsp_source_subnet_id p = u) (rev (tc_positions checkpoint))"
    using apply_positions_lookup [of "tc_positions checkpoint" ?m t "str_id st" u] assms d e
    by (simp add: listed_lookup split: option.splits)
  then show ?thesis
    by (simp add: handle_checkpoint_def Let_def case_prod_unfold client_start_def e checkpoint_position_def)
qed

text \<open>
  C11: A client that opens a stream is caught up from its checkpoint. Without a failure, the task
  that its registration starts pushes for every target subnet of the checkpoint and every source
  subnet the certificates of that stream from the position the checkpoint has for it, or from the
  start when it has none, in the order of the stream and up to a hundred of them, each with its
  position, and it ends as done; for a subnet the checkpoint does not name it pushes nothing.
\<close>

theorem sync_task_catches_up:
  fixes u :: uuid and notifier token :: nat
  assumes "readable_store E s" and "hash_iter_laws iter" and "wf_target_checkpoint checkpoint"
    and "\<forall>p \<in> set (tc_positions checkpoint). tsp_target_subnet_id p \<in> set (tc_target_subnet_ids checkpoint)"
  defines "v \<equiv> fullnode_view E (vs_fullnode s)"
  defines "task \<equiv> sync_task_new u (str_listeners (fst (handle_checkpoint checkpoint (stream_new u)))) notifier token"
  shows "\<exists>commands. sync_task_run E iter (\<lambda>_. s) (\<lambda>_. False) (\<lambda>_. True) task = (commands, u, SyncDone) \<and>
    (\<forall>t w. filter (for_stream t w) commands =
      (if t \<in> set (tc_target_subnet_ids checkpoint)
       then map push_command (stream_batch v t w (checkpoint_position checkpoint t w)) else []))"
proof -
  let ?m = "str_listeners (fst (handle_checkpoint checkpoint (stream_new u)))"
  have pos: "st_positions task = ?m" "st_stream_id task = u" by (simp_all add: task_def sync_task_new_def)
  have "keyed_positions (st_positions task)"
    using assms(3) unfolding pos
    by (intro handle_checkpoint_keyed) (auto simp: wf_target_checkpoint_def wf_target_stream_position_def wf_position_def)
  from sync_task_batches [OF assms(1,2) this] show ?thesis
    unfolding pos v_def [symmetric] handle_checkpoint_dom using handle_checkpoint_start [OF assms(4)] by (metis (lifting))
qed

section \<open>From a delivery to the client\<close>

fun ends_stream :: "uuid \<Rightarrow> api_input \<Rightarrow> bool" where
  "ends_stream u (StreamEnded (Inr v)) = (v = u)"
| "ends_stream u (StreamEnded (Inl e)) = (se_stream_id e = u)"
| "ends_stream u _ = False"

lemma phase_append_list: "phase (h @ h') u = fold (phase_step u) h' (phase h u)"
  by (simp add: phase_def)

lemma new_streams_mem: "u \<in> set (new_streams h) \<longleftrightarrow> (\<exists>sender. Internal (NewStream u sender) \<in> set h)"
  by (induction h rule: rev_induct)
    (auto simp: new_streams_def List.map_filter_simps List.map_filter_def split: api_input.splits internal_command.splits)

lemma new_streams_append_list: "new_streams (h @ h') = new_streams h @ new_streams h'"
  by (simp add: new_streams_def List.map_filter_def)

lemma phase_live:
  assumes "\<forall>i \<in> set h. \<not> ends_stream u i" and "u \<notin> set (new_streams h)"
  shows "fold (phase_step u) h (Opened s) = Opened s"
    and "fold (phase_step u) h (Negotiating s) \<in> {Negotiating s, Opened s}"
proof -
  have step: "phase_step u i (Opened s) = Opened s" "phase_step u i (Negotiating s) \<in> {Negotiating s, Opened s}"
    if "i \<in> set h" for i
  proof -
    have "\<not> ends_stream u i" "\<And>x. i \<noteq> Internal (NewStream u x)"
      using that assms by (auto simp: new_streams_mem)
    then show "phase_step u i (Opened s) = Opened s" "phase_step u i (Negotiating s) \<in> {Negotiating s, Opened s}"
      by (cases "(u, i, Absent)" rule: phase_step.cases; auto)+
  qed
  have "set g \<subseteq> set h \<Longrightarrow> fold (phase_step u) g (Opened s) = Opened s \<and> fold (phase_step u) g (Negotiating s) \<in> {Negotiating s, Opened s}" for g
  proof (induction g)
    case (Cons i g)
    then show ?case using step [of i] by auto
  qed simp
  then show "fold (phase_step u) h (Opened s) = Opened s" "fold (phase_step u) h (Negotiating s) \<in> {Negotiating s, Opened s}"
    by blast+
qed

lemma subscribersI:
  "phase before u \<noteq> Absent \<Longrightarrow> t \<in> dom positions \<Longrightarrow> u \<in> subscribers (before @ Internal (Register u positions) # after) t"
  by (auto simp: subscribers_def)

text \<open>
  The history of a stream that was opened, registered and handshaked, with anything in between
  that neither ends the stream nor opens one with its identifier.
\<close>

definition watching_history ::
  "uuid \<Rightarrow> sender \<Rightarrow> stream_positions \<Rightarrow> api_input list \<times> api_input list \<times> api_input list \<times> api_input list \<Rightarrow> api_input list" where
  "watching_history u sender listeners hs = (case hs of (h, h1, h2, h3) \<Rightarrow>
     h @ [Internal (NewStream u sender)] @ h1 @ [Internal (Register u listeners)] @ h2 @ [Internal (Handshaked u)] @ h3)"

lemma watching:
  assumes "\<forall>i \<in> set h1 \<union> set h2 \<union> set h3. \<not> ends_stream u i"
    and "distinct (new_streams (watching_history u sender listeners (h, h1, h2, h3)))"
  shows "phase (watching_history u sender listeners (h, h1, h2, h3)) u = Opened sender"
    and "t \<in> dom listeners \<Longrightarrow> u \<in> subscribers (watching_history u sender listeners (h, h1, h2, h3)) t"
proof -
  have "new_streams [Internal (NewStream u sender)] = [u]" by (simp add: new_streams_def List.map_filter_simps)
  then have fresh: "u \<notin> set (new_streams h1)" "u \<notin> set (new_streams h2)" "u \<notin> set (new_streams h3)"
    using assms(2) unfolding watching_history_def prod.case new_streams_append_list by auto
  let ?a = "h @ [Internal (NewStream u sender)] @ h1"
  let ?b = "?a @ Internal (Register u listeners) # h2"
  have a: "phase ?a u \<in> {Negotiating sender, Opened sender}"
    using phase_live(2) [of h1 u sender] fresh assms(1) by (simp add: phase_append_list)
  then have "phase ?b u \<in> {Negotiating sender, Opened sender}"
    using phase_live [of h2 u sender] fresh assms(1) by (auto simp: phase_append_list)
  then have "phase (?b @ [Internal (Handshaked u)]) u = Opened sender" unfolding phase_append by auto
  then show "phase (watching_history u sender listeners (h, h1, h2, h3)) u = Opened sender"
    using phase_live(1) [of h3 u sender] fresh assms(1)
    by (simp add: watching_history_def phase_append_list)
  show "u \<in> subscribers (watching_history u sender listeners (h, h1, h2, h3)) t" if "t \<in> dom listeners"
    using subscribersI [OF _ that, of ?a u "h2 @ [Internal (Handshaked u)] @ h3"] a
    by (auto simp: watching_history_def)
qed

lemma pushed_event_received:
  assumes "wf_certificate c" and "wf_target_stream_position p"
  shows "inbound_response H (Inr (Some (outbound_event (OutCertificatePushed c [p])))) = Inr (Some (c, p), [])"
  using assms certificate_round_trip [OF assms(1), of H]
  by (simp add: inbound_response_def target_stream_position_from_proto_Inr_iff [THEN iffD2])

lemma open_stream_parsed:
  assumes "wf_target_checkpoint checkpoint"
  shows "parse_stream (Inr (rid, Some (Some (target_checkpoint_to_proto checkpoint)))) u =
    Inr (map_option uuid_from_proto rid, InOpenStream checkpoint)"
  using assms target_checkpoint_from_proto_Inr_iff [of "target_checkpoint_to_proto checkpoint" checkpoint]
  by (simp add: parse_stream_def open_stream_from_proto_def)

lemma handshake_commands:
  assumes "env_inbound e = Some (Inr (Some (rid, InOpenStream checkpoint)))" and "env_registered e"
    and "env_reply e = Some (Inr ())" and "env_handshaked e"
  shows "fst (stream_run iter e st) =
    [Register (str_id st) (str_listeners (fst (handle_checkpoint checkpoint st))), Handshaked (str_id st)]"
  using assms by (simp add: stream_run_def pre_start_def handshake_def Let_def case_prod_unfold)

text \<open>
  C9: From the request of a sequencer to the certificates it receives. The request of its client
  is parsed into the checkpoint it asked for; the stream then registers for its subnet and reports
  the handshake; from then on, whatever else the interface handles, a certificate for the subnet
  that the node dispatches is pushed to the stream until the stream ends, the stream forwards it,
  and the client decodes the same certificate and the same position from the message.
\<close>

theorem watched_certificate_received:
  fixes u :: uuid and channel :: sender
  assumes "wf_target_checkpoint \<lparr>tc_target_subnet_ids = [subnet], tc_positions = positions\<rparr>"
    and "client_request (client_open_stream subnet positions) = Some (OpenStreamRequest request)"
    and "\<forall>i \<in> set h1 \<union> set h2 \<union> set h3. \<not> ends_stream u i"
    and "distinct (new_streams (watching_history u channel listeners (h, h1, h2, h3)))"
    and "listeners = str_listeners (fst (handle_checkpoint \<lparr>tc_target_subnet_ids = [subnet], tc_positions = positions\<rparr> (stream_new u)))"
    and "wf_certificate c" and "subnet \<in> set (target_subnets c)"
    and "ps subnet = Some p" and "wf_target_stream_position p"
    and "hash_iter_laws iter" and "hash_iter_laws uiter"
  shows "\<exists>message. parse_stream (Inr (None, Some request)) u = Inr message \<and>
    (\<forall>e. env_inbound e = Some (Inr (Some message)) \<and> env_registered e \<and> env_reply e = Some (Inr ()) \<and> env_handshaked e \<longrightarrow>
      fst (stream_run iter e (stream_new u)) = [Register u listeners, Handshaked u]) \<and>
    (channel, PushCertificate c [p]) \<in>
      set (snd (dispatch_certificate iter uiter c ps (api_run (watching_history u channel listeners (h, h1, h2, h3))))) \<and>
    stream_handle_command (PushCertificate c [p]) True (stream_new u) = ([(None, OutCertificatePushed c [p])], Inr False) \<and>
    inbound_response H (Inr (Some (outbound_event (OutCertificatePushed c [p])))) = Inr (Some (c, p), [])"
proof -
  let ?checkpoint = "\<lparr>tc_target_subnet_ids = [subnet], tc_positions = positions\<rparr>"
  let ?h = "watching_history u channel listeners (h, h1, h2, h3)"
  have "request = Some (target_checkpoint_to_proto ?checkpoint)" using assms(2) by (simp add: client_open_stream_def)
  with open_stream_parsed [OF assms(1), of None u]
  have parsed: "parse_stream (Inr (None, Some request)) u = Inr (None, InOpenStream ?checkpoint)" by simp
  have run: "fst (stream_run iter e (stream_new u)) = [Register u listeners, Handshaked u]"
    if "env_inbound e = Some (Inr (Some (None, InOpenStream ?checkpoint))) \<and> env_registered e \<and> env_reply e = Some (Inr ()) \<and> env_handshaked e" for e
    using handshake_commands [of e None ?checkpoint iter "stream_new u"] that assms(5) by (simp add: stream_new_def)
  have "subnet \<in> dom listeners" using handle_checkpoint_dom [of ?checkpoint "stream_new u"] assms(5) by simp
  note watch = watching [OF assms(3,4)] this
  have "(subnet, u) \<in> set (filter (\<lambda>(t, u). ps t \<noteq> None \<and> is_opened (phase ?h u)) (dispatch_pairs iter uiter ?h c))"
    using watch(1,2) watch(3) assms(7,8) dispatch_pairs_spec(2) [OF assms(10,11), of ?h c] by (auto simp: is_opened_def)
  then have "(channel, PushCertificate c [p]) \<in> set (snd (dispatch_certificate iter uiter c ps (api_run ?h)))"
    unfolding dispatch_eq [OF assms(4)] set_map using watch(1) assms(8) by (force intro: rev_image_eqI)
  then show ?thesis
    using parsed run pushed_event_received [OF assms(6,9), of H] by (intro exI [of _ "(None, InOpenStream ?checkpoint)"]) simp
qed

end
