(* ===== verification/Grpc_Service.thy ===== *)
theory Grpc_Service
  imports Tce_Api_Runtime
begin

text \<open>
  The calls a node answers over gRPC (\<^verbatim>\<open>topos-tce-api/src/grpc/mod.rs\<close>). A call returns the commands
  it sends to the runtime and its response; \<open>taken\<close> says whether the runtime still takes commands, and
  \<open>reply\<close> is the answer to the command, \<open>None\<close> when its sender was dropped. The text of a status keeps
  the fixed part of the format string. \<open>base64_encode\<close> stands for the \<^verbatim>\<open>base64ct\<close> crate.
\<close>

section \<open>The calls\<close>

definition grpc_submit_certificate ::
  "hex \<Rightarrow> proto_certificate option \<Rightarrow> bool \<Rightarrow> (api_error + 'r) option \<Rightarrow>
   internal_command list \<times> (grpc_status failure + unit)" where
  "grpc_submit_certificate H request taken reply =
     (case request of
        None \<Rightarrow> ([], Inl (Failed (InvalidArgument ''Certificate is malformed'')))
      | Some p \<Rightarrow>
          if pc_id p = None then ([], Inl (Failed (InvalidArgument ''Certificate is malformed'')))
          else (case certificate_from_proto H p of
              Inl Panic \<Rightarrow> ([], Inl Panic)
            | Inl (Failed _) \<Rightarrow> ([], Inl (Failed (InvalidArgument ''Can't submit invalid certificate'')))
            | Inr certificate \<Rightarrow>
                if \<not> taken then ([], Inl (Failed (InternalStatus ''Can't submit certificate: sender dropped'')))
                else ([CertificateSubmitted certificate],
                  case reply of
                    Some (Inr _) \<Rightarrow> Inr ()
                  | _ \<Rightarrow> Inl (Failed (InternalStatus ''Can't submit certificate'')))))"

definition source_head_response ::
  "(u64 \<times> certificate) option \<Rightarrow> proto_source_stream_position option \<times> proto_certificate option" where
  "source_head_response response =
     (case response of
        Some (position, certificate) \<Rightarrow>
          (Some \<lparr>psp_source_subnet_id = Some (subnet_id_to_proto (source_subnet_id certificate)), psp_position = position,
             psp_certificate_id = Some (ProtoCertificateId (cid_array (cert_id certificate)))\<rparr>,
           Some (certificate_to_proto certificate))
      | None \<Rightarrow> (None, None))"

definition grpc_get_source_head ::
  "proto_subnet_id option \<Rightarrow> bool \<Rightarrow> (api_error + (u64 \<times> certificate) option) option \<Rightarrow>
   internal_command list \<times> (grpc_status + proto_source_stream_position option \<times> proto_certificate option)" where
  "grpc_get_source_head request taken reply =
     (case request of
        None \<Rightarrow> ([], Inl (InvalidArgument ''Certificate is malformed''))
      | Some p \<Rightarrow>
          (case subnet_id_from_proto p of
             Inl _ \<Rightarrow> ([], Inl (InvalidArgument ''Invalid subnet id''))
           | Inr subnet \<Rightarrow>
               if \<not> taken
               then ([], Inl (InternalStatus ''Can't get delivered certificate position by source: sender dropped''))
               else ([InternalGetSourceHead subnet],
                 case reply of
                   Some (Inr response) \<Rightarrow> Inr (source_head_response response)
                 | Some (Inl (UnknownSubnet _)) \<Rightarrow>
                     Inl (InternalStatus ''Unknown subnet, no genesis certificate associated with subnet id'')
                 | _ \<Rightarrow> Inl (InternalStatus ''Can't get source head certificate position''))))"

definition last_pending_message :: "(bytes \<Rightarrow> utf8) \<Rightarrow> subnet_id \<Rightarrow> u64 \<times> certificate option \<Rightarrow> last_pending_entry" where
  "last_pending_message base64_encode subnet entry =
     (base64_encode (sid_array subnet),
      case entry of
        (index, Some certificate) \<Rightarrow> (Some (certificate_to_proto certificate), index)
      | (_, None) \<Rightarrow> (None, 0))"

text \<open>\<open>None\<close> is the call that does not return, see \<open>follow_precedence\<close>.\<close>

definition grpc_get_last_pending_certificates ::
  "(bytes \<Rightarrow> utf8) \<Rightarrow> (subnet_id set \<Rightarrow> subnet_id list) \<Rightarrow> ('db, 'b) store_env \<Rightarrow> proto_subnet_id list \<Rightarrow>
   'db validator_store \<Rightarrow> (grpc_status + last_pending_entry list) option" where
  "grpc_get_last_pending_certificates base64_encode iter E request s =
     (case collect_results (map subnet_id_from_proto request) of
        Inl _ \<Rightarrow> Some (Inl (InternalStatus ''Invalid subnet id''))
      | Inr subnets \<Rightarrow>
          (case get_pending_certificates_for_subnets E subnets s of
             None \<Rightarrow> None
           | Some (Inl _) \<Rightarrow> Some (Inl (InternalStatus ''Can't get last pending certificates''))
           | Some (Inr m) \<Rightarrow>
               Some (Inr (map (\<lambda>u. last_pending_message base64_encode u (the (m u))) (iter (dom m))))))"

text \<open>The stream with the identifier \<open>u\<close> that is handed to the runtime.\<close>

definition grpc_watch_certificates ::
  "uuid \<Rightarrow> sender \<Rightarrow> bool \<Rightarrow> internal_command list \<times> (grpc_status + api_stream)" where
  "grpc_watch_certificates u command_sender taken =
     (if taken then ([NewStream u command_sender], Inr (stream_new u))
      else ([], Inl (InternalStatus ''Can't submit certificate: sender dropped'')))"

section \<open>Pending certificates\<close>

lemma pending_for_subnets_dom:
  "pending_for_subnets E pending subnets items m = Some (Inr m') \<Longrightarrow> set subnets \<subseteq> dom m \<Longrightarrow> dom m' = dom m"
proof (induction items arbitrary: m)
  case (Cons item items)
  obtain i c where item: "item = (i, c)" by (cases item)
  show ?case
  proof (cases "source_subnet_id c \<in> set subnets")
    case True
    then obtain e where e: "pending_for_subnets E pending subnets items (m(source_subnet_id c \<mapsto> e)) = Some (Inr m')"
      using Cons.prems(1) by (auto simp: item Let_def split: option.splits sum.splits prod.splits)
    have eq: "dom (m(source_subnet_id c \<mapsto> e)) = dom m" using True Cons.prems(2) by auto
    show ?thesis using Cons.IH [OF e] Cons.prems(2) unfolding eq by simp
  qed (use Cons in \<open>simp add: item\<close>)
qed simp

lemma collect_results_Inr: "collect_results (map (\<lambda>x. Inr (f x)) xs) = Inr (map f xs)"
  by (induction xs) simp_all

lemma get_pending_for_subnets_dom:
  "get_pending_certificates_for_subnets E subnets s = Some (Inr m) \<Longrightarrow> dom m = set subnets"
  using pending_for_subnets_dom [of E "vs_pending s" subnets _ "\<lambda>u. if u \<in> set subnets then Some (0, None) else None" m]
  by (auto simp: get_pending_certificates_for_subnets_def dom_def split: sum.splits)

lemma map_of_rev_keys:
  assumes "distinct us" shows "map_of (rev (map (\<lambda>u. (u, f u)) us)) = (\<lambda>u. if u \<in> set us then Some (f u) else None)"
proof -
  have "map_of (rev (map (\<lambda>u. (u, f u)) us)) = map_of (map (\<lambda>u. (u, f u)) (rev us))" by (simp add: rev_map)
  then show ?thesis by (auto simp: map_of_map_restrict restrict_map_def)
qed

lemma last_pending_entry_message:
  assumes "base64_decode (base64_encode (sid_array u)) = Some (sid_array u)" and "wf_subnet_id u"
    and "\<forall>c. snd e = Some c \<longrightarrow> wf_certificate c"
  shows "last_pending_entry base64_decode H (last_pending_message base64_encode u e) =
    Inr (u, map_option (\<lambda>c. (c, fst e)) (snd e))"
proof -
  have "subnet_id_try_from (sid_array u) = Inr u" using assms(2) by (simp add: result_simps)
  with assms(1,3) show ?thesis
    by (cases e) (auto simp: last_pending_entry_def last_pending_message_def certificate_round_trip split: option.split)
qed

text \<open>
  C39: The pending certificates of a sequencer's subnets, from the store of the node to the sequencer:
  the answer to the request of the client, decoded by the client, is for each subnet of the request
  the last pending certificate that the store finds, with its number, and nothing for a subnet without
  one.
\<close>

theorem pending_answer_reaches_sequencer:
  assumes "client_request (GetLastPendingCertificates subnets) = Some (GetLastPendingCertificatesRequest request)"
    and "\<forall>u \<in> set subnets. wf_subnet_id u" and "hash_iter_laws iter"
    and "\<forall>b. base64_decode (base64_encode b) = Some b"
    and "get_pending_certificates_for_subnets E subnets s = Some (Inr m)"
    and "\<forall>u n c. m u = Some (n, Some c) \<longrightarrow> wf_certificate c"
  shows "\<exists>entries. grpc_get_last_pending_certificates base64_encode iter E request s = Some (Inr entries) \<and>
    client_get_last_pending_certificates base64_decode H own (Inr entries) =
      Replied (Inr (\<lambda>u. map_option (\<lambda>(n, c). map_option (\<lambda>c. (c, n)) c) (m u)))"
proof -
  let ?us = "iter (dom m)" and ?f = "\<lambda>u. map_option (\<lambda>c. (c, fst (the (m u)))) (snd (the (m u)))"
  let ?entries = "map (\<lambda>u. last_pending_message base64_encode u (the (m u))) ?us"
  have dom: "dom m = set subnets" by (rule get_pending_for_subnets_dom [OF assms(5)])
  then have us: "distinct ?us" "set ?us = set subnets" using assms(3) by (simp_all add: hash_iter_laws_def)
  have request: "collect_results (map subnet_id_from_proto request) = Inr subnets"
    using assms(1) collect_subnets_to_proto [OF assms(2)] by auto
  have "last_pending_entry base64_decode H (last_pending_message base64_encode u (the (m u))) = Inr (u, ?f u)"
    if "u \<in> set ?us" for u
  proof (rule last_pending_entry_message)
    have u: "u \<in> dom m" using that us(2) dom by simp
    then show "wf_subnet_id u" using assms(2) dom by blast
    show "\<forall>c. snd (the (m u)) = Some c \<longrightarrow> wf_certificate c"
      using u assms(6) by (metis domIff option.collapse prod.collapse)
  qed (simp add: assms(4))
  then have "map (last_pending_entry base64_decode H) ?entries = map (\<lambda>u. Inr (u, ?f u)) ?us" by simp
  also have "collect_results \<dots> = Inr (map (\<lambda>u. (u, ?f u)) ?us)" by (rule collect_results_Inr)
  finally have "client_get_last_pending_certificates base64_decode H own (Inr ?entries) =
      Replied (Inr (map_of (rev (map (\<lambda>u. (u, ?f u)) ?us))))"
    by (simp add: client_get_last_pending_certificates_def)
  also have "map_of (rev (map (\<lambda>u. (u, ?f u)) ?us)) = (\<lambda>u. map_option (\<lambda>(n, c). map_option (\<lambda>c. (c, n)) c) (m u))"
    unfolding map_of_rev_keys [OF us(1)] us(2) dom [symmetric] by (auto simp: fun_eq_iff split: option.split prod.split)
  finally show ?thesis by (simp add: grpc_get_last_pending_certificates_def request assms(5))
qed

end
