(* ===== verification/Gatekeeper.thy ===== *)
theory Gatekeeper
  imports Uci "HOL-Library.Multiset"
begin

text \<open>
  The crate \<^verbatim>\<open>topos-tce-gatekeeper\<close>: the peers a node knows and the choice of random ones, which
  the synchroniser asks for. \<open>shuffle\<close> stands for \<^verbatim>\<open>SliceRandom::shuffle\<close>, which permutes the
  slice; a peer id is an element of the type \<open>'p\<close>.
\<close>

record 'p gatekeeper =
  peer_list :: "'p list"
  subnet_list :: "subnet_id list"

datatype gatekeeper_error = GkCommunicationChannel | GkResponseChannel | GkInvalidCommand nat nat | GkShutdownCommunication | GkNoUpdate

datatype gatekeeper_command = GetAllPeers | GetRandomPeers nat | GetAllSubnets

datatype 'p gatekeeper_response =
    PeersResponse "gatekeeper_error + 'p list"
  | SubnetsResponse "gatekeeper_error + subnet_id list"

definition gatekeeper_build :: "'p list option \<Rightarrow> 'p gatekeeper" where
  "gatekeeper_build peers = \<lparr>peer_list = (case peers of Some ps \<Rightarrow> ps | None \<Rightarrow> []), subnet_list = []\<rparr>"

definition shuffle_laws :: "(u32 list \<Rightarrow> u32 list) \<Rightarrow> bool" where
  "shuffle_laws shuffle \<longleftrightarrow> (\<forall>xs. mset (shuffle xs) = mset xs)"

text \<open>The length of the peer list is cast to \<open>u32\<close> before the range of indices is built.\<close>

definition handle_get_all_peers :: "'p gatekeeper \<Rightarrow> gatekeeper_error + 'p list" where
  "handle_get_all_peers g = Inr (peer_list g)"

definition handle_get_all_subnets :: "'p gatekeeper \<Rightarrow> gatekeeper_error + subnet_id list" where
  "handle_get_all_subnets g = Inr (subnet_list g)"

definition get_random_peers ::
  "(u32 list \<Rightarrow> u32 list) \<Rightarrow> nat \<Rightarrow> 'p gatekeeper \<Rightarrow> gatekeeper_error + 'p list" where
  "get_random_peers shuffle number g =
     (let peer_list_len = length (peer_list g) in
      if peer_list_len < number then Inl (GkInvalidCommand number peer_list_len)
      else
        (let range = shuffle (map of_nat [0..<unat (of_nat peer_list_len :: u32)]);
             get = (\<lambda>i. if i < peer_list_len then Some (peer_list g ! i) else None) in
         Inr (List.map_filter (\<lambda>index. get (unat index)) (take number range))))"

fun gatekeeper_handle ::
  "(u32 list \<Rightarrow> u32 list) \<Rightarrow> gatekeeper_command \<Rightarrow> 'p gatekeeper \<Rightarrow> 'p gatekeeper_response" where
  "gatekeeper_handle shuffle GetAllPeers g = PeersResponse (handle_get_all_peers g)"
| "gatekeeper_handle shuffle (GetRandomPeers number) g = PeersResponse (get_random_peers shuffle number g)"
| "gatekeeper_handle shuffle GetAllSubnets g = SubnetsResponse (handle_get_all_subnets g)"

lemma map_filter_nth_in_range:
  assumes "\<forall>i \<in> set is. i < length xs"
  shows "List.map_filter (\<lambda>i. if i < length xs then Some (xs ! i) else None) is = map (nth xs) is"
  using assms by (induction "is") (simp_all add: List.map_filter_simps)

text \<open>
  Asking for random peers returns as many peers as asked for, at distinct places of the
  peer list, as long as the list has that many and its length fits into 32 bits; asking for more
  is an error.
\<close>

lemma random_peers_distinct:
  assumes "shuffle_laws shuffle" and "length (peer_list g) < 2 ^ 32"
  shows "if number \<le> length (peer_list g)
    then \<exists>is. length is = number \<and> distinct is \<and> (\<forall>i \<in> set is. i < length (peer_list g)) \<and>
      get_random_peers shuffle number g = Inr (map (nth (peer_list g)) is)
    else get_random_peers shuffle number g = Inl (GkInvalidCommand number (length (peer_list g)))"
proof -
  let ?n = "length (peer_list g)"
  let ?range = "shuffle (map of_nat [0..<?n])"
  let ?is = "map unat (take number ?range)"
  have cast: "unat (of_nat ?n :: u32) = ?n" using assms(2) by (simp add: unat_of_nat)
  have m: "mset ?range = mset (map of_nat [0..<?n])" using assms(1) by (simp add: shuffle_laws_def)
  have "mset (map unat ?range) = mset [0..<?n]"
  proof -
    have "map (\<lambda>i. unat (of_nat i :: u32)) [0..<?n] = map (\<lambda>i. i) [0..<?n]"
      using assms(2) by (intro map_cong) (simp_all add: unat_of_nat)
    moreover have "mset (map unat ?range) = image_mset unat (mset (map of_nat [0..<?n] :: u32 list))"
      using m by simp
    ultimately show ?thesis by (simp only: mset_map [symmetric] map_map comp_def list.map_ident)
  qed
  then have range: "distinct (map unat ?range)" "set (map unat ?range) = {0..<?n}" "length ?range = ?n"
    by (metis distinct_upt mset_eq_imp_distinct_iff, metis mset_eq_setD set_upt, metis length_map mset_eq_length length_upt diff_zero)
  have inr: "\<forall>i \<in> set ?is. i < ?n" using range(2) by (auto dest!: in_set_takeD)
  have "distinct ?is" using range(1) by (simp only: take_map [symmetric] distinct_take)
  moreover have "get_random_peers shuffle number g = Inr (map (nth (peer_list g)) ?is)" if "number \<le> ?n"
  proof -
    have "List.map_filter (\<lambda>i. if unat i < ?n then Some (peer_list g ! unat i) else None) xs =
        List.map_filter (\<lambda>i. if i < ?n then Some (peer_list g ! i) else None) (map unat xs)" for xs :: "u32 list"
      by (induction xs) (simp_all add: List.map_filter_simps)
    then show ?thesis
      using that map_filter_nth_in_range [OF inr] by (simp add: get_random_peers_def Let_def cast)
  qed
  ultimately show ?thesis
    using inr range(3) by (auto simp: get_random_peers_def intro!: exI [of _ ?is])
qed

lemma random_peers_distinct_witness:
  "\<exists>is. length is = 2 \<and> distinct is \<and> (\<forall>i \<in> set is. i < length (peer_list (gatekeeper_build (Some [7, 8, 9 :: nat])))) \<and>
     get_random_peers rev 2 (gatekeeper_build (Some [7, 8, 9 :: nat])) =
       Inr (map (nth (peer_list (gatekeeper_build (Some [7, 8, 9])))) is)"
proof -
  have "shuffle_laws rev" by (simp add: shuffle_laws_def)
  from random_peers_distinct [OF this, of "gatekeeper_build (Some [7, 8, 9 :: nat])" 2] show ?thesis
    by (simp add: gatekeeper_build_def)
qed

end
