(* ===== verification/Synchronizer.thy ===== *)
theory Synchronizer
  imports Gatekeeper Tce_Api
begin

text \<open>
  The synchronisation of a node with its peers (\<^verbatim>\<open>topos-tce-synchronizer\<close>): the service that answers
  the requests of other nodes (\<^verbatim>\<open>lib.rs\<close>) and the collector that asks a random peer for what the node
  misses (\<^verbatim>\<open>checkpoints_collector/mod.rs\<close>). The network is an argument: what a peer answers to a
  request. \<open>shuffle k\<close> is the random choice of the call \<open>k\<close> of the gatekeeper and \<open>ids k\<close> the
  identifier of the request \<open>k\<close>.
\<close>

section \<open>Messages\<close>

record proto_checkpoint_request =
  pcr_request_id :: "proto_uuid option"
  pcr_checkpoint :: "proto_proof_of_delivery list"

record proto_checkpoint_entry =
  pce_key :: utf8
  pce_value :: "proto_proof_of_delivery list"

record proto_checkpoint_response =
  pcp_request_id :: "proto_uuid option"
  pcp_checkpoint_diff :: "proto_checkpoint_entry list"

record proto_fetch_request =
  pfr_request_id :: "proto_uuid option"
  pfr_certificates :: "proto_certificate_id list"

record proto_fetch_response =
  pfp_request_id :: "proto_uuid option"
  pfp_certificates :: "proto_certificate list"

section \<open>The service\<close>

definition service_fetch_certificates ::
  "('db, 'b) store_env \<Rightarrow> 'db validator_store \<Rightarrow> proto_fetch_request \<Rightarrow> grpc_status + proto_fetch_response" where
  "service_fetch_certificates E s request =
     and_then (map_err (\<lambda>_. InvalidArgument ''Unable to parse certificates'')
       (collect_results (map certificate_id_from_proto (pfr_certificates request)))) (\<lambda>certificate_ids.
     Inr \<lparr>pfp_request_id = pfr_request_id request,
          pfp_certificates = (case validator_get_certificates E certificate_ids s of
             Inr certs \<Rightarrow> List.map_filter (map_option (\<lambda>cd. certificate_to_proto (cd_certificate cd))) certs
           | Inl _ \<Rightarrow> [])\<rparr>)"

definition diff_proof :: "proof_of_delivery \<Rightarrow> proto_proof_of_delivery" where
  "diff_proof v =
     \<lparr>ppod_delivery_position = Some
        \<lparr>psp_source_subnet_id = Some (subnet_id_to_proto (src_subnet_id (delivery_position v))),
         psp_position = src_position (delivery_position v),
         psp_certificate_id = Some (certificate_id_to_proto (pod_certificate_id v))\<rparr>,
      ppod_readies = map (\<lambda>(ready, signature). \<lparr>sr_ready = ready, sr_signature = signature\<rparr>) (pod_readies v),
      ppod_threshold = threshold v\<rparr>"

definition service_fetch_checkpoint ::
  "(subnet_id set \<Rightarrow> subnet_id list) \<Rightarrow> hex \<Rightarrow> ('db, 'b) store_env \<Rightarrow> 'db validator_store \<Rightarrow>
   proto_checkpoint_request \<Rightarrow> grpc_status + proto_checkpoint_response" where
  "service_fetch_checkpoint iter H E s request =
     (case collect_results (map proof_of_delivery_from_proto (pcr_checkpoint request)) of
        Inl _ \<Rightarrow> Inl (InvalidArgument ''Invalid checkpoint'')
      | Inr res \<Rightarrow>
          Inr \<lparr>pcp_request_id = pcr_request_id request,
               pcp_checkpoint_diff = (case get_checkpoint_diff iter E res s of
                  Inr diff \<Rightarrow> map (\<lambda>key. \<lparr>pce_key = subnet_id_to_string H key, pce_value = map diff_proof (the (diff key))\<rparr>)
                    (iter (dom diff))
                | Inl _ \<Rightarrow> [])\<rparr>)"

section \<open>The collector\<close>

datatype sync_error =
    UnableToFetchTargetPeer
  | UnableToParseSubnetId
  | NoPeerAvailable
  | SyncGrpcParsingError grpc_parsing_error
  | SyncCertificateConversion certificate_conversion_error
  | SyncSubnetConversion subnet_conversion_error
  | SyncStore storage_error
  | SyncNetwork
  | SyncGrpc grpc_status

text \<open>What a peer answers: \<open>None\<close> when no client for the peer can be made.\<close>

record 'p sync_network =
  net_checkpoint :: "'p \<Rightarrow> proto_checkpoint_request \<Rightarrow> (grpc_status + proto_checkpoint_response) option"
  net_fetch :: "'p \<Rightarrow> proto_fetch_request \<Rightarrow> (grpc_status + proto_fetch_response) option"

definition target_peer :: "(u32 list \<Rightarrow> u32 list) \<Rightarrow> 'p gatekeeper \<Rightarrow> sync_error failure + 'p" where
  "target_peer shuffle g =
     and_then (map_err (\<lambda>_. Failed UnableToFetchTargetPeer) (get_random_peers shuffle 1 g)) (\<lambda>peers.
     ok_or (Failed NoPeerAvailable) (if peers = [] then None else Some (last peers)))"

text \<open>The proofs of the heads of the store.\<close>

definition local_checkpoint ::
  "(subnet_id set \<Rightarrow> subnet_id list) \<Rightarrow> ('db, 'b) store_env \<Rightarrow> 'db validator_store \<Rightarrow>
   storage_error + proto_proof_of_delivery list" where
  "local_checkpoint iter E s =
     and_then (validator_get_checkpoint E s) (\<lambda>heads.
     and_then (validator_get_certificates E (map (\<lambda>u. sh_certificate_id (the (heads u))) (iter (dom heads))) s) (\<lambda>certs.
     Inr (map proof_of_delivery_to_proto (List.map_filter (map_option cd_proof_of_delivery) certs))))"

definition parse_diff_entry ::
  "hex \<Rightarrow> proto_checkpoint_entry \<Rightarrow> sync_error failure + subnet_id \<times> proof_of_delivery list" where
  "parse_diff_entry H v =
     and_then (map_err (\<lambda>_. Failed UnableToParseSubnetId) (subnet_id_from_str H (pce_key v))) (\<lambda>subnet.
     and_then (map_err (map_failure SyncGrpcParsingError) (collect_results (map proof_of_delivery_from_proto (pce_value v))))
       (\<lambda>proofs. Inr (subnet, proofs)))"

text \<open>Both answers of the peer are unwrapped.\<close>

definition ask_for_checkpoint ::
  "(subnet_id set \<Rightarrow> subnet_id list) \<Rightarrow> hex \<Rightarrow> ('db, 'b) store_env \<Rightarrow> 'p sync_network \<Rightarrow> uuid \<Rightarrow> 'p \<Rightarrow> 'db validator_store \<Rightarrow>
   sync_error failure + (subnet_id \<rightharpoonup> proof_of_delivery list)" where
  "ask_for_checkpoint iter H E net request_id peer s =
     and_then (map_err (\<lambda>e. Failed (SyncStore e)) (local_checkpoint iter E s)) (\<lambda>checkpoint.
     (let req = \<lparr>pcr_request_id = Some (uuid_to_proto request_id), pcr_checkpoint = checkpoint\<rparr> in
      case net_checkpoint net peer req of
        Some (Inr response) \<Rightarrow>
          and_then (collect_results (map (parse_diff_entry H) (pcp_checkpoint_diff response))) (\<lambda>entries.
          Inr (map_of (rev entries)))
      | _ \<Rightarrow> Inl Panic))"

text \<open>The loop over the subnets of a difference; the certificate ids are a set.\<close>

fun insert_diff ::
  "('db, 'b) store_env \<Rightarrow> proof_of_delivery list list \<Rightarrow> certificate_id set \<Rightarrow> 'db validator_store \<Rightarrow>
   'db validator_store \<times> (storage_error + certificate_id set)" where
  "insert_diff E [] certs s = (s, Inr certs)"
| "insert_diff E (proofs # rest) certs s =
     (case insert_unverified_proofs E proofs s of
        (s, Inl e) \<Rightarrow> (s, Inl e)
      | (s, Inr unverified_certs) \<Rightarrow> insert_diff E rest (certs \<union> set unverified_certs) s)"

function chunks :: "nat \<Rightarrow> 'a list \<Rightarrow> 'a list list" where
  "chunks n xs = (if xs = [] \<or> n = 0 then [] else take n xs # chunks n (drop n xs))"
  by auto
termination by (relation "measure (\<lambda>(n, xs). length xs)") auto

declare chunks.simps [simp del]

definition collector_insert_unverified_proofs ::
  "(subnet_id set \<Rightarrow> subnet_id list) \<Rightarrow> (certificate_id set \<Rightarrow> certificate_id list) \<Rightarrow> ('db, 'b) store_env \<Rightarrow>
   (subnet_id \<rightharpoonup> proof_of_delivery list) \<Rightarrow> 'db validator_store \<Rightarrow>
   'db validator_store \<times> (sync_error + certificate_id list list)" where
  "collector_insert_unverified_proofs iter citer E diff s =
     (case insert_diff E (map (\<lambda>u. the (diff u)) (iter (dom diff))) {} s of
        (s, Inl e) \<Rightarrow> (s, Inl (SyncStore e))
      | (s, Inr certs) \<Rightarrow> (s, Inr (chunks 10 (citer certs))))"

definition collector_fetch_certificates ::
  "hex \<Rightarrow> 'p sync_network \<Rightarrow> (u32 list \<Rightarrow> u32 list) \<Rightarrow> uuid \<Rightarrow> 'p gatekeeper \<Rightarrow> certificate_id list \<Rightarrow>
   sync_error failure + certificate list" where
  "collector_fetch_certificates H net shuffle request_id g certificate_ids =
     and_then (target_peer shuffle g) (\<lambda>peer.
     (let req = \<lparr>pfr_request_id = Some (uuid_to_proto request_id),
                 pfr_certificates = map certificate_id_to_proto certificate_ids\<rparr> in
      case net_fetch net peer req of
        None \<Rightarrow> Inl (Failed SyncNetwork)
      | Some (Inl status) \<Rightarrow> Inl (Failed (SyncGrpc status))
      | Some (Inr response) \<Rightarrow>
          map_err (map_failure SyncSubnetConversion) (collect_results (map (certificate_from_proto H) (pfp_certificates response)))))"

text \<open>The certificates of each chunk are handed to tasks of their own; an error ends the loop.\<close>

fun fetch_chunks ::
  "hex \<Rightarrow> 'p sync_network \<Rightarrow> (nat \<Rightarrow> u32 list \<Rightarrow> u32 list) \<Rightarrow> (nat \<Rightarrow> uuid) \<Rightarrow> 'p gatekeeper \<Rightarrow> nat \<Rightarrow> certificate_id list list \<Rightarrow>
   certificate list \<times> (sync_error failure + unit)" where
  "fetch_chunks H net shuffle ids g k [] = ([], Inr ())"
| "fetch_chunks H net shuffle ids g k (chunk # rest) =
     (case collector_fetch_certificates H net (shuffle k) (ids k) g chunk of
        Inl e \<Rightarrow> ([], Inl e)
      | Inr certificates \<Rightarrow>
          (let (spawned, r) = fetch_chunks H net shuffle ids g (Suc k) rest in (certificates @ spawned, r)))"

text \<open>The store, the certificates whose synchronisation is spawned, and the result.\<close>

definition initiate_request ::
  "(subnet_id set \<Rightarrow> subnet_id list) \<Rightarrow> (certificate_id set \<Rightarrow> certificate_id list) \<Rightarrow> hex \<Rightarrow> ('db, 'b) store_env \<Rightarrow>
   'p sync_network \<Rightarrow> (nat \<Rightarrow> u32 list \<Rightarrow> u32 list) \<Rightarrow> (nat \<Rightarrow> uuid) \<Rightarrow> 'p gatekeeper \<Rightarrow> 'db validator_store \<Rightarrow>
   'db validator_store \<times> certificate list \<times> (sync_error failure + unit)" where
  "initiate_request iter citer H E net shuffle ids g s =
     (case and_then (target_peer (shuffle 0) g) (\<lambda>peer. ask_for_checkpoint iter H E net (ids 0) peer s) of
        Inl e \<Rightarrow> (s, [], Inl e)
      | Inr diff \<Rightarrow>
          (case collector_insert_unverified_proofs iter citer E diff s of
             (s, Inl e) \<Rightarrow> (s, [], Inl (Failed e))
           | (s, Inr certificates_to_catchup) \<Rightarrow>
               (let (spawned, r) = fetch_chunks H net shuffle ids g 1 certificates_to_catchup in (s, spawned, r))))"

text \<open>The spawned tasks in the order they reach the store; their results are only logged.\<close>

definition run_spawned ::
  "('db, 'b) store_env \<Rightarrow> certificate list \<Rightarrow> 'db validator_store \<Rightarrow> 'db validator_store" where
  "run_spawned E spawned s = fold (\<lambda>c s. fst (synchronize_certificate E c s)) spawned s"

text \<open>
  The turn of the loop at a tick. \<open>current_request_id\<close> is never set, so that a request is made at
  every tick; a panic of the request ends the task.
\<close>

datatype collector_state = CollectorRunning | CollectorPanicked

definition collector_tick ::
  "proto_uuid option \<Rightarrow> 'db validator_store \<times> certificate list \<times> (sync_error failure + unit) \<Rightarrow> 'db validator_store \<Rightarrow>
   'db validator_store \<times> certificate list \<times> collector_state" where
  "collector_tick current_request_id outcome s =
     (if current_request_id = None
      then (case outcome of (s, spawned, r) \<Rightarrow> (s, spawned, if r = Inl Panic then CollectorPanicked else CollectorRunning))
      else (s, [], CollectorRunning))"

section \<open>Building\<close>

datatype collector_error =
    CollectorUnableToStart
  | NoGatekeeperClient
  | NoNetworkClient
  | CollectorAlreadyStarting
  | UnableToFetchRandomPeer
  | CollectorOneshotCommunicationChannel
  | NoStore

record ('gk, 'net, 'store, 'token) synchronizer_builder =
  sb_gatekeeper_client :: "'gk option"
  sb_network_client :: "'net option"
  sb_store :: "'store option"
  sb_sync_interval_seconds :: u64
  sb_event_channel_size :: nat
  sb_shutdown :: "'token option"

definition synchronizer_builder_default :: "('gk, 'net, 'store, 'token) synchronizer_builder" where
  "synchronizer_builder_default =
     \<lparr>sb_gatekeeper_client = None, sb_network_client = None, sb_store = None, sb_sync_interval_seconds = 1,
      sb_event_channel_size = 100, sb_shutdown = None\<rparr>"

definition SYNC_INTERVAL_SECONDS :: u64 where
  "SYNC_INTERVAL_SECONDS = 10"

text \<open>The parts and the interval of the collector; the interval of the builder is not used.\<close>

definition synchronizer_build ::
  "('gk, 'net, 'store, 'token) synchronizer_builder \<Rightarrow> collector_error + 'token \<times> 'net \<times> 'gk \<times> 'store \<times> u64" where
  "synchronizer_build b =
     and_then (ok_or NoStore (sb_shutdown b)) (\<lambda>shutdown.
     and_then (ok_or NoNetworkClient (sb_network_client b)) (\<lambda>network.
     and_then (ok_or NoGatekeeperClient (sb_gatekeeper_client b)) (\<lambda>gatekeeper.
     and_then (ok_or NoStore (sb_store b)) (\<lambda>store.
       Inr (shutdown, network, gatekeeper, store, SYNC_INTERVAL_SECONDS)))))"

section \<open>Chunks\<close>

lemma hash_iter_singleton:
  assumes "hash_iter_laws iter"
  shows "iter {x} = [x]"
proof -
  have "set (iter {x}) = {x}" "distinct (iter {x})" using assms by (simp_all add: hash_iter_laws_def)
  then show ?thesis by (metis distinct_card card_1_singleton_iff length_0_conv length_Suc_conv list.set_intros(1) singletonD One_nat_def is_singletonI is_singleton_altdef)
qed

lemma chunks_spec:
  assumes "0 < n"
  shows "concat (chunks n xs) = xs \<and> (\<forall>c \<in> set (chunks n xs). c \<noteq> [] \<and> length c \<le> n)"
  using assms
proof (induction n xs rule: chunks.induct)
  case (1 n xs)
  show ?case
  proof (cases "xs = []")
    case False
    then have "chunks n xs = take n xs # chunks n (drop n xs)" using "1.prems" by (subst chunks.simps) simp
    moreover have "concat (chunks n (drop n xs)) = drop n xs \<and> (\<forall>c \<in> set (chunks n (drop n xs)). c \<noteq> [] \<and> length c \<le> n)"
      using 1 False by simp
    ultimately show ?thesis using False "1.prems" by simp
  qed (simp add: chunks.simps)
qed

section \<open>Storing the proofs of a peer\<close>

abbreviation proof_entries :: "proof_of_delivery list \<Rightarrow> certificate_id \<rightharpoonup> proof_of_delivery" where
  "proof_entries ps \<equiv> map_of (rev (map (\<lambda>p. (pod_certificate_id p, p)) ps))"

lemma insert_diff_reliable:
  assumes "validator_ready E s" and "rocksdb_reliable (env_rocks E)"
    and "\<forall>ps \<in> set pss. \<forall>p \<in> set ps. wf_certificate_id (pod_certificate_id p)"
  shows "\<exists>s'. insert_diff E pss certs s = (s', Inr (certs \<union> pod_certificate_id ` set (concat pss))) \<and> validator_ready E s' \<and>
    pending_of E s' = pending_of E s \<and>
    fullnode_view E (vs_fullnode s') = (fullnode_view E (vs_fullnode s))
      \<lparr>fv_unverified := fv_unverified (fullnode_view E (vs_fullnode s)) ++ proof_entries (concat pss)\<rparr>"
  using assms(1,3)
proof (induction pss arbitrary: certs s)
  case (Cons ps pss)
  have "\<forall>p \<in> set ps. wf_certificate_id (pod_certificate_id p)" using Cons.prems(2) by simp
  from insert_unverified_reliable [OF Cons.prems(1) assms(2) this] obtain db where
    one: "insert_unverified_proofs E ps s = (s\<lparr>vs_fullnode := (vs_fullnode s)\<lparr>fs_perpetual := db\<rparr>\<rparr>, Inr (map pod_certificate_id ps))"
      "fullnode_ready E ((vs_fullnode s)\<lparr>fs_perpetual := db\<rparr>)"
      "fullnode_view E ((vs_fullnode s)\<lparr>fs_perpetual := db\<rparr>) =
        (fullnode_view E (vs_fullnode s))\<lparr>fv_unverified := fv_unverified (fullnode_view E (vs_fullnode s)) ++ proof_entries ps\<rparr>"
    by blast
  let ?t = "s\<lparr>vs_fullnode := (vs_fullnode s)\<lparr>fs_perpetual := db\<rparr>\<rparr>"
  have "validator_ready E ?t" using Cons.prems(1) one(2) by (simp add: validator_ready_def)
  from Cons.IH [OF this, of "certs \<union> pod_certificate_id ` set ps"] Cons.prems(2) obtain s' where
    "insert_diff E pss (certs \<union> pod_certificate_id ` set ps) ?t =
      (s', Inr ((certs \<union> pod_certificate_id ` set ps) \<union> pod_certificate_id ` set (concat pss)))"
    "validator_ready E s'" "pending_of E s' = pending_of E ?t"
    "fullnode_view E (vs_fullnode s') = (fullnode_view E (vs_fullnode ?t))
      \<lparr>fv_unverified := fv_unverified (fullnode_view E (vs_fullnode ?t)) ++ proof_entries (concat pss)\<rparr>"
    by auto
  then show ?case
    by (intro exI [of _ s']) (simp add: one image_Un Un_assoc flip: map_add_assoc)
qed simp

section \<open>The heads of a store\<close>

lemma source_list_keys:
  assumes "fullnode_ready E f"
  shows "finite (dom (fv_source_list (fullnode_view E f)))"
    and "fv_source_list (fullnode_view E f) u \<noteq> None \<Longrightarrow> wf_subnet_id u"
proof -
  let ?c = "source_list_col (env_bincode E)"
  note spec = column_items_spec [OF fullnode_laws(1) [OF assms] table_laws(6) [OF fullnode_laws(2) [OF assms]]
      fullnode_columns_ready(6) [OF assms]]
  have eq: "fv_source_list (fullnode_view E f) = map_of (column_items (env_rocks E) ?c (fs_index f))"
    by (simp add: spec(1) fullnode_view_def)
  show "finite (dom (fv_source_list (fullnode_view E f)))" unfolding eq by (rule finite_dom_map_of)
  show "wf_subnet_id u" if "fv_source_list (fullnode_view E f) u \<noteq> None"
    using that spec(4) map_of_SomeD [of "column_items (env_rocks E) ?c (fs_index f)" u] unfolding eq by fastforce
qed

text \<open>The certificate a store has as the head of a subnet, and the proofs of the heads.\<close>

definition head_delivered :: "fullnode_view \<Rightarrow> subnet_id \<Rightarrow> certificate_delivered" where
  "head_delivered v u = the (fv_certificates v (fst (the (fv_source_list v u))))"

definition head_proofs :: "(subnet_id set \<Rightarrow> subnet_id list) \<Rightarrow> fullnode_view \<Rightarrow> proof_of_delivery list" where
  "head_proofs iter v = map (\<lambda>u. cd_proof_of_delivery (head_delivered v u)) (iter (dom (fv_source_list v)))"

lemma head_stored:
  assumes "store_consistent v" and "fv_source_list v u = Some (cid, p)"
  shows "fv_certificates v cid = Some (head_delivered v u)" and "wf_certificate_id cid"
proof -
  have cons: "consistent_certificates v" using assms(1) by (simp add: store_consistent_def)
  then have "fv_streams v (source_position u p) = Some cid" using assms(2) by (auto simp: consistent_certificates_def)
  then have "fv_certificates v cid \<noteq> None" using cons by (simp add: consistent_certificates_def)
  then show "fv_certificates v cid = Some (head_delivered v u)" by (auto simp: head_delivered_def assms(2))
  with consistent_certificatesD(2) [OF cons] show "wf_certificate_id cid" by blast
qed

lemma local_checkpoint_reliable:
  assumes "readable_store E s" and "hash_iter_laws iter"
  defines "v \<equiv> fullnode_view E (vs_fullnode s)"
  shows "local_checkpoint iter E s = Inr (map proof_of_delivery_to_proto (head_proofs iter v))"
proof -
  note r = readable_storeD [OF assms(1)]
  let ?heads = "\<lambda>u. map_option (\<lambda>(cid, pos). \<lparr>sh_certificate_id = cid, sh_subnet_id = u, sh_position = pos\<rparr>) (fv_source_list v u)"
  let ?us = "iter (dom (fv_source_list v))"
  have heads: "validator_get_checkpoint E s = Inr ?heads"
    using checkpoint_and_last_position [OF r(1) example_subnets(3)] by (simp add: validator_get_checkpoint_def v_def)
  have dom: "dom ?heads = dom (fv_source_list v)" by (auto simp: dom_def)
  have us: "set ?us = dom (fv_source_list v)"
    using assms(2) source_list_keys(1) [OF r(1)] by (simp add: hash_iter_laws_def v_def)
  have ids: "map (\<lambda>u. sh_certificate_id (the (?heads u))) ?us = map (\<lambda>u. fst (the (fv_source_list v u))) ?us"
    using us by (auto intro!: map_cong split: prod.splits)
  have stored: "fv_certificates v (fst (the (fv_source_list v u))) = Some (head_delivered v u) \<and>
      wf_certificate_id (fst (the (fv_source_list v u)))" if "u \<in> set ?us" for u
    using that us head_stored [OF r(3)] by (fastforce simp: v_def)
  have "validator_get_certificates E (map (\<lambda>u. fst (the (fv_source_list v u))) ?us) s =
      Inr (map (fv_certificates v) (map (\<lambda>u. fst (the (fv_source_list v u))) ?us))"
    using get_certificates_reliable [OF r(1,2), of "map (\<lambda>u. fst (the (fv_source_list v u))) ?us"] stored
    by (simp add: validator_get_certificates_def get_certificates_def v_def)
  also have "map (fv_certificates v) (map (\<lambda>u. fst (the (fv_source_list v u))) ?us) = map (\<lambda>u. Some (head_delivered v u)) ?us"
    using stored by simp
  finally have "validator_get_certificates E (map (\<lambda>u. sh_certificate_id (the (?heads u))) (iter (dom ?heads))) s =
      Inr (map (\<lambda>u. Some (head_delivered v u)) ?us)" by (simp only: ids dom)
  moreover have "List.map_filter (map_option cd_proof_of_delivery) (map (\<lambda>u. Some (head_delivered v u)) us) =
      map (\<lambda>u. cd_proof_of_delivery (head_delivered v u)) us" for us
    by (induction us) (simp_all add: List.map_filter_simps)
  ultimately show ?thesis by (simp add: local_checkpoint_def heads head_proofs_def)
qed

section \<open>A peer that is not honest\<close>

lemma collect_proofs_round_trip:
  assumes "\<forall>p \<in> set ps. wf_subnet_id (src_subnet_id (delivery_position p)) \<and> wf_certificate_id (pod_certificate_id p)"
  shows "collect_results (map proof_of_delivery_from_proto (map proof_of_delivery_to_proto ps)) = Inr ps"
proof -
  have "collect_results (map (\<lambda>p. proof_of_delivery_from_proto (proof_of_delivery_to_proto p)) ps) = Inr (map (\<lambda>p. p) ps)"
    by (rule collect_results_map_ok) (use assms in \<open>simp add: proof_of_delivery_from_proto_Inr_iff\<close>)
  then show ?thesis by (simp add: comp_def)
qed

lemma parse_diff_entry_round_trip:
  assumes "hex_laws H" and "wf_subnet_id u"
    and "\<forall>p \<in> set ps. wf_subnet_id (src_subnet_id (delivery_position p)) \<and> wf_certificate_id (pod_certificate_id p)"
  shows "parse_diff_entry H \<lparr>pce_key = subnet_id_to_string H u, pce_value = map proof_of_delivery_to_proto ps\<rparr> = Inr (u, ps)"
  using collect_proofs_round_trip [OF assms(3)] subnet_id_from_str_to_string [OF assms(1,2)]
  by (simp add: parse_diff_entry_def del: map_map)

text \<open>What a peer says, whoever it is: a proof for a certificate, and the certificate.\<close>

definition claims_certificate ::
  "hex \<Rightarrow> 'p sync_network \<Rightarrow> 'p \<Rightarrow> proof_of_delivery \<Rightarrow> certificate \<Rightarrow> bool" where
  "claims_certificate H net peer p c \<longleftrightarrow>
     (\<forall>r. net_checkpoint net peer r = Some (Inr \<lparr>pcp_request_id = pcr_request_id r,
        pcp_checkpoint_diff = [\<lparr>pce_key = subnet_id_to_string H (source_subnet_id c), pce_value = [proof_of_delivery_to_proto p]\<rparr>]\<rparr>)) \<and>
     (\<forall>r. net_fetch net peer r = Some (Inr \<lparr>pfp_request_id = pfr_request_id r, pfp_certificates = [certificate_to_proto c]\<rparr>))"

text \<open>
  C17: Synchronisation verifies nothing. If the chosen peer answers with a proof of delivery and
  a certificate, whatever the readies of the proof and the signature of the certificate are, the
  node stores the proof and hands the certificate to a task that stores it as delivered with this
  proof, as long as the position in the stream is free.
\<close>

theorem peer_certificate_unverified:
  assumes "readable_store E s" and "hash_iter_laws iter" and "hash_iter_laws citer" and "hex_laws H"
    and "\<forall>k. target_peer (shuffle k) g = Inr peer" and "claims_certificate H net peer p c"
    and "wf_delivered \<lparr>cd_certificate = c, cd_proof_of_delivery = p\<rparr>" and "pod_certificate_id p = cert_id c"
    and "fv_streams (fullnode_view E (vs_fullnode s)) (delivery_position p) = None"
    and "targets_available (fullnode_view E (vs_fullnode s)) \<lparr>cd_certificate = c, cd_proof_of_delivery = p\<rparr>"
    and "\<forall>k d. pv_precedence (pending_of E s) k = Some d \<longrightarrow> wf_certificate d"
    and "pv_precedence (pending_of E s) (cert_id c) = None"
  shows "\<exists>s1. initiate_request iter citer H E net shuffle ids g s = (s1, [c], Inr ()) \<and>
    validator_get_certificate E (cert_id c) (run_spawned E [c] s1) =
      Inr (Some \<lparr>cd_certificate = c, cd_proof_of_delivery = p\<rparr>)"
proof -
  let ?cd = "\<lparr>cd_certificate = c, cd_proof_of_delivery = p\<rparr>" and ?v = "fullnode_view E (vs_fullnode s)"
  let ?u = "source_subnet_id c"
  have r: "validator_ready E s" "rocksdb_reliable (env_rocks E)" using assms(1) by (simp_all add: readable_store_def)
  have wf: "wf_certificate c" "wf_certificate_id (cert_id c)" "wf_subnet_id ?u" "wf_subnet_id (src_subnet_id (delivery_position p))"
    using assms(7) by (simp_all add: wf_delivered_def wf_certificate_def wf_source_position_def)
  have one: "iter {?u} = [?u]" "citer {cert_id c} = [cert_id c]"
    using hash_iter_singleton [OF assms(2)] hash_iter_singleton [OF assms(3)] by blast+
  have "\<forall>q \<in> set [p]. wf_subnet_id (src_subnet_id (delivery_position q)) \<and> wf_certificate_id (pod_certificate_id q)"
    using wf assms(8) by simp
  from parse_diff_entry_round_trip [OF assms(4) wf(3) this]
  have diff: "ask_for_checkpoint iter H E net (ids 0) peer s = Inr [?u \<mapsto> [p]]"
    using assms(6) by (simp add: ask_for_checkpoint_def local_checkpoint_reliable [OF assms(1,2)] claims_certificate_def)
  from insert_diff_reliable [OF r, of "[[p]]" "{}"] assms(8) wf(2) obtain s1 where
    s1: "insert_diff E [[p]] {} s = (s1, Inr {cert_id c})" "validator_ready E s1" "pending_of E s1 = pending_of E s"
      "fullnode_view E (vs_fullnode s1) = ?v\<lparr>fv_unverified := (fv_unverified ?v)(cert_id c \<mapsto> p)\<rparr>"
    by auto
  have stored: "collector_insert_unverified_proofs iter citer E [?u \<mapsto> [p]] s = (s1, Inr [[cert_id c]])"
    using s1(1) by (simp add: collector_insert_unverified_proofs_def one chunks.simps)
  have "fetch_chunks H net shuffle ids g 1 [[cert_id c]] = ([c], Inr ())"
    using assms(5,6) certificate_round_trip [OF wf(1), of H]
    by (simp add: collector_fetch_certificates_def claims_certificate_def)
  then have run: "initiate_request iter citer H E net shuffle ids g s = (s1, [c], Inr ())"
    using assms(5) by (simp add: initiate_request_def diff stored)
  obtain t where t: "synchronize_certificate E c s1 = (t, Inr ())" "validator_ready E t"
    "fullnode_view E (vs_fullnode t) = (deliver_view ?cd (fullnode_view E (vs_fullnode s1)))
       \<lparr>fv_unverified := (fv_unverified (fullnode_view E (vs_fullnode s1)))(cert_id c := None)\<rparr>"
    by (rule synchronize_reliable [OF s1(2) r(2) assms(7)]) (use assms(9-12) s1(3,4) in simp_all)
  have "fullnode_ready E (vs_fullnode t)" using t(2) by (simp add: validator_ready_def)
  from get_certificate_reliable [OF this r(2) wf(2)] t(3)
  have "validator_get_certificate E (cert_id c) (run_spawned E [c] s1) = Inr (Some ?cd)"
    by (simp add: run_spawned_def t(1) validator_get_certificate_def deliver_view_def Let_def)
  with run show ?thesis by blast
qed

section \<open>An honest peer\<close>

text \<open>What every store of a node keeps of the certificates it delivers.\<close>

definition deliveries_wf :: "fullnode_view \<Rightarrow> bool" where
  "deliveries_wf v \<longleftrightarrow>
     (\<forall>cid cd. fv_certificates v cid = Some cd \<longrightarrow> wf_delivered cd \<and> pod_certificate_id (cd_proof_of_delivery cd) = cid) \<and>
     (\<forall>u cid p cd. fv_source_list v u = Some (cid, p) \<longrightarrow> fv_certificates v cid = Some cd \<longrightarrow>
        delivery_position (cd_proof_of_delivery cd) = source_position u p)"

lemma deliveries_wfD:
  assumes "deliveries_wf v"
  shows "fv_certificates v cid = Some cd \<Longrightarrow> wf_delivered cd"
    and "fv_certificates v cid = Some cd \<Longrightarrow> pod_certificate_id (cd_proof_of_delivery cd) = cid"
    and "fv_source_list v u = Some (cid, p) \<Longrightarrow> fv_certificates v cid = Some cd \<Longrightarrow>
      delivery_position (cd_proof_of_delivery cd) = source_position u p"
  using assms unfolding deliveries_wf_def by blast+

lemma deliveries_wf_deliver:
  assumes "deliveries_wf v" and "wf_delivered cd" and "own_stream cd" and "store_consistent v"
    and "pod_certificate_id (cd_proof_of_delivery cd) = cert_id (cd_certificate cd)"
    and "fv_certificates v (cert_id (cd_certificate cd)) = None"
  shows "deliveries_wf (deliver_view cd v)"
proof -
  have "fv_source_list v u \<noteq> Some (cert_id (cd_certificate cd), p)" for u p
    using head_stored(1) [OF assms(4), of u "cert_id (cd_certificate cd)" p] assms(6) by auto
  then show ?thesis
    using assms(1,2,3,5) by (auto simp: deliveries_wf_def deliver_view_def Let_def own_stream_def split: if_splits)
qed

definition honest_peer ::
  "(subnet_id set \<Rightarrow> subnet_id list) \<Rightarrow> hex \<Rightarrow> ('db, 'b) store_env \<Rightarrow> 'db validator_store \<Rightarrow> 'p sync_network \<Rightarrow> 'p \<Rightarrow> bool" where
  "honest_peer iter H E s net peer \<longleftrightarrow>
     (\<forall>r. net_checkpoint net peer r = Some (service_fetch_checkpoint iter H E s r)) \<and>
     (\<forall>r. net_fetch net peer r = Some (service_fetch_certificates E s r))"

lemma diff_proof_eq: "diff_proof = proof_of_delivery_to_proto"
  by (simp add: fun_eq_iff diff_proof_def proof_of_delivery_to_proto_def source_stream_position_to_proto_def case_prod_unfold)

lemma service_fetch_honest:
  assumes "readable_store E s" and "\<forall>cid \<in> set cids. fv_certificates (fullnode_view E (vs_fullnode s)) cid \<noteq> None"
  shows "service_fetch_certificates E s \<lparr>pfr_request_id = r, pfr_certificates = map certificate_id_to_proto cids\<rparr> =
    Inr \<lparr>pfp_request_id = r, pfp_certificates =
      map (\<lambda>cid. certificate_to_proto (cd_certificate (the (fv_certificates (fullnode_view E (vs_fullnode s)) cid)))) cids\<rparr>"
proof -
  let ?v = "fullnode_view E (vs_fullnode s)"
  note rd = readable_storeD [OF assms(1)]
  have wf: "\<forall>cid \<in> set cids. wf_certificate_id cid"
    using assms(2) rd(3) consistent_certificatesD(2) [of ?v] by (fastforce simp: store_consistent_def)
  have "collect_results (map (\<lambda>cid. certificate_id_from_proto (certificate_id_to_proto cid)) cids) = Inr (map (\<lambda>c. c) cids)"
    by (rule collect_results_map_ok) (use wf in \<open>simp add: proto_simps\<close>)
  moreover have "validator_get_certificates E cids s = Inr (map (fv_certificates ?v) cids)"
    using get_certificates_reliable [OF rd(1,2) wf] by (simp add: validator_get_certificates_def get_certificates_def)
  moreover have "List.map_filter (map_option (\<lambda>cd. certificate_to_proto (cd_certificate cd))) (map (fv_certificates ?v) xs) =
      map (\<lambda>cid. certificate_to_proto (cd_certificate (the (fv_certificates ?v cid)))) xs"
    if "\<forall>cid \<in> set xs. fv_certificates ?v cid \<noteq> None" for xs
    using that by (induction xs) (auto simp: List.map_filter_simps)
  ultimately show ?thesis using assms(2) by (simp add: service_fetch_certificates_def comp_def)
qed

lemma fetch_chunks_honest:
  assumes "readable_store E s" and "deliveries_wf (fullnode_view E (vs_fullnode s))"
    and "honest_peer iter H E s net peer" and "\<forall>k. target_peer (shuffle k) g = Inr peer"
    and "\<forall>cid \<in> set (concat css). fv_certificates (fullnode_view E (vs_fullnode s)) cid \<noteq> None"
  shows "fetch_chunks H net shuffle ids g k css =
    (map (\<lambda>cid. cd_certificate (the (fv_certificates (fullnode_view E (vs_fullnode s)) cid))) (concat css), Inr ())"
  using assms(5)
proof (induction css arbitrary: k)
  case (Cons cids rest)
  let ?v = "fullnode_view E (vs_fullnode s)"
  let ?c = "\<lambda>cid. cd_certificate (the (fv_certificates ?v cid))"
  have known: "\<forall>cid \<in> set cids. fv_certificates ?v cid \<noteq> None" using Cons.prems by simp
  then have "\<forall>cid \<in> set cids. wf_certificate (?c cid)"
    using assms(2) by (fastforce simp: deliveries_wf_def wf_delivered_def)
  then have "collect_results (map (\<lambda>cid. certificate_from_proto H (certificate_to_proto (?c cid))) cids) = Inr (map ?c cids)"
    by (intro collect_results_map_ok) (simp add: certificate_round_trip)
  then have "collector_fetch_certificates H net (shuffle k) (ids k) g cids = Inr (map ?c cids)"
    using assms(3,4) service_fetch_honest [OF assms(1) known]
    by (simp add: collector_fetch_certificates_def honest_peer_def comp_def)
  with Cons show ?case by simp
qed simp

lemma first_proofs_stored:
  assumes "store_consistent v" and "deliveries_wf v" and "p \<in> set (first_proofs v u)"
  shows "\<exists>cd q. q \<in> set (take 100 (sorted_list_of_set (source_positions v u))) \<and>
    fv_streams v (source_position u q) = Some (pod_certificate_id p) \<and>
    fv_certificates v (pod_certificate_id p) = Some cd \<and> p = cd_proof_of_delivery cd"
proof -
  from assms(3) obtain q where q: "q \<in> set (take 100 (sorted_list_of_set (source_positions v u)))"
    "p = cd_proof_of_delivery (the (fv_certificates v (the (fv_streams v (source_position u q)))))"
    by (auto simp: first_proofs_def)
  then have "q \<in> source_positions v u" using set_take_subset by fastforce
  then obtain cid where cid: "fv_streams v (source_position u q) = Some cid" by (auto simp: source_positions_def)
  then obtain cd where cd: "fv_certificates v cid = Some cd"
    using assms(1) consistent_certificatesD(4) [of v "source_position u q" cid] by (auto simp: store_consistent_def)
  then have "pod_certificate_id p = cid" using assms(2) q(2) cid by (simp add: deliveries_wf_def)
  with q cid cd show ?thesis by auto
qed

lemma head_proofs_spec:
  assumes "readable_store E s" and "deliveries_wf (fullnode_view E (vs_fullnode s))" and "hash_iter_laws iter"
  defines "v \<equiv> fullnode_view E (vs_fullnode s)"
  shows "src_subnet_id ` delivery_position ` set (head_proofs iter v) = dom (fv_source_list v)"
    and "p \<in> set (head_proofs iter v) \<Longrightarrow> wf_subnet_id (src_subnet_id (delivery_position p)) \<and> wf_certificate_id (pod_certificate_id p)"
proof -
  note rd = readable_storeD [OF assms(1), folded v_def]
  have us: "set (iter (dom (fv_source_list v))) = dom (fv_source_list v)"
    using assms(3) source_list_keys(1) [OF rd(1), folded v_def] by (simp add: hash_iter_laws_def)
  have head: "src_subnet_id (delivery_position (cd_proof_of_delivery (head_delivered v u))) = u \<and>
      wf_certificate_id (pod_certificate_id (cd_proof_of_delivery (head_delivered v u))) \<and> wf_subnet_id u"
    if known: "u \<in> dom (fv_source_list v)" for u
  proof -
    obtain cid p where "fv_source_list v u = Some (cid, p)" using known by auto
    with head_stored [OF rd(3) this] assms(2) source_list_keys(2) [OF rd(1), folded v_def] show ?thesis
      by (auto simp: deliveries_wf_def v_def)
  qed
  have set: "set (head_proofs iter v) = (\<lambda>u. cd_proof_of_delivery (head_delivered v u)) ` dom (fv_source_list v)"
    by (simp add: head_proofs_def us)
  show "src_subnet_id ` delivery_position ` set (head_proofs iter v) = dom (fv_source_list v)"
    unfolding set image_image by (subst image_cong [OF refl, of _ _ "\<lambda>u. u"]) (use head in auto)
  show "wf_subnet_id (src_subnet_id (delivery_position p)) \<and> wf_certificate_id (pod_certificate_id p)"
    if "p \<in> set (head_proofs iter v)"
  proof -
    from that obtain u where u: "u \<in> dom (fv_source_list v)" "p = cd_proof_of_delivery (head_delivered v u)"
      unfolding set by blast
    with head [OF u(1)] show ?thesis by simp
  qed
qed

text \<open>The difference an honest peer that knows every subnet of the node computes.\<close>

definition missing_proofs :: "fullnode_view \<Rightarrow> fullnode_view \<Rightarrow> subnet_id \<rightharpoonup> proof_of_delivery list" where
  "missing_proofs v v' = (\<lambda>u. if fv_source_list v' u = None then None
     else Some (if u \<in> dom (fv_source_list v) then [] else first_proofs v' u))"

definition ahead :: "(subnet_id set \<Rightarrow> subnet_id list) \<Rightarrow> fullnode_view \<Rightarrow> fullnode_view \<Rightarrow> bool" where
  "ahead iter v v' \<longleftrightarrow> dom (fv_source_list v) \<subseteq> dom (fv_source_list v') \<and>
     (\<forall>p \<in> set (head_proofs iter v). proof_names_no_subnet v' p)"

lemma missing_proofs_wf:
  assumes "readable_store E' s'" and "deliveries_wf (fullnode_view E' (vs_fullnode s'))"
    and "missing_proofs v (fullnode_view E' (vs_fullnode s')) u = Some ps"
  shows "wf_subnet_id u" and "\<forall>p \<in> set ps. wf_subnet_id (src_subnet_id (delivery_position p)) \<and> wf_certificate_id (pod_certificate_id p)"
proof -
  let ?v' = "fullnode_view E' (vs_fullnode s')"
  note rd = readable_storeD [OF assms(1)]
  show "wf_subnet_id u"
  proof (rule source_list_keys(2) [OF rd(1)])
    show "fv_source_list ?v' u \<noteq> None" using assms(3) by (cases "fv_source_list ?v' u") (simp_all add: missing_proofs_def)
  qed
  have ps: "ps = [] \<or> ps = first_proofs ?v' u"
    using assms(3) by (cases "fv_source_list ?v' u"; cases "u \<in> dom (fv_source_list v)") (simp_all add: missing_proofs_def)
  show "\<forall>p \<in> set ps. wf_subnet_id (src_subnet_id (delivery_position p)) \<and> wf_certificate_id (pod_certificate_id p)"
  proof
    fix p assume "p \<in> set ps"
    with ps have "p \<in> set (first_proofs ?v' u)" by auto
    from first_proofs_stored [OF rd(3) assms(2) this]
    obtain cd where cd: "fv_certificates ?v' (pod_certificate_id p) = Some cd" "p = cd_proof_of_delivery cd"
      by (elim exE conjE)
    have "wf_delivered cd" by (rule deliveries_wfD(1) [OF assms(2) cd(1)])
    moreover have "wf_certificate_id (pod_certificate_id p)"
      using consistent_certificatesD(2) [OF _ cd(1)] rd(3) by (simp add: store_consistent_def)
    ultimately show "wf_subnet_id (src_subnet_id (delivery_position p)) \<and> wf_certificate_id (pod_certificate_id p)"
      using cd(2) by (simp add: wf_delivered_def wf_source_position_def)
  qed
qed

lemma ask_honest_peer:
  assumes "readable_store E s" and "readable_store E' s'"
    and "deliveries_wf (fullnode_view E (vs_fullnode s))" and "deliveries_wf (fullnode_view E' (vs_fullnode s'))"
    and "hash_iter_laws iter" and "hash_iter_laws iter'" and "hex_laws H" and "honest_peer iter' H E' s' net peer"
    and "ahead iter (fullnode_view E (vs_fullnode s)) (fullnode_view E' (vs_fullnode s'))"
  shows "ask_for_checkpoint iter H E net rid peer s =
    Inr (missing_proofs (fullnode_view E (vs_fullnode s)) (fullnode_view E' (vs_fullnode s')))"
proof -
  let ?v = "fullnode_view E (vs_fullnode s)" and ?v' = "fullnode_view E' (vs_fullnode s')"
  let ?m = "missing_proofs ?v ?v'" and ?ps = "head_proofs iter ?v"
  have rd': "validator_ready E' s'" "rocksdb_reliable (env_rocks E')" "store_consistent ?v'"
    using assms(2) by (simp_all add: readable_store_def)
  have fin: "finite (dom ?m)"
    using source_list_keys(1) [OF readable_storeD(1) [OF assms(2)]]
    by (rule finite_subset [rotated]) (auto simp: missing_proofs_def split: if_splits)
  have it: "set (iter' (dom ?m)) = dom ?m" "distinct (iter' (dom ?m))"
    using assms(6) fin by (simp_all add: hash_iter_laws_def)
  have sent: "collect_results (map proof_of_delivery_from_proto (map proof_of_delivery_to_proto ?ps)) = Inr ?ps"
    by (rule collect_proofs_round_trip) (use head_proofs_spec(2) [OF assms(1,3,5)] in blast)
  have none: "find (\<lambda>p. src_subnet_id (delivery_position p) = u) (rev ?ps) = None" if "fv_source_list ?v' u = None" for u
    using that assms(9) head_proofs_spec(1) [OF assms(1,3,5)] by (auto simp: find_None_iff ahead_def)
  have "get_checkpoint_diff iter' E' ?ps s' = Inr ?m"
    using checkpoint_diff_exact [OF rd' assms(6), of ?ps] assms(9) none
    by (auto simp: ahead_def missing_proofs_def head_proofs_spec(1) [OF assms(1,3,5)] fun_eq_iff)
  then have answer: "net_checkpoint net peer \<lparr>pcr_request_id = r, pcr_checkpoint = map proof_of_delivery_to_proto ?ps\<rparr> =
      Some (Inr \<lparr>pcp_request_id = r, pcp_checkpoint_diff =
        map (\<lambda>u. \<lparr>pce_key = subnet_id_to_string H u, pce_value = map proof_of_delivery_to_proto (the (?m u))\<rparr>) (iter' (dom ?m))\<rparr>)" for r
    using assms(8) sent by (simp add: honest_peer_def service_fetch_checkpoint_def diff_proof_eq del: map_map)
  have "collect_results (map (\<lambda>u. parse_diff_entry H \<lparr>pce_key = subnet_id_to_string H u,
        pce_value = map proof_of_delivery_to_proto (the (?m u))\<rparr>) (iter' (dom ?m))) =
      Inr (map (\<lambda>u. (u, the (?m u))) (iter' (dom ?m)))"
    by (rule collect_results_map_ok, rule parse_diff_entry_round_trip [OF assms(7)])
      (use it missing_proofs_wf [OF assms(2,4)] in \<open>auto\<close>)
  moreover have "map_of (rev (map (\<lambda>u. (u, the (?m u))) (iter' (dom ?m)))) = ?m"
  proof -
    have "map_of (rev (map (\<lambda>u. (u, the (?m u))) (iter' (dom ?m)))) = map_of (map (\<lambda>u. (u, the (?m u))) (iter' (dom ?m)))"
      by (rule map_of_rev_distinct) (simp add: comp_def it(2))
    also have "\<dots> = ?m"
      using it(1) by (auto simp: fun_eq_iff map_of_map_keys)
    finally show ?thesis .
  qed
  ultimately show ?thesis
    using answer by (simp add: ask_for_checkpoint_def local_checkpoint_reliable [OF assms(1,5)] comp_def)
qed

text \<open>The certificates the node misses of an honest peer: the first ones of each subnet it does not know.\<close>

definition missing_ids :: "fullnode_view \<Rightarrow> fullnode_view \<Rightarrow> certificate_id set" where
  "missing_ids v v' = {cid. \<exists>u q. fv_source_list v u = None \<and> fv_source_list v' u \<noteq> None \<and>
     q \<in> set (take 100 (sorted_list_of_set (source_positions v' u))) \<and> fv_streams v' (source_position u q) = Some cid}"

lemma missing_proofs_ids:
  assumes "store_consistent v'" and "deliveries_wf v'"
  shows "\<Union> (set ` ran (missing_proofs v v')) = {p. \<exists>cid cd. cid \<in> missing_ids v v' \<and> fv_certificates v' cid = Some cd \<and> p = cd_proof_of_delivery cd}"
    (is "?L = ?R")
proof (rule set_eqI, rule iffI)
  fix p assume "p \<in> ?L"
  then obtain u where u: "fv_source_list v u = None" "fv_source_list v' u \<noteq> None" "p \<in> set (first_proofs v' u)"
    by (auto simp: ran_def missing_proofs_def domIff simp del: not_None_eq split: if_splits)
  from first_proofs_stored [OF assms u(3)] u(1,2) show "p \<in> ?R" by (fastforce simp: missing_ids_def)
next
  fix p assume "p \<in> ?R"
  then obtain u q cid cd where u: "fv_source_list v u = None" "fv_source_list v' u \<noteq> None"
    "q \<in> set (take 100 (sorted_list_of_set (source_positions v' u)))" "fv_streams v' (source_position u q) = Some cid"
    "fv_certificates v' cid = Some cd" "p = cd_proof_of_delivery cd"
    by (auto simp: missing_ids_def)
  then have "p = cd_proof_of_delivery (the (fv_certificates v' (the (fv_streams v' (source_position u q)))))" by simp
  with u(3) have "p \<in> set (first_proofs v' u)" unfolding first_proofs_def by (simp add: image_iff) blast
  moreover have "missing_proofs v v' u = Some (first_proofs v' u)" using u(1,2) by (auto simp: missing_proofs_def)
  ultimately show "p \<in> ?L" by (auto simp: ran_def)
qed

lemma missing_ids_stored:
  assumes "store_consistent v'" and "cid \<in> missing_ids v v'"
  obtains cd where "fv_certificates v' cid = Some cd"
  using assms consistent_certificatesD(4) [of v'] by (fastforce simp: missing_ids_def store_consistent_def)

lemma image_stored:
  assumes "\<And>x. x \<in> D \<Longrightarrow> m x = Some (the (m x))"
  shows "(\<lambda>x. f (the (m x))) ` D = {f y |x y. x \<in> D \<and> m x = Some y}"
proof (intro set_eqI iffI)
  fix z assume "z \<in> {f y |x y. x \<in> D \<and> m x = Some y}"
  then show "z \<in> (\<lambda>x. f (the (m x))) ` D" by (force intro: rev_image_eqI)
qed (use assms in blast)

lemma proof_entries_lookup:
  assumes "\<forall>p \<in> set ps. f (pod_certificate_id p) = p"
  shows "proof_entries ps cid = (if cid \<in> pod_certificate_id ` set ps then Some (f cid) else None)"
proof -
  have "map_of (map (\<lambda>p. (pod_certificate_id p, p)) qs) cid = (if cid \<in> pod_certificate_id ` set qs then Some (f cid) else None)"
    if "\<forall>p \<in> set qs. f (pod_certificate_id p) = p" for qs
    using that by (induction qs) auto
  from this [of "rev ps"] assms show ?thesis by (simp add: rev_map)
qed

text \<open>
  C10: What a node receives from an honest peer that is ahead of it. The request succeeds; the
  certificates it hands to the synchronisation tasks are, for each subnet the peer knows and the
  node does not, the first hundred ones of the stream of the peer, and none of a subnet the node
  knows already, however far behind it is; and the proof of each of them is stored for the task.
\<close>

theorem honest_peer_catches_up:
  assumes "readable_store E s" and "readable_store E' s'"
    and "deliveries_wf (fullnode_view E (vs_fullnode s))" and "deliveries_wf (fullnode_view E' (vs_fullnode s'))"
    and "hash_iter_laws iter" and "hash_iter_laws iter'" and "hash_iter_laws citer" and "hex_laws H"
    and "honest_peer iter' H E' s' net peer" and "\<forall>k. target_peer (shuffle k) g = Inr peer"
    and "ahead iter (fullnode_view E (vs_fullnode s)) (fullnode_view E' (vs_fullnode s'))"
  defines "v \<equiv> fullnode_view E (vs_fullnode s)" and "v' \<equiv> fullnode_view E' (vs_fullnode s')"
  shows "\<exists>t spawned. initiate_request iter citer H E net shuffle ids g s = (t, spawned, Inr ()) \<and> distinct (map cert_id spawned) \<and>
    set spawned = {cd_certificate cd |cid cd. cid \<in> missing_ids v v' \<and> fv_certificates v' cid = Some cd} \<and>
    (\<forall>cid cd. cid \<in> missing_ids v v' \<longrightarrow> fv_certificates v' cid = Some cd \<longrightarrow>
      fv_unverified (fullnode_view E (vs_fullnode t)) cid = Some (cd_proof_of_delivery cd))"
proof -
  let ?m = "missing_proofs v v'" and ?D = "missing_ids v v'"
  let ?c = "\<lambda>cid. cd_certificate (the (fv_certificates v' cid))"
  have cons: "store_consistent v'" using assms(2) by (simp add: readable_store_def v'_def)
  note wf' = assms(4) [folded v'_def]
  let ?us = "iter (dom ?m)"
  let ?pss = "map (\<lambda>u. the (?m u)) ?us"
  have fin: "finite (dom ?m)"
    using source_list_keys(1) [OF readable_storeD(1) [OF assms(2)], folded v'_def]
    by (rule finite_subset [rotated]) (auto simp: missing_proofs_def split: if_splits)
  have us: "set ?us = dom ?m" using assms(5) fin by (simp add: hash_iter_laws_def)
  have proofs: "set (concat ?pss) = {p. \<exists>cid cd. cid \<in> ?D \<and> fv_certificates v' cid = Some cd \<and> p = cd_proof_of_delivery cd}"
  proof -
    have "set ?pss = ran ?m" unfolding set_map us by (force simp: ran_def dom_def)
    then show ?thesis unfolding missing_proofs_ids [OF cons wf', symmetric] set_concat by simp
  qed
  let ?p = "\<lambda>cid. cd_proof_of_delivery (the (fv_certificates v' cid))"
  have stored: "fv_certificates v' cid = Some (the (fv_certificates v' cid))" if "cid \<in> ?D" for cid
    by (rule missing_ids_stored [OF cons that]) simp
  have image: "set (concat ?pss) = ?p ` ?D"
    unfolding proofs by (subst image_stored [OF stored]) blast+
  have pod: "pod_certificate_id (?p cid) = cid" if "cid \<in> ?D" for cid
    by (rule deliveries_wfD(2) [OF wf' stored [OF that]])
  have pid: "pod_certificate_id ` set (concat ?pss) = ?D"
    unfolding image image_image using pod by simp
  have wf: "\<forall>ps \<in> set ?pss. \<forall>p \<in> set ps. wf_certificate_id (pod_certificate_id p)"
  proof (intro ballI)
    fix ps p assume "ps \<in> set ?pss" "p \<in> set ps"
    then obtain u where "?m u = Some ps" unfolding set_map us by auto
    from missing_proofs_wf(2) [OF assms(2,4), folded v'_def, OF this] \<open>p \<in> set ps\<close> show "wf_certificate_id (pod_certificate_id p)" by blast
  qed
  have r: "validator_ready E s" "rocksdb_reliable (env_rocks E)" using assms(1) by (simp_all add: readable_store_def)
  from insert_diff_reliable [OF r wf, of "{}", folded v_def, unfolded pid Un_empty_left] obtain t where
    t: "insert_diff E ?pss {} s = (t, Inr ?D)"
      "fullnode_view E (vs_fullnode t) = v\<lparr>fv_unverified := fv_unverified v ++ proof_entries (concat ?pss)\<rparr>"
    by blast
  have "finite ?D" unfolding pid [symmetric] by simp
  then have cs: "set (citer ?D) = ?D" "distinct (citer ?D)" using assms(7) by (simp_all add: hash_iter_laws_def)
  have chunk: "concat (chunks 10 (citer ?D)) = citer ?D" using chunks_spec [of 10 "citer ?D"] by simp
  have "\<forall>cid \<in> set (concat (chunks 10 (citer ?D))). fv_certificates v' cid \<noteq> None"
    unfolding chunk cs(1) using stored by (metis option.distinct(1))
  from fetch_chunks_honest [OF assms(2,4,9,10), folded v'_def, OF this]
  have fetched: "fetch_chunks H net shuffle ids g 1 (chunks 10 (citer ?D)) = (map ?c (citer ?D), Inr ())" by (simp add: chunk)
  have run: "initiate_request iter citer H E net shuffle ids g s = (t, map ?c (citer ?D), Inr ())"
    using ask_honest_peer [OF assms(1-6,8,9,11), folded v_def v'_def] assms(10) t(1) fetched
    by (simp add: initiate_request_def collector_insert_unverified_proofs_def)
  have "map cert_id (map ?c (citer ?D)) = map (\<lambda>cid. cid) (citer ?D)"
    unfolding map_map
  proof (rule map_cong [OF refl])
    fix cid assume "cid \<in> set (citer ?D)"
    then show "(cert_id \<circ> ?c) cid = cid"
      using consistent_certificatesD(1) [OF _ stored] cons cs(1) by (simp add: store_consistent_def)
  qed
  then have "distinct (map cert_id (map ?c (citer ?D)))" using cs(2) by (simp del: map_map)
  moreover have "set (map ?c (citer ?D)) = {cd_certificate cd |cid cd. cid \<in> ?D \<and> fv_certificates v' cid = Some cd}"
    unfolding set_map cs(1) by (rule image_stored [OF stored])
  moreover have "fv_unverified (fullnode_view E (vs_fullnode t)) cid = Some (cd_proof_of_delivery cd)"
    if "cid \<in> ?D" "fv_certificates v' cid = Some cd" for cid cd
  proof -
    have "\<forall>p \<in> set (concat ?pss). ?p (pod_certificate_id p) = p" unfolding image using pod by simp
    from proof_entries_lookup [OF this, of cid] that show ?thesis unfolding t(2) pid by simp
  qed
  ultimately show ?thesis using run by blast
qed

end
