(* ===== verification/App_Context.thy ===== *)
theory App_Context
  imports Gossip Grpc_Service Double_Echo Synchronizer
begin

text \<open>
  The application of a node (\<^verbatim>\<open>topos-tce/src/app_context.rs\<close> and its three handlers \<^verbatim>\<open>api.rs\<close>,
  \<^verbatim>\<open>network.rs\<close> and \<^verbatim>\<open>protocol.rs\<close>): it connects the client interface, the network, the broadcast and
  the stores. A channel the application sends to is the list of what was sent, and a receiver that is
  gone only makes the code log an error. The tasks spawned for network messages send their commands in
  the order they are spawned; the results about them do not depend on it. The encoding of a message of the protocol, by the
  \<^verbatim>\<open>prost\<close> crate, is the parameter \<open>prost_codec\<close>. Certificates are timed under their identifier; of
  the timers the identifiers are kept.
\<close>

section \<open>Messages and state\<close>

datatype proto_double_echo_request =
    ProtoGossip "proto_certificate option"
  | ProtoEcho "proto_certificate_id option" "proto_ecdsa_signature option" "proto_validator_id option"
  | ProtoReady "proto_certificate_id option" "proto_ecdsa_signature option" "proto_validator_id option"

record 'w prost_codec =
  encode_to_vec :: "proto_double_echo_request option \<Rightarrow> 'w"
  decode_request :: "'w \<Rightarrow> proto_double_echo_request option option"

definition prost_laws :: "'w prost_codec \<Rightarrow> bool" where
  "prost_laws P \<longleftrightarrow> (\<forall>m. decode_request P (encode_to_vec P m) = Some m)"

datatype pending_result = ResultAlreadyDelivered | ResultAwaitPrecedence | ResultInPending pending_certificate_id

datatype app_event = AppStableSample

record ('db, 'sig, 'w) app_context =
  app_store :: "'db validator_store"
  app_commands :: "'sig double_echo_command list"
  app_published :: "(string \<times> 'w) list"
  app_active_sample :: bool
  app_delivery_latency :: "certificate_id set"
  app_events :: "app_event list"

definition app_context_new :: "'db validator_store \<Rightarrow> ('db, 'sig, 'w) app_context" where
  "app_context_new store =
     \<lparr>app_store = store, app_commands = [], app_published = [], app_active_sample = False, app_delivery_latency = {},
      app_events = []\<rparr>"

datatype app_outcome = AppRunning | AppPanicked | AppShutdown

definition DUMMY_INITIAL_CERTIFICATE_ID :: certificate_id where
  "DUMMY_INITIAL_CERTIFICATE_ID = CertificateId (replicate CERTIFICATE_ID_LENGTH 0)"

section \<open>Protocol events\<close>

definition app_publish ::
  "'w prost_codec \<Rightarrow> string \<Rightarrow> proto_double_echo_request \<Rightarrow> ('db, 'sig, 'w) app_context \<Rightarrow> ('db, 'sig, 'w) app_context" where
  "app_publish P topic request a =
     a\<lparr>app_published := app_published a @ [(topic, encode_to_vec P (Some request))]\<rparr>"

fun on_protocol_event ::
  "'w prost_codec \<Rightarrow> ('u, 'sig) eth_types \<Rightarrow> 'sig protocol_event \<Rightarrow> ('db, 'sig, 'w) app_context \<Rightarrow>
   ('db, 'sig, 'w) app_context" where
  "on_protocol_event P T StableSample a =
     a\<lparr>app_active_sample := True, app_events := app_events a @ [AppStableSample]\<rparr>"
| "on_protocol_event P T (EvBroadcast cid) a = a"
| "on_protocol_event P T (EvGossip cert) a =
     app_publish P TOPOS_GOSSIP (ProtoGossip (Some (certificate_to_proto cert))) a"
| "on_protocol_event P T (EvEcho cid signature vid) a =
     app_publish P TOPOS_ECHO (ProtoEcho (Some (certificate_id_to_proto cid)) (Some (signature_to_proto T signature))
       (Some (validator_id_to_proto vid))) a"
| "on_protocol_event P T (EvReady cid signature vid) a =
     app_publish P TOPOS_READY (ProtoReady (Some (certificate_id_to_proto cid)) (Some (signature_to_proto T signature))
       (Some (validator_id_to_proto vid))) a"
| "on_protocol_event P T _ a = a"

section \<open>Network events\<close>

definition app_command :: "'sig double_echo_command \<Rightarrow> ('db, 'sig, 'w) app_context \<Rightarrow> ('db, 'sig, 'w) app_context" where
  "app_command command a = a\<lparr>app_commands := app_commands a @ [command]\<rparr>"

text \<open>
  The task that decodes an Echo or a Ready and sends the command: a conversion that fails is logged,
  and one that panics ends the task, not the application.
\<close>

definition message_task ::
  "hex \<Rightarrow> ('u, 'sig) eth_types \<Rightarrow> (validator_id \<Rightarrow> certificate_id \<Rightarrow> 'sig \<Rightarrow> 'sig double_echo_command) \<Rightarrow>
   proto_certificate_id \<Rightarrow> proto_ecdsa_signature \<Rightarrow> proto_validator_id \<Rightarrow> ('db, 'sig, 'w) app_context \<Rightarrow>
   ('db, 'sig, 'w) app_context" where
  "message_task H T command cid signature vid a =
     (case (certificate_id_from_proto cid, validator_id_from_proto H vid) of
        (Inr cid, Inr vid) \<Rightarrow>
          (case (signature_from_proto T signature :: unit failure + 'sig) of
             Inr signature \<Rightarrow> app_command (command vid cid signature) a
           | Inl _ \<Rightarrow> a)
      | _ \<Rightarrow> a)"

definition on_net_event ::
  "'w prost_codec \<Rightarrow> hex \<Rightarrow> ('u, 'sig) eth_types \<Rightarrow> ('p, 'w) net_event \<Rightarrow> ('db, 'sig, 'w) app_context \<Rightarrow>
   ('db, 'sig, 'w) app_context \<times> app_outcome" where
  "on_net_event P H T evt a =
     (case evt of
        NetGossip _ data \<Rightarrow>
          (case decode_request P data of
             Some (Some (ProtoGossip (Some certificate))) \<Rightarrow>
               (case certificate_from_proto H certificate of
                  Inr cert \<Rightarrow>
                    (app_command (CmdBroadcast False cert)
                       (a\<lparr>app_delivery_latency := insert (cert_id cert) (app_delivery_latency a)\<rparr>), AppRunning)
                | Inl (Failed _) \<Rightarrow> (a, AppRunning)
                | Inl Panic \<Rightarrow> (a, AppPanicked))
           | Some (Some (ProtoEcho (Some cid) (Some signature) (Some vid))) \<Rightarrow>
               (message_task H T CmdEcho cid signature vid a, AppRunning)
           | Some (Some (ProtoReady (Some cid) (Some signature) (Some vid))) \<Rightarrow>
               (message_task H T CmdReady cid signature vid a, AppRunning)
           | _ \<Rightarrow> (a, AppRunning))
      | _ \<Rightarrow> (a, AppRunning))"

section \<open>Client events\<close>

datatype api_reply =
    SubmitReply "api_error + pending_result"
  | HeadReply "api_error + (u64 \<times> certificate) option"
  | PendingReply "api_error + (subnet_id \<rightharpoonup> (certificate \<times> u64) option)"

definition broadcast_new_certificate ::
  "certificate \<Rightarrow> bool \<Rightarrow> ('db, 'sig, 'w) app_context \<Rightarrow> ('db, 'sig, 'w) app_context" where
  "broadcast_new_certificate certificate origin a = app_command (CmdBroadcast origin certificate) a"

definition submit_reply :: "storage_error + pending_certificate_id option \<Rightarrow> api_error + pending_result" where
  "submit_reply r =
     (case r of
        Inr (Some pending_id) \<Rightarrow> Inr (ResultInPending pending_id)
      | Inr None \<Rightarrow> Inr ResultAwaitPrecedence
      | Inl (InternalStorage CertificateAlreadyExists) \<Rightarrow> Inr ResultAlreadyDelivered
      | Inl e \<Rightarrow> Inl (ApiStoreError e))"

definition dummy_certificate :: "subnet_id \<Rightarrow> certificate" where
  "dummy_certificate subnet =
     \<lparr>cert_id = DUMMY_INITIAL_CERTIFICATE_ID, prev_id = DUMMY_INITIAL_CERTIFICATE_ID, source_subnet_id = subnet,
      state_root = replicate 32 0, tx_root_hash = replicate 32 0, receipts_root_hash = replicate 32 0,
      target_subnets = [], verifier = 0, stark_proof = [], frost_signature = []\<rparr>"

definition source_head_reply ::
  "('db, 'b) store_env \<Rightarrow> subnet_id \<Rightarrow> 'db validator_store \<Rightarrow> api_error + (u64 \<times> certificate) option" where
  "source_head_reply E subnet s =
     (case map_err (\<lambda>e. case e of
             InternalStorage (MissingHeadForSubnet u) \<Rightarrow> UnknownSubnet u
           | _ \<Rightarrow> UnableToGetSourceHead subnet e)
         (and_then (storage_get_source_head E subnet s) (\<lambda>result.
            case result of
              None \<Rightarrow> Inl (InternalStorage (MissingHeadForSubnet subnet))
            | value \<Rightarrow> Inr value)) of
        Inl (UnknownSubnet u) \<Rightarrow> Inr (Some (0, dummy_certificate u))
      | result \<Rightarrow> result)"

text \<open>The pending certificates of the requested subnets: their numbers, and the walk from the last one.\<close>

definition pending_indexes :: "certificate list \<Rightarrow> subnet_id \<rightharpoonup> u64" where
  "pending_indexes certs =
     fold (\<lambda>cert m. m(source_subnet_id cert \<mapsto> (case m (source_subnet_id cert) of Some n \<Rightarrow> n | None \<Rightarrow> 0) + 1)) certs Map.empty"

fun last_pending_walk ::
  "(subnet_id \<rightharpoonup> u64) \<Rightarrow> certificate list \<Rightarrow> subnet_id set \<times> (subnet_id \<rightharpoonup> (certificate \<times> u64) option) \<Rightarrow>
   subnet_id set \<times> (subnet_id \<rightharpoonup> (certificate \<times> u64) option)" where
  "last_pending_walk indexes [] (subnet_ids, result) = (subnet_ids, result)"
| "last_pending_walk indexes (cert # certs) (subnet_ids, result) =
     (let u = source_subnet_id cert;
          (subnet_ids, result) = (if u \<in> subnet_ids
            then (subnet_ids - {u}, result(u \<mapsto> Some (cert, the (indexes u)))) else (subnet_ids, result))
      in if subnet_ids = {} then (subnet_ids, result) else last_pending_walk indexes certs (subnet_ids, result))"

definition last_pending_reply ::
  "('db, 'b) store_env \<Rightarrow> subnet_id set \<Rightarrow> 'db validator_store \<Rightarrow> subnet_id \<rightharpoonup> (certificate \<times> u64) option" where
  "last_pending_reply E subnet_ids s =
     (let none = (\<lambda>u. if u \<in> subnet_ids then Some None else None);
          (rest, result) = (case get_pending_certificates E s of
              Inr items \<Rightarrow> last_pending_walk (pending_indexes (map snd items)) (rev (map snd items)) (subnet_ids, none)
            | Inl _ \<Rightarrow> (subnet_ids, none))
      in (\<lambda>u. if u \<in> rest then Some None else result u))"

fun on_api_event ::
  "('db, 'b) store_env \<Rightarrow> api_event \<Rightarrow> ('db, 'sig, 'w) app_context \<Rightarrow> ('db, 'sig, 'w) app_context \<times> api_reply" where
  "on_api_event E (ApiCertificateSubmitted certificate) a =
     (let a = a\<lparr>app_delivery_latency := insert (cert_id certificate) (app_delivery_latency a)\<rparr>;
          (store, r) = insert_pending_certificate E certificate (app_store a)
      in (broadcast_new_certificate certificate True (a\<lparr>app_store := store\<rparr>), SubmitReply (submit_reply r)))"
| "on_api_event E (ApiGetSourceHead subnet) a = (a, HeadReply (source_head_reply E subnet (app_store a)))"
| "on_api_event E (ApiGetLastPendingCertificates subnet_ids) a =
     (a, PendingReply (Inr (last_pending_reply E subnet_ids (app_store a))))"

section \<open>The loop\<close>

datatype ('p, 'sig, 'w) app_input =
    InDelivery certificate_delivered certificate_positions
  | InProtocol "'sig protocol_event"
  | InNetwork "('p, 'w) net_event"
  | InApi api_event
  | InSynchronizer
  | InShutdown

text \<open>One turn of the loop of \<open>run\<close>.\<close>

fun app_step ::
  "'w prost_codec \<Rightarrow> hex \<Rightarrow> ('u, 'sig) eth_types \<Rightarrow> ('db, 'b) store_env \<Rightarrow> ('p, 'sig, 'w) app_input \<Rightarrow>
   ('db, 'sig, 'w) app_context \<Rightarrow> ('db, 'sig, 'w) app_context \<times> app_outcome" where
  "app_step P H T E (InDelivery cd positions) a =
     (a\<lparr>app_delivery_latency := app_delivery_latency a - {cert_id (cd_certificate cd)}\<rparr>, AppRunning)"
| "app_step P H T E (InProtocol evt) a = (on_protocol_event P T evt a, AppRunning)"
| "app_step P H T E (InNetwork evt) a = on_net_event P H T evt a"
| "app_step P H T E (InApi event) a = (fst (on_api_event E event a), AppRunning)"
| "app_step P H T E InSynchronizer a = (a, AppRunning)"
| "app_step P H T E InShutdown a = (a, AppShutdown)"

fun app_run ::
  "'w prost_codec \<Rightarrow> hex \<Rightarrow> ('u, 'sig) eth_types \<Rightarrow> ('db, 'b) store_env \<Rightarrow> ('p, 'sig, 'w) app_input list \<Rightarrow>
   ('db, 'sig, 'w) app_context \<Rightarrow> ('db, 'sig, 'w) app_context \<times> app_outcome" where
  "app_run P H T E [] a = (a, AppRunning)"
| "app_run P H T E (i # is) a =
     (case app_step P H T E i a of
        (a, AppRunning) \<Rightarrow> app_run P H T E is a
      | stopped \<Rightarrow> stopped)"

section \<open>Messages between nodes\<close>

text \<open>What a protocol event publishes, and the command that stands for it at a node that receives it.\<close>

fun event_message :: "'w prost_codec \<Rightarrow> ('u, 'sig) eth_types \<Rightarrow> 'sig protocol_event \<Rightarrow> (string \<times> 'w) option" where
  "event_message P T (EvGossip cert) =
     Some (TOPOS_GOSSIP, encode_to_vec P (Some (ProtoGossip (Some (certificate_to_proto cert)))))"
| "event_message P T (EvEcho cid sg vid) =
     Some (TOPOS_ECHO, encode_to_vec P (Some (ProtoEcho (Some (certificate_id_to_proto cid)) (Some (signature_to_proto T sg))
       (Some (validator_id_to_proto vid)))))"
| "event_message P T (EvReady cid sg vid) =
     Some (TOPOS_READY, encode_to_vec P (Some (ProtoReady (Some (certificate_id_to_proto cid)) (Some (signature_to_proto T sg))
       (Some (validator_id_to_proto vid)))))"
| "event_message P T _ = None"

fun event_command :: "'sig protocol_event \<Rightarrow> 'sig double_echo_command option" where
  "event_command (EvGossip cert) = Some (CmdBroadcast False cert)"
| "event_command (EvEcho cid sg vid) = Some (CmdEcho vid cid sg)"
| "event_command (EvReady cid sg vid) = Some (CmdReady vid cid sg)"
| "event_command _ = None"

fun wf_event :: "'sig protocol_event \<Rightarrow> bool" where
  "wf_event (EvGossip cert) \<longleftrightarrow> wf_certificate cert"
| "wf_event (EvEcho cid sg vid) \<longleftrightarrow> wf_certificate_id cid \<and> length (vid_bytes vid) = VALIDATOR_ID_LENGTH"
| "wf_event (EvReady cid sg vid) \<longleftrightarrow> wf_certificate_id cid \<and> length (vid_bytes vid) = VALIDATOR_ID_LENGTH"
| "wf_event _ \<longleftrightarrow> True"

lemma event_message_None: "event_message P T ev = None \<longleftrightarrow> event_command ev = None"
  by (cases ev) simp_all

lemma event_message_topic:
  "event_message P T ev = Some (t, d) \<Longrightarrow> t \<in> {TOPOS_GOSSIP, TOPOS_ECHO, TOPOS_READY}"
  by (cases ev) auto

lemma protocol_events_published:
  "app_published (fold (on_protocol_event P T) evs a) = app_published a @ List.map_filter (event_message P T) evs"
proof (induction evs arbitrary: a)
  case (Cons ev evs)
  then show ?case by (cases ev) (simp_all add: app_publish_def List.map_filter_simps)
qed (simp add: List.map_filter_simps)

lemma message_received:
  assumes "prost_laws P" and "eth_types_laws T" and "wf_event ev" and "event_message P T ev = Some (t, d)"
  obtains a' where "on_net_event P H T (NetGossip p d) a = (a', AppRunning)"
    "app_commands a' = app_commands a @ [the (event_command ev)]"
proof -
  have decode: "decode_request P (encode_to_vec P m) = Some m" for m using assms(1) by (simp add: prost_laws_def)
  have sig: "(signature_from_proto T (signature_to_proto T g) :: unit failure + 'c) = Inr g" for g
    by (rule signature_round_trip [OF assms(2)])
  show thesis
  proof (cases ev)
    case (EvGossip cert)
    with assms(3,4) show thesis
      by (intro that) (auto simp: on_net_event_def decode certificate_round_trip app_command_def)
  next
    case (EvEcho cid sg vid)
    with assms(3,4) show thesis
      by (intro that) (auto simp: on_net_event_def decode message_task_def id_round_trips sig app_command_def)
  next
    case (EvReady cid sg vid)
    with assms(3,4) show thesis
      by (intro that) (auto simp: on_net_event_def decode message_task_def id_round_trips sig app_command_def)
  qed (use assms(4) in simp_all)
qed

lemma messages_received:
  assumes "prost_laws P" and "eth_types_laws T" and "\<forall>ev \<in> set evs. wf_event ev \<and> event_message P T ev \<noteq> None"
  shows "\<exists>a'. app_run P H T E (map (\<lambda>ev. InNetwork (NetGossip p (snd (the (event_message P T ev))))) evs) a = (a', AppRunning) \<and>
    app_commands a' = app_commands a @ map (the \<circ> event_command) evs"
  using assms(3)
proof (induction evs arbitrary: a)
  case (Cons ev evs)
  then obtain t d where ev: "wf_event ev" "event_message P T ev = Some (t, d)" by auto
  obtain a1 where a1: "on_net_event P H T (NetGossip p d) a = (a1, AppRunning)"
    "app_commands a1 = app_commands a @ [the (event_command ev)]"
    by (rule message_received [OF assms(1,2) ev])
  obtain a2 where "app_run P H T E (map (\<lambda>ev. InNetwork (NetGossip p (snd (the (event_message P T ev))))) evs) a1 = (a2, AppRunning)"
    "app_commands a2 = app_commands a1 @ map (the \<circ> event_command) evs"
    using Cons.IH [of a1] Cons.prems by auto
  then show ?case using a1 ev(2) by simp
qed simp

text \<open>The events of the broadcast of a certificate by a validator that signs with its own key.\<close>

definition honest_event :: "('w, 'h, 'sig) ethers \<Rightarrow> 'w message_signer \<Rightarrow> 'sig protocol_event \<Rightarrow> bool" where
  "honest_event W signer ev \<longleftrightarrow>
     (\<exists>H ms cert e r d view g. wf_certificate cert \<and>
        ev \<in> set (bs_events (apply_messages H ms
          (broadcast_state_new cert (ValidatorId (public_address signer)) e r d view g (sign_message W signer)))))"

lemma honest_event_cases:
  assumes "honest_event W signer ev"
  obtains cert sg where "wf_certificate cert"
    "ev = EvBroadcast (cert_id cert) \<or> ev = EvGossip cert \<or>
     sign_message W signer (signed_payload (cert_id cert) (ValidatorId (public_address signer))) = Some sg \<and>
     (ev = EvEcho (cert_id cert) sg (ValidatorId (public_address signer)) \<or>
      ev = EvReady (cert_id cert) sg (ValidatorId (public_address signer)))"
proof -
  obtain H ms cert e r d view g where wf: "wf_certificate cert"
    and ev: "ev \<in> set (bs_events (apply_messages H ms
      (broadcast_state_new cert (ValidatorId (public_address signer)) e r d view g (sign_message W signer))))"
    using assms unfolding honest_event_def by blast
  let ?s = "apply_messages H ms (broadcast_state_new cert (ValidatorId (public_address signer)) e r d view g (sign_message W signer))"
  have "bs_log_inv g ?s" by (intro apply_messages_log broadcast_state_new_log)
  then have "ev \<in> set (expected_events g ?s)" using ev by (simp add: bs_log_inv_def)
  then have "ev = EvBroadcast (cert_id cert) \<or> ev = EvGossip cert \<or>
    (\<exists>sg. sign_message W signer (signed_payload (cert_id cert) (ValidatorId (public_address signer))) = Some sg \<and>
     (ev = EvEcho (cert_id cert) sg (ValidatorId (public_address signer)) \<or>
      ev = EvReady (cert_id cert) sg (ValidatorId (public_address signer))))"
    by (auto simp: expected_events_def Let_def own_signature_def split: if_splits option.splits)
  with that [OF wf] show thesis by blast
qed

lemma honest_event_accepted:
  assumes "honest_event W signer ev" and "ethers_laws W" and "message_signer_new W key = Inr signer"
    and "length (public_address signer) = VALIDATOR_ID_LENGTH" and "ValidatorId (public_address signer) \<in> V"
  shows "wf_event ev" and "event_command ev = Some cmd \<Longrightarrow> cmd_authenticated W V cmd"
proof -
  obtain cert sg where ev: "wf_certificate cert"
    "ev = EvBroadcast (cert_id cert) \<or> ev = EvGossip cert \<or>
     sign_message W signer (signed_payload (cert_id cert) (ValidatorId (public_address signer))) = Some sg \<and>
     (ev = EvEcho (cert_id cert) sg (ValidatorId (public_address signer)) \<or>
      ev = EvReady (cert_id cert) sg (ValidatorId (public_address signer)))"
    by (rule honest_event_cases [OF assms(1)])
  then show "wf_event ev" using assms(4) by (auto simp: wf_certificate_def)
  show "cmd_authenticated W V cmd" if "event_command ev = Some cmd"
    using that ev assms(5) verify_signed_message [OF assms(2,3)] by (auto simp: authenticated_def signed_payload_def)
qed

section \<open>From the broadcast of one node to the broadcast of another\<close>

definition gossip_commands :: "'w gossip_action list \<Rightarrow> (string \<times> 'w) list" where
  "gossip_commands acts =
     List.map_filter (\<lambda>act. case act of GossipCommand topic data \<Rightarrow> Some (topic, data) | GossipTick \<Rightarrow> None) acts"

lemma published_on_commands: "published_on t acts = map snd (filter (\<lambda>m. fst m = t) (gossip_commands acts))"
proof (induction acts)
  case (Cons a acts)
  then show ?case by (cases a) (simp_all add: gossip_commands_def List.map_filter_simps)
qed (simp add: gossip_commands_def List.map_filter_simps)

lemma mset_by_topic:
  assumes "\<forall>m \<in> set ms. fst m \<in> {TOPOS_GOSSIP, TOPOS_ECHO, TOPOS_READY}"
  shows "mset (map snd (filter (\<lambda>m. fst m = TOPOS_GOSSIP) ms)) + mset (map snd (filter (\<lambda>m. fst m = TOPOS_ECHO) ms)) +
    mset (map snd (filter (\<lambda>m. fst m = TOPOS_READY) ms)) = mset (map snd ms)"
  using assms by (induction ms) auto

lemma mset_map_eq_obtain:
  assumes "mset xs = mset (map f ys)"
  obtains zs where "mset zs = mset ys" "xs = map f zs"
  using assms
proof (induction xs arbitrary: ys thesis)
  case (Cons x xs)
  have "x \<in> set (map f ys)" using Cons.prems(2) by (metis list.set_intros(1) set_mset_mset)
  then obtain y where y: "y \<in> set ys" "x = f y" by auto
  then have ys: "mset ys = add_mset y (mset (remove1 y ys))" by simp
  have "add_mset x (mset xs) = image_mset f (mset ys)" using Cons.prems(2) by simp
  also have "\<dots> = add_mset (f y) (mset (map f (remove1 y ys)))" by (subst ys) simp
  finally have "mset xs = mset (map f (remove1 y ys))" using y(2) by simp
  then obtain zs where "mset zs = mset (remove1 y ys)" "xs = map f zs" using Cons.IH by blast
  with y show ?case by (intro Cons.prems(1) [of "y # zs"]) simp_all
qed simp

lemma gossip_received:
  assumes "batch_laws C" and "gossip_run C (acts @ replicate k GossipTick) (gossip_new env_size) = (g, msgs)"
    and "\<forall>m \<in> set (gossip_commands acts). fst m \<in> {TOPOS_GOSSIP, TOPOS_ECHO, TOPOS_READY}"
    and "length (gossip_commands acts) \<le> k * (case env_size of Some n \<Rightarrow> n | None \<Rightarrow> 10)"
  shows "mset (net_events C p msgs) = mset (map (NetGossip p \<circ> snd) (gossip_commands acts))"
proof -
  have recv: "received_on C p t msgs = map (NetGossip p) (published_on t acts)"
    if "t \<in> {TOPOS_GOSSIP, TOPOS_ECHO, TOPOS_READY}" for t
  proof (rule gossip_drained [OF assms(1) that _ assms(2)])
    show "length (published_on t acts) \<le> k * (case env_size of Some n \<Rightarrow> n | None \<Rightarrow> 10)"
      unfolding published_on_commands length_map by (rule order.trans [OF length_filter_le assms(4)])
  qed
  have "mset (net_events C p msgs) = image_mset (NetGossip p)
      (mset (published_on TOPOS_GOSSIP acts) + mset (published_on TOPOS_ECHO acts) + mset (published_on TOPOS_READY acts))"
    by (simp add: net_events_topics recv)
  also have "mset (published_on TOPOS_GOSSIP acts) + mset (published_on TOPOS_ECHO acts) + mset (published_on TOPOS_READY acts) =
      mset (map snd (gossip_commands acts))"
    unfolding published_on_commands by (rule mset_by_topic [OF assms(3)])
  finally show ?thesis by (simp add: multiset.map_comp)
qed

text \<open>
  C6: What a validator sends is accepted by its peers. The events of the broadcasts of a validator
  are published by its application, batched by its network, taken apart and decoded by the
  application of a peer, without a panic, into one broadcast command per message: the same
  certificates, identifiers and signatures, each once, and each passes the authentication of the peer
  when the validator is in its validator set.
\<close>

theorem honest_message_accepted:
  assumes "prost_laws P" and "eth_types_laws T" and "batch_laws C" and "ethers_laws W"
    and "message_signer_new W key = Inr signer" and "length (public_address signer) = VALIDATOR_ID_LENGTH"
    and "ValidatorId (public_address signer) \<in> V"
    and "\<forall>ev \<in> set evs. honest_event W signer ev"
    and "gossip_commands acts = app_published (fold (on_protocol_event P T) evs (app_context_new store))"
    and "length evs \<le> k * (case env_size of Some n \<Rightarrow> n | None \<Rightarrow> 10)"
    and "gossip_run C (acts @ replicate k GossipTick) (gossip_new env_size) = (g, msgs)"
  shows "\<exists>b'. app_run P H T E (map InNetwork (net_events C p msgs)) b = (b', AppRunning) \<and>
    mset (app_commands b') = mset (app_commands b) + mset (List.map_filter event_command evs) \<and>
    (\<forall>cmd \<in> set (List.map_filter event_command evs). cmd_authenticated W V cmd)"
proof -
  let ?msg = "event_message P T" and ?sent = "filter (\<lambda>ev. event_message P T ev \<noteq> None) evs"
  have honest: "wf_event ev" "event_command ev = Some cmd \<Longrightarrow> cmd_authenticated W V cmd" if "ev \<in> set evs" for ev cmd
    using honest_event_accepted [OF _ assms(4-7)] assms(8) that by blast+
  have cmds: "gossip_commands acts = map (the \<circ> ?msg) ?sent"
    using assms(9) by (simp add: protocol_events_published app_context_new_def List.map_filter_def)
  have "\<forall>m \<in> set (gossip_commands acts). fst m \<in> {TOPOS_GOSSIP, TOPOS_ECHO, TOPOS_READY}"
    unfolding cmds using event_message_topic [of P T] by fastforce
  moreover have "length (gossip_commands acts) \<le> k * (case env_size of Some n \<Rightarrow> n | None \<Rightarrow> 10)"
    unfolding cmds length_map by (rule order.trans [OF length_filter_le assms(10)])
  ultimately have "mset (net_events C p msgs) = mset (map (NetGossip p \<circ> snd) (gossip_commands acts))"
    by (rule gossip_received [OF assms(3,11)])
  then have "mset (net_events C p msgs) = mset (map (\<lambda>ev. NetGossip p (snd (the (?msg ev)))) ?sent)"
    by (simp add: cmds comp_def)
  then obtain zs where zs: "mset zs = mset ?sent" "net_events C p msgs = map (\<lambda>ev. NetGossip p (snd (the (?msg ev)))) zs"
    by (rule mset_map_eq_obtain)
  have "\<forall>ev \<in> set zs. wf_event ev \<and> ?msg ev \<noteq> None"
    using honest(1) mset_eq_setD [OF zs(1)] by auto
  from messages_received [OF assms(1,2) this, of H E p b] obtain b' where
    b': "app_run P H T E (map InNetwork (net_events C p msgs)) b = (b', AppRunning)"
      "app_commands b' = app_commands b @ map (the \<circ> event_command) zs"
    by (auto simp: zs(2) comp_def)
  have "mset (map (the \<circ> event_command) zs) = mset (List.map_filter event_command evs)"
    using zs(1) by (simp add: List.map_filter_def event_message_None flip: multiset.map_comp)
  with b' honest(2) show ?thesis by (auto simp: List.map_filter_def)
qed

section \<open>Messages that stop a node\<close>

lemma on_net_event_outcome:
  "snd (on_net_event P H T evt a) = AppPanicked \<longleftrightarrow>
     (\<exists>peer data c. evt = NetGossip peer data \<and> decode_request P data = Some (Some (ProtoGossip (Some c))) \<and>
        certificate_from_proto H c = Inl Panic)"
  "snd (on_net_event P H T evt a) \<noteq> AppShutdown"
  by (auto simp: on_net_event_def split: net_event.splits option.splits proto_double_echo_request.splits sum.splits failure.splits)

text \<open>
  C40: A message of any peer can stop the application of a node: it panics exactly for a gossiped
  certificate without a proof or without a signature that is otherwise valid. No other event of the
  network, whatever its bytes, stops it.
\<close>

theorem gossip_panics_application:
  assumes "hex_laws H"
  shows "(snd (on_net_event P H T evt a) = AppPanicked \<longleftrightarrow>
    (\<exists>peer data c x. evt = NetGossip peer data \<and> decode_request P data = Some (Some (ProtoGossip (Some c))) \<and>
       (pc_proof c = None \<or> pc_signature c = None) \<and>
       certificate_from_proto H (c\<lparr>pc_proof := Some [], pc_signature := Some []\<rparr>) = Inr x)) \<and>
    snd (on_net_event P H T evt a) \<noteq> AppShutdown"
  unfolding on_net_event_outcome(1) certificate_conversion_panics [OF assms] using on_net_event_outcome(2) by blast

section \<open>From the client to the broadcast\<close>


section \<open>The head of a subnet\<close>

lemma storage_get_source_head_reliable:
  assumes "readable_store E s" and "wf_subnet_id u"
  defines "v \<equiv> fullnode_view E (vs_fullnode s)"
  shows "storage_get_source_head E u s =
    Inr (map_option (\<lambda>(cid, p). (p, cd_certificate (head_delivered v u))) (fv_source_list v u))"
proof -
  note r = readable_storeD [OF assms(1)]
  have head: "validator_get_source_head E u s = Inr (map_option
      (\<lambda>(cid, p). \<lparr>sh_certificate_id = cid, sh_subnet_id = u, sh_position = p\<rparr>) (fv_source_list v u))"
    using get_source_head_reliable [OF r(1,2) assms(2)] by (simp add: validator_get_source_head_def v_def)
  show ?thesis
  proof (cases "fv_source_list v u")
    case (Some e)
    obtain cid p where e: "e = (cid, p)" by (cases e)
    note stored = head_stored [OF r(3) [folded v_def] Some [unfolded e]]
    have "validator_get_certificate E cid s = Inr (Some (head_delivered v u))"
      using get_certificate_reliable [OF r(1,2) stored(2)] stored(1)
      by (simp add: validator_get_certificate_def v_def fullnode_view_def)
    then show ?thesis by (simp add: storage_get_source_head_def head Some e)
  qed (simp add: storage_get_source_head_def head)
qed

lemma source_head_reply_reliable:
  assumes "readable_store E s" and "wf_subnet_id u"
  defines "v \<equiv> fullnode_view E (vs_fullnode s)"
  shows "source_head_reply E u s = Inr (Some (case fv_source_list v u of
      Some (cid, p) \<Rightarrow> (p, cd_certificate (head_delivered v u))
    | None \<Rightarrow> (0, dummy_certificate u)))"
  using storage_get_source_head_reliable [OF assms(1,2)]
  by (auto simp: source_head_reply_def v_def split: option.split prod.split)

lemma dummy_certificate_wf: "wf_subnet_id u \<Longrightarrow> wf_certificate (dummy_certificate u)"
  by (simp add: wf_certificate_def dummy_certificate_def DUMMY_INITIAL_CERTIFICATE_ID_def wf_certificate_id_def)

lemma client_source_head:
  assumes "wf_certificate c"
  shows "client_get_source_head H u (Inr (source_head_response (Some (p, c)))) = Replied (Inr (c, p))"
  using certificate_round_trip [OF assms, of H] by (simp add: client_get_source_head_def source_head_response_def)

text \<open>
  C13: Where a sequencer starts, from the store of the node: with no certificate pending, it continues
  from the head the node has delivered for its subnet, at its position. For a subnet without a
  delivered certificate the node answers with a certificate made up for it, which the sequencer takes
  for the absence of a certificate. The error for an empty head is never sent.
\<close>

theorem source_head_reaches_sequencer:
  assumes "readable_store E s" and "wf_subnet_id u" and "client_request (GetSourceHead u) = Some (GetSourceHeadRequest p)"
    and "\<forall>cid cd. fv_certificates (fullnode_view E (vs_fullnode s)) cid = Some cd \<longrightarrow> wf_certificate (cd_certificate cd)"
    and "pending u = Some None"
  defines "v \<equiv> fullnode_view E (vs_fullnode s)"
  shows "\<exists>head. fst (grpc_get_source_head p True (Some (source_head_reply E u s))) = [InternalGetSourceHead u] \<and>
    worker_source_head u (Inr pending) (reply_result (client_get_source_head H u
      (map_err status_text (snd (grpc_get_source_head p True (Some (source_head_reply E u s))))))) = Inr head \<and>
    launch_source_head head = (case fv_source_list v u of
        Some (cid, position) \<Rightarrow> if cid = INITIAL_CERTIFICATE_ID then None else Some (cid, position)
      | None \<Rightarrow> None)"
proof -
  let ?h = "case fv_source_list v u of Some (cid, p) \<Rightarrow> (p, cd_certificate (head_delivered v u)) | None \<Rightarrow> (0, dummy_certificate u)"
  note r = readable_storeD(3) [OF assms(1), folded v_def]
  have reply: "source_head_reply E u s = Inr (Some ?h)" unfolding v_def by (rule source_head_reply_reliable [OF assms(1,2)])
  have p: "p = Some (subnet_id_to_proto u)" using assms(3) by simp
  have grpc: "grpc_get_source_head p True (Some (source_head_reply E u s)) = ([InternalGetSourceHead u], Inr (source_head_response (Some ?h)))"
    by (simp add: grpc_get_source_head_def p reply id_round_trips assms(2))
  have wf: "wf_certificate (snd ?h)"
    using assms(4) head_stored(1) [OF r] dummy_certificate_wf [OF assms(2)] unfolding v_def
    by (fastforce split: option.split)
  have cid: "cert_id (cd_certificate (head_delivered v u)) = cid" if "fv_source_list v u = Some (cid, q)" for cid q
    using consistent_certificatesD(1) [OF _ head_stored(1) [OF r that]] r by (simp add: store_consistent_def)
  have "client_get_source_head H u (Inr (source_head_response (Some ?h))) = Replied (Inr (snd ?h, fst ?h))"
    using client_source_head [OF wf, of H u "fst ?h"] by simp
  then show ?thesis
    using cid
    by (auto simp: grpc worker_source_head_def reply_result_def assms(5) source_last_certificate_def launch_source_head_def
        dummy_certificate_def DUMMY_INITIAL_CERTIFICATE_ID_def INITIAL_CERTIFICATE_ID_def split: option.split)
qed

section \<open>Pending certificates of subnets\<close>

text \<open>The last of the certificates of a subnet, with their number.\<close>

definition last_pending_of :: "certificate list \<Rightarrow> subnet_id \<Rightarrow> (certificate \<times> u64) option" where
  "last_pending_of certs u =
     (let own = filter (\<lambda>c. source_subnet_id c = u) certs
      in if own = [] then None else Some (last own, of_nat (length own)))"

lemma pending_indexes_eq:
  "pending_indexes certs u =
     (let own = filter (\<lambda>c. source_subnet_id c = u) certs in if own = [] then None else Some (of_nat (length own)))"
  by (induction certs rule: rev_induct) (auto simp: pending_indexes_def Let_def)

lemma find_rev: "find Q (rev xs) = (if filter Q xs = [] then None else Some (last (filter Q xs)))"
  by (induction xs rule: rev_induct) auto

lemma last_pending_walk_exact:
  assumes "last_pending_walk indexes certs (subnet_ids, result) = (rest, result')"
  shows "(if u \<in> rest then Some None else result' u) =
    (if u \<in> subnet_ids then (case find (\<lambda>c. source_subnet_id c = u) certs of
        Some c \<Rightarrow> Some (Some (c, the (indexes u)))
      | None \<Rightarrow> Some None)
     else result u)"
  using assms
proof (induction certs arbitrary: subnet_ids result)
  case (Cons c certs)
  let ?v = "source_subnet_id c"
  define S r where "S = subnet_ids - {?v}" and "r = (if ?v \<in> subnet_ids then result(?v \<mapsto> Some (c, the (indexes ?v))) else result)"
  then have walk: "(if S = {} then (S, r) else last_pending_walk indexes certs (S, r)) = (rest, result')"
    using Cons.prems by (auto simp: Let_def split: if_splits)
  show ?case
  proof (cases "S = {}")
    case True
    then show ?thesis using walk by (auto simp: S_def r_def)
  next
    case False
    then have "last_pending_walk indexes certs (S, r) = (rest, result')" using walk by simp
    from Cons.IH [OF this] show ?thesis by (auto simp: S_def r_def)
  qed
qed simp

lemma last_pending_reply_exact:
  assumes "get_pending_certificates E s = Inr items"
  shows "last_pending_reply E subnet_ids s =
    (\<lambda>u. if u \<in> subnet_ids then Some (last_pending_of (map snd items) u) else None)"
proof
  fix u
  let ?certs = "map snd items" and ?none = "\<lambda>u. if u \<in> subnet_ids then Some None else None"
  obtain rest result where walk: "last_pending_walk (pending_indexes ?certs) (rev ?certs) (subnet_ids, ?none) = (rest, result)"
    by (cases "last_pending_walk (pending_indexes ?certs) (rev ?certs) (subnet_ids, ?none)")
  then have "last_pending_reply E subnet_ids s u = (if u \<in> rest then Some None else result u)"
    by (simp add: last_pending_reply_def assms)
  with last_pending_walk_exact [OF walk, of u]
  show "last_pending_reply E subnet_ids s u = (if u \<in> subnet_ids then Some (last_pending_of ?certs u) else None)"
    by (simp add: find_rev pending_indexes_eq last_pending_of_def Let_def)
qed

section \<open>The stores\<close>

text \<open>The application adds pending certificates; it never changes a delivered one.\<close>

lemma on_net_event_store: "app_store (fst (on_net_event P H T evt a)) = app_store a"
  by (auto simp: on_net_event_def message_task_def app_command_def
      split: net_event.splits option.splits proto_double_echo_request.splits sum.splits failure.splits)

lemma on_protocol_event_store: "app_store (on_protocol_event P T evt a) = app_store a"
  by (cases evt) (simp_all add: app_publish_def)

lemma app_step_store:
  assumes "validator_ready E (app_store a)"
  shows "validator_ready E (app_store (fst (app_step P H T E i a))) \<and>
    vs_fullnode (app_store (fst (app_step P H T E i a))) = vs_fullnode (app_store a)"
proof (cases i)
  case (InApi event)
  then show ?thesis
    using assms insert_pending_keeps [OF assms]
    by (cases event) (auto simp: broadcast_new_certificate_def app_command_def Let_def split: prod.split)
qed (use assms in \<open>simp_all add: on_net_event_store on_protocol_event_store\<close>)

lemma app_run_store:
  assumes "validator_ready E (app_store a)"
  shows "validator_ready E (app_store (fst (app_run P H T E is a))) \<and>
    vs_fullnode (app_store (fst (app_run P H T E is a))) = vs_fullnode (app_store a)"
  using assms
proof (induction "is" arbitrary: a)
  case (Cons i "is")
  note step = app_step_store [OF Cons.prems, of P H T i]
  obtain a1 out where "app_step P H T E i a = (a1, out)" by (cases "app_step P H T E i a")
  with step Cons.IH [of a1] show ?case by (cases out) simp_all
qed simp

end
