(* ===== verification/Edge_Examples.thy ===== *)
theory Edge_Examples
  imports Tce_Api_Runtime Synchronizer "HOL-Library.Product_Lexorder"
begin

text \<open>
  Concrete clients, peers and stores: the witnesses of the properties of the client interface and
  of the synchronizer. The hash iteration orders are the ascending ones.
\<close>

abbreviation uuid_iter :: "uuid set \<Rightarrow> uuid list" where
  "uuid_iter \<equiv> sorted_list_of_set"

abbreviation id_iter :: "certificate_id set \<Rightarrow> certificate_id list" where
  "id_iter \<equiv> sorted_list_of_set"

lemma iter_laws: "hash_iter_laws uuid_iter" "hash_iter_laws id_iter"
  by (simp_all add: hash_iter_laws_def)

section \<open>A client\<close>

definition client_uuid :: uuid where
  "client_uuid = (1, 2)"

definition client_checkpoint :: target_checkpoint where
  "client_checkpoint = \<lparr>tc_target_subnet_ids = [example_target], tc_positions = []\<rparr>"

definition client_position :: target_stream_position where
  "client_position = \<lparr>tsp_target_subnet_id = example_target, tsp_source_subnet_id = example_source, tsp_position = 4,
     tsp_certificate_id = None\<rparr>"

definition client_listeners :: stream_positions where
  "client_listeners = str_listeners (fst (handle_checkpoint client_checkpoint (stream_new client_uuid)))"

definition client_history :: "api_input list" where
  "client_history = watching_history client_uuid 3 client_listeners ([], [], [], [])"

lemma client_wf: "wf_target_checkpoint client_checkpoint" "wf_target_stream_position client_position"
  using example_subnets(3,4)
  by (simp_all add: client_checkpoint_def client_position_def wf_target_checkpoint_def wf_target_stream_position_def)

lemma client_history_new: "new_streams client_history = [client_uuid]"
  by (simp add: client_history_def watching_history_def new_streams_def List.map_filter_simps)

lemma client_watching:
  "phase client_history client_uuid = Opened 3" "client_uuid \<in> subscribers client_history example_target"
proof -
  have "\<forall>i \<in> set [] \<union> set [] \<union> set []. \<not> ends_stream client_uuid i"
    "distinct (new_streams (watching_history client_uuid 3 client_listeners ([], [], [], [])))"
    using client_history_new by (simp_all add: client_history_def)
  note watch = watching [OF this]
  have "example_target \<in> dom client_listeners"
    by (simp add: client_listeners_def handle_checkpoint_dom client_checkpoint_def)
  with watch show "phase client_history client_uuid = Opened 3" "client_uuid \<in> subscribers client_history example_target"
    by (simp_all add: client_history_def)
qed

theorem dispatch_refines_subscriptions_witness:
  "(3, PushCertificate (example_certificate 1) [client_position]) \<in>
     set (snd (dispatch_certificate subnet_iter uuid_iter (example_certificate 1) [example_target \<mapsto> client_position]
       (api_run client_history)))"
proof -
  let ?S = "{(t, u). t \<in> set (target_subnets (example_certificate 1)) \<and> [example_target \<mapsto> client_position] t \<noteq> None \<and>
    u \<in> subscribers client_history t \<and> is_opened (phase client_history u)}"
  have "distinct (new_streams client_history)" by (simp add: client_history_new)
  note eq = dispatch_refines_subscriptions [OF this subnet_iter_laws iter_laws(1), of "example_certificate 1" "[example_target \<mapsto> client_position]"]
  have "?S \<subseteq> {example_target} \<times> subscribers client_history example_target" by (auto simp: example_subnets)
  then have "finite ?S" by (rule finite_subset) (simp add: finite_subscribers)
  moreover have "(example_target, client_uuid) \<in> ?S"
    using client_watching by (simp add: example_subnets is_opened_def)
  ultimately have "(3, PushCertificate (example_certificate 1) [client_position]) \<in>#
      mset (snd (dispatch_certificate subnet_iter uuid_iter (example_certificate 1) [example_target \<mapsto> client_position]
        (api_run client_history)))"
    unfolding eq by (auto intro!: rev_image_eqI [of "(example_target, client_uuid)"] simp: client_watching)
  then show ?thesis by simp
qed

definition one_validator :: "mem_value mem_db validator_store" where
  "one_validator = empty_validator\<lparr>vs_fullnode := one_fullnode 7\<rparr>"

lemma one_validator_readable: "readable_store mem_env one_validator"
  using empty_validator_ready one_fullnode_ready(1,2) [of 7] mem_env_reliable
  by (simp add: readable_store_def one_validator_def validator_ready_def)

theorem sync_task_catches_up_witness:
  "\<exists>commands. sync_task_run mem_env subnet_iter (\<lambda>_. one_validator) (\<lambda>_. False) (\<lambda>_. True)
       (sync_task_new client_uuid client_listeners 3 0) = (commands, client_uuid, SyncDone) \<and>
     length (filter (for_stream example_target example_source) commands) = 1"
proof -
  have "\<forall>p \<in> set (tc_positions client_checkpoint). tsp_target_subnet_id p \<in> set (tc_target_subnet_ids client_checkpoint)"
    by (simp add: client_checkpoint_def)
  from sync_task_catches_up [OF one_validator_readable subnet_iter_laws client_wf(1) this, of client_uuid 3 0]
  show ?thesis
    by (auto simp: client_listeners_def stream_batch_def one_validator_def one_fullnode_positions(1)
        checkpoint_position_def client_checkpoint_def)
qed

theorem watched_certificate_received_witness:
  "(3, PushCertificate (example_certificate 1) [client_position]) \<in>
     set (snd (dispatch_certificate subnet_iter uuid_iter (example_certificate 1) [example_target \<mapsto> client_position]
       (api_run client_history))) \<and>
   inbound_response lower_hex (Inr (Some (outbound_event (OutCertificatePushed (example_certificate 1) [client_position])))) =
     Inr (Some (example_certificate 1, client_position), [])"
proof -
  obtain request where request: "client_request (client_open_stream example_target []) = Some (OpenStreamRequest request)"
    by (simp add: client_open_stream_def)
  have pre: "wf_target_checkpoint \<lparr>tc_target_subnet_ids = [example_target], tc_positions = []\<rparr>"
    "\<forall>i \<in> set [] \<union> set [] \<union> set []. \<not> ends_stream client_uuid i"
    "distinct (new_streams (watching_history client_uuid 3 client_listeners ([], [], [], [])))"
    "client_listeners = str_listeners (fst (handle_checkpoint \<lparr>tc_target_subnet_ids = [example_target], tc_positions = []\<rparr> (stream_new client_uuid)))"
    "example_target \<in> set (target_subnets (example_certificate 1))"
    using client_wf(1) client_history_new
    by (simp_all add: client_checkpoint_def client_history_def client_listeners_def example_subnets)
  from watched_certificate_received [OF pre(1) request pre(2-4) wf_example_certificate pre(5) _ client_wf(2)
      subnet_iter_laws iter_laws(1), of "[example_target \<mapsto> client_position]" lower_hex]
  show ?thesis by (auto simp: client_history_def)
qed

section \<open>A peer\<close>

definition one_peer :: "nat gatekeeper" where
  "one_peer = gatekeeper_build (Some [5])"

lemma one_peer_target: "target_peer (\<lambda>xs. xs) one_peer = Inr 5"
  by (simp add: target_peer_def get_random_peers_def one_peer_def gatekeeper_build_def Let_def List.map_filter_simps)

lemma empty_validator_readable: "readable_store mem_env empty_validator"
  using empty_validator_ready mem_env_reliable
  by (simp add: readable_store_def empty_validator_views store_consistent_def consistent_certificates_def
      consistent_targets_def empty_view_def target_positions_def down_closed_def)

text \<open>A network whose only peer answers every request with the same proof and certificate.\<close>

definition claiming_network :: "proof_of_delivery \<Rightarrow> certificate \<Rightarrow> nat sync_network" where
  "claiming_network p c =
     \<lparr>net_checkpoint = (\<lambda>_ r. Some (Inr \<lparr>pcp_request_id = pcr_request_id r,
        pcp_checkpoint_diff = [\<lparr>pce_key = subnet_id_to_string lower_hex (source_subnet_id c),
          pce_value = [proof_of_delivery_to_proto p]\<rparr>]\<rparr>)),
      net_fetch = (\<lambda>_ r. Some (Inr \<lparr>pfp_request_id = pfr_request_id r, pfp_certificates = [certificate_to_proto c]\<rparr>))\<rparr>"

theorem peer_certificate_unverified_witness:
  "\<exists>s1. initiate_request subnet_iter id_iter lower_hex mem_env
       (claiming_network (cd_proof_of_delivery (chain_delivered 7)) (chain_certificate 7 INITIAL_CERTIFICATE_ID))
       (\<lambda>_ xs. xs) (\<lambda>_. client_uuid) one_peer empty_validator =
         (s1, [chain_certificate 7 INITIAL_CERTIFICATE_ID], Inr ()) \<and>
     pod_readies (cd_proof_of_delivery (chain_delivered 7)) = [] \<and>
     validator_get_certificate mem_env (CertificateId (replicate 32 7))
       (run_spawned mem_env [chain_certificate 7 INITIAL_CERTIFICATE_ID] s1) = Inr (Some (chain_delivered 7))"
proof -
  let ?c = "chain_certificate 7 INITIAL_CERTIFICATE_ID" and ?p = "cd_proof_of_delivery (chain_delivered 7)"
  have cd: "\<lparr>cd_certificate = ?c, cd_proof_of_delivery = ?p\<rparr> = chain_delivered 7" by (simp add: chain_delivered_def)
  have claims: "claims_certificate lower_hex (claiming_network ?p ?c) 5 ?p ?c"
    by (simp add: claims_certificate_def claiming_network_def)
  have accepted: "wf_delivered \<lparr>cd_certificate = ?c, cd_proof_of_delivery = ?p\<rparr>" "pod_certificate_id ?p = cert_id ?c"
    "fv_streams (fullnode_view mem_env (vs_fullnode empty_validator)) (delivery_position ?p) = None"
    "targets_available (fullnode_view mem_env (vs_fullnode empty_validator)) \<lparr>cd_certificate = ?c, cd_proof_of_delivery = ?p\<rparr>"
    "\<forall>k d. pv_precedence (pending_of mem_env empty_validator) k = Some d \<longrightarrow> wf_certificate d"
    "pv_precedence (pending_of mem_env empty_validator) (cert_id ?c) = None"
    using chain_delivered_wf [of 7]
    by (simp_all only: cd empty_validator_views empty_available) (simp_all add: chain_delivered_def empty_view_def)
  have "\<forall>k. target_peer ((\<lambda>_ xs. xs) k) one_peer = Inr 5" by (simp add: one_peer_target)
  from peer_certificate_unverified [OF empty_validator_readable subnet_iter_laws iter_laws(2) lower_hex_laws this claims accepted,
      of "\<lambda>_. client_uuid"]
  obtain s1 where s1: "initiate_request subnet_iter id_iter lower_hex mem_env (claiming_network ?p ?c)
       (\<lambda>_ xs. xs) (\<lambda>_. client_uuid) one_peer empty_validator = (s1, [?c], Inr ())"
    "validator_get_certificate mem_env (CertificateId (replicate 32 7)) (run_spawned mem_env [?c] s1) = Inr (Some (chain_delivered 7))"
    unfolding cd chain_certificate_simps by blast
  moreover have "pod_readies ?p = []" by (simp add: chain_delivered_def)
  ultimately show ?thesis by blast
qed

text \<open>A node with nothing and a peer with one certificate.\<close>

definition honest_network :: "nat sync_network" where
  "honest_network =
     \<lparr>net_checkpoint = (\<lambda>_ r. Some (service_fetch_checkpoint subnet_iter lower_hex mem_env one_validator r)),
      net_fetch = (\<lambda>_ r. Some (service_fetch_certificates mem_env one_validator r))\<rparr>"

theorem honest_peer_catches_up_witness:
  "\<exists>t spawned. initiate_request subnet_iter id_iter lower_hex mem_env honest_network (\<lambda>_ xs. xs) (\<lambda>_. client_uuid)
     one_peer empty_validator = (t, spawned, Inr ()) \<and> set spawned = {example_certificate 1}"
proof -
  let ?v = "fullnode_view mem_env (vs_fullnode empty_validator)" and ?v' = "fullnode_view mem_env (vs_fullnode one_validator)"
  have v': "?v' = deliver_view (example_delivered 1 7) empty_view" using one_fullnode_ready(3) by (simp add: one_validator_def)
  have v: "?v = empty_view" by (simp add: empty_validator_views)
  have cons: "store_consistent empty_view" using readable_storeD(3) [OF empty_validator_readable] by (simp add: v)
  have none: "deliveries_wf empty_view" by (simp add: deliveries_wf_def empty_view_def)
  have "deliveries_wf (deliver_view (example_delivered 1 7) empty_view)"
    by (rule deliveries_wf_deliver [OF none example_delivered_wf cons])
      (simp_all add: example_delivered_def empty_view_def)
  with none have wf: "deliveries_wf ?v" "deliveries_wf ?v'" unfolding v v' by blast+
  have "honest_peer subnet_iter lower_hex mem_env one_validator honest_network 5"
    by (simp add: honest_peer_def honest_network_def)
  moreover have "\<forall>k. target_peer ((\<lambda>_ xs. xs) k) one_peer = Inr 5" by (simp add: one_peer_target)
  moreover have "ahead subnet_iter ?v ?v'" by (simp add: ahead_def v head_proofs_def empty_view_def)
  ultimately obtain t spawned where
    run: "initiate_request subnet_iter id_iter lower_hex mem_env honest_network (\<lambda>_ xs. xs) (\<lambda>_. client_uuid)
      one_peer empty_validator = (t, spawned, Inr ())"
    "set spawned = {cd_certificate cd |cid cd. cid \<in> missing_ids ?v ?v' \<and> fv_certificates ?v' cid = Some cd}"
    using honest_peer_catches_up [OF empty_validator_readable one_validator_readable wf subnet_iter_laws subnet_iter_laws
        iter_laws(2) lower_hex_laws, where shuffle = "\<lambda>_ xs. xs" and ids = "\<lambda>_. client_uuid" and g = one_peer and peer = 5]
    by blast
  have positions: "source_positions ?v' u = (if u = example_source then {7} else {})" for u
    by (auto simp: v' source_positions_def deliver_view_def example_delivered_def Let_def example_subnets empty_view_def)
  have "missing_ids ?v ?v' = {cert_id (example_certificate 1)}"
    unfolding missing_ids_def positions
    by (auto simp: v v' deliver_view_def example_delivered_def Let_def example_subnets empty_view_def split: if_splits)
  then have "set spawned = {example_certificate 1}"
    unfolding run(2) by (auto simp: v' deliver_view_def example_delivered_def Let_def)
  with run(1) show ?thesis by blast
qed

end
