(* ===== verification/Application_Examples.thy ===== *)
theory Application_Examples
  imports App_Context Broadcast_Examples Edge_Examples
begin

text \<open>
  Concrete messages, stores and clients: the witnesses of the properties of the calls of a node and
  of its application.
\<close>

section \<open>A validator and its peer\<close>

text \<open>Signatures that are a check sum of the key and the message, and messages that are their own encoding.\<close>

definition check_sum :: "bytes \<Rightarrow> u64" where
  "check_sum b = sum_list (map ucast b)"

definition sum_ethers :: "(bytes, u64, u64) ethers" where
  "sum_ethers =
     \<lparr>LocalWallet_from_bytes = Some,
      LocalWallet_address = id,
      LocalWallet_sign_hash = (\<lambda>w h. Some (check_sum w + h)),
      hash_message = check_sum,
      Signature_verify = (\<lambda>s m a. s = check_sum a + check_sum m)\<rparr>"

definition sum_types :: "(u8, u64) eth_types" where
  "sum_types =
     \<lparr>U256_from_big_endian = (\<lambda>b. if 32 < length b then None else Some (if b = [] then 0 else last b)),
      U256_to_big_endian = (\<lambda>u. [u]),
      Signature_new = (\<lambda>r s v. v), Signature_r = (\<lambda>_. 0), Signature_s = (\<lambda>_. 0), Signature_v = (\<lambda>g. g)\<rparr>"

definition toy_prost :: "proto_double_echo_request option toy_wire prost_codec" where
  "toy_prost = \<lparr>encode_to_vec = ToyRequest,
     decode_request = (\<lambda>b. case b of ToyRequest m \<Rightarrow> Some m | ToyBatch _ \<Rightarrow> None)\<rparr>"

lemma toy_application_laws: "ethers_laws sum_ethers" "eth_types_laws sum_types" "prost_laws toy_prost"
  by (simp_all add: ethers_laws_def sum_ethers_def eth_types_laws_def sum_types_def prost_laws_def toy_prost_def)

abbreviation sum_signer :: "bytes message_signer" where
  "sum_signer \<equiv> \<lparr>public_address = replicate 20 1, wallet = replicate 20 1\<rparr>"

abbreviation sum_validator :: validator_id where
  "sum_validator \<equiv> ValidatorId (replicate 20 1)"

definition sum_signature :: u64 where
  "sum_signature = the (sign_message sum_ethers sum_signer (signed_payload lone_id sum_validator))"

definition sum_events :: "u64 protocol_event list" where
  "sum_events = bs_events (broadcast_state_new lone_certificate sum_validator 1 1 1 (full_view {sum_validator}) True
     (sign_message sum_ethers sum_signer))"

lemma sum_events_eq:
  "sum_events = [EvBroadcast lone_id, EvGossip lone_certificate, EvEcho lone_id sum_signature sum_validator]"
  by (simp add: sum_events_def broadcast_state_new_def update_status_def Let_def sum_signature_def sign_message_def
      sum_ethers_def)

lemma sum_events_honest: "\<forall>ev \<in> set sum_events. honest_event sum_ethers sum_signer ev"
proof
  fix ev assume "ev \<in> set sum_events"
  then have "ev \<in> set (bs_events (apply_messages lower_hex [] (broadcast_state_new lone_certificate
      (ValidatorId (public_address sum_signer)) 1 1 1 (full_view {sum_validator}) True (sign_message sum_ethers sum_signer))))"
    by (simp add: sum_events_def)
  with chain_certificate_wf [OF chain_ids(2), of 7] show "honest_event sum_ethers sum_signer ev"
    unfolding honest_event_def by blast
qed

theorem honest_message_accepted_witness:
  "\<exists>msgs b'. app_run toy_prost lower_hex sum_types mem_env (map InNetwork (net_events toy_batch_codec (5 :: nat) msgs))
       (app_context_new empty_validator) = (b', AppRunning) \<and>
     mset (app_commands b') = {#CmdBroadcast False lone_certificate, CmdEcho sum_validator lone_id sum_signature#}"
proof -
  let ?pub = "app_published (fold (on_protocol_event toy_prost sum_types) sum_events (app_context_new empty_validator))"
  let ?acts = "map (\<lambda>(t, d). GossipCommand t d) ?pub"
  have acts: "gossip_commands ?acts = ?pub" by (simp add: gossip_commands_def List.map_filter_def comp_def case_prod_beta)
  have signer: "message_signer_new sum_ethers (replicate 20 1) = Inr sum_signer"
    by (simp add: message_signer_new_def sum_ethers_def)
  have size: "length sum_events \<le> 1 * (case Some 3 of Some n \<Rightarrow> n | None \<Rightarrow> 10)" by (simp add: sum_events_eq)
  obtain g msgs where run: "gossip_run toy_batch_codec (?acts @ replicate 1 GossipTick) (gossip_new (Some 3)) = (g, msgs)"
    by (cases "gossip_run toy_batch_codec (?acts @ replicate 1 GossipTick) (gossip_new (Some 3))")
  have "length (public_address sum_signer) = VALIDATOR_ID_LENGTH" "ValidatorId (public_address sum_signer) \<in> {sum_validator}"
    by (simp_all add: VALIDATOR_ID_LENGTH_def)
  from honest_message_accepted [OF toy_application_laws(3,2) toy_batch_laws toy_application_laws(1) signer this
      sum_events_honest acts size run, of lower_hex mem_env 5 "app_context_new empty_validator"]
  show ?thesis by (auto simp: sum_events_eq List.map_filter_simps app_context_new_def)
qed

theorem gossip_panics_application_witness:
  "snd (on_net_event toy_prost lower_hex sum_types
     (NetGossip (5 :: nat) (ToyRequest (Some (ProtoGossip (Some ((certificate_to_proto (example_certificate 1))\<lparr>pc_proof := None\<rparr>))))))
     (app_context_new empty_validator)) = AppPanicked"
proof -
  let ?c = "certificate_to_proto (example_certificate 1)"
  have "certificate_from_proto lower_hex ?c = Inr (example_certificate 1)"
    by (rule certificate_round_trip [OF wf_example_certificate])
  moreover have "?c = ?c\<lparr>pc_proof := Some [], pc_signature := Some []\<rparr>"
    by (simp add: certificate_to_proto_def example_certificate_def new_with_default_fields_def Let_def)
  ultimately have "certificate_from_proto lower_hex (?c\<lparr>pc_proof := None\<rparr>\<lparr>pc_proof := Some [], pc_signature := Some []\<rparr>) =
      Inr (example_certificate 1)" by simp
  then show ?thesis
    unfolding conjunct1 [OF gossip_panics_application [OF lower_hex_laws]]
    by (simp add: toy_prost_def)
qed

section \<open>Clients\<close>

lemma app_context_new_simps: "app_store (app_context_new s) = s" "app_commands (app_context_new s) = []"
  by (simp_all add: app_context_new_def)


theorem source_head_reaches_sequencer_witness:
  "\<exists>head. worker_source_head example_source (Inr [example_source \<mapsto> None]) (reply_result (client_get_source_head lower_hex example_source
       (map_err (\<lambda>_. []) (snd (grpc_get_source_head (Some (subnet_id_to_proto example_source)) True
         (Some (source_head_reply mem_env example_source one_validator))))))) = Inr head \<and>
     launch_source_head head = Some (cert_id (example_certificate 1), 7)"
proof -
  let ?v = "fullnode_view mem_env (vs_fullnode one_validator)"
  have v: "?v = deliver_view (example_delivered 1 7) empty_view" using one_fullnode_ready(3) by (simp add: one_validator_def)
  have wf: "\<forall>cid cd. fv_certificates ?v cid = Some cd \<longrightarrow> wf_certificate (cd_certificate cd)"
    using wf_example_certificate [of 1] by (auto simp: v deliver_view_def Let_def empty_view_def example_delivered_def)
  have req: "client_request (GetSourceHead example_source) = Some (GetSourceHeadRequest (Some (subnet_id_to_proto example_source)))"
    by simp
  have head: "fv_source_list ?v example_source = Some (cert_id (example_certificate 1), 7)"
    by (simp add: v deliver_view_def Let_def empty_view_def example_delivered_def example_subnets)
  have "cert_id (example_certificate 1) \<noteq> INITIAL_CERTIFICATE_ID"
    by (simp add: example_certificate_def new_with_default_fields_def Let_def INITIAL_CERTIFICATE_ID_def calculate_cert_id_def
        calculate_hash_def toy_keccak_def cert_id_buffer_def sum_list_replicate be_bytes32_def id_lengths)
  with source_head_reaches_sequencer [OF one_validator_readable example_subnets(3) req wf, of "[example_source \<mapsto> None]" lower_hex "\<lambda>_. []"] head
  show ?thesis by auto
qed

text \<open>A store with one pending certificate.\<close>

definition pending_validator :: "mem_value mem_db validator_store" where
  "pending_validator = fst (insert_pending_certificate mem_env lone_certificate empty_validator)"

lemma pending_validator_lookup:
  "get_pending_certificates_for_subnets mem_env [example_source] pending_validator =
     Some (Inr [example_source \<mapsto> (1, Some lone_certificate)])"
proof -
  have "delivered_of mem_env empty_validator (cert_id lone_certificate) = None"
    by (simp add: empty_validator_views) (simp add: empty_view_def)
  note s = insert_pending_pooled [OF empty_validator_ready mem_env_reliable chain_certificate_wf [OF chain_ids(2)] this,
      folded pending_validator_def, unfolded chain_certificate_simps, OF refl]
  have ready: "pending_ready mem_env (vs_pending pending_validator)" using s(1) by (simp add: validator_ready_def)
  let ?col = "pending_pool_col (env_bincode mem_env)"
  note spec = column_items_spec [OF pending_laws(1) [OF ready] table_laws(8) [OF pending_laws(2) [OF ready]]
      pending_columns_ready(1) [OF ready]]
  have "pv_pool (pending_of mem_env pending_validator) = [0 \<mapsto> lone_certificate]"
    using s(4) by (simp add: empty_validator_views)
  then have "map_of (column_items (env_rocks mem_env) ?col (vs_pending pending_validator)) = [0 \<mapsto> lone_certificate]"
    using spec(1) by (simp add: pending_view_def)
  then have items: "column_items (env_rocks mem_env) ?col (vs_pending pending_validator) = [(0, lone_certificate)]"
    using spec(3) map_of_single_distinct by metis
  have "follow_precedence mem_env (vs_pending pending_validator) lone_certificate 1 = Some (Inr (1, lone_certificate))"
    using chain_ids(1) by (simp add: follow_precedence_step [OF ready mem_env_reliable] s(4) empty_validator_views)
  then show ?thesis
    by (simp add: get_pending_certificates_for_subnets_def db_column_iter_eq [OF pending_columns_ready(1) [OF ready]] items fun_eq_iff)
qed

theorem pending_answer_reaches_sequencer_witness:
  "\<exists>entries. grpc_get_last_pending_certificates (\<lambda>b. b) subnet_iter mem_env [subnet_id_to_proto example_source]
       pending_validator = Some (Inr entries) \<and>
     client_get_last_pending_certificates Some lower_hex example_source (Inr entries) =
       Replied (Inr [example_source \<mapsto> Some (lone_certificate, 1)])"
proof -
  have req: "client_request (GetLastPendingCertificates [example_source]) =
      Some (GetLastPendingCertificatesRequest [subnet_id_to_proto example_source])" by simp
  have wf: "\<forall>u \<in> set [example_source]. wf_subnet_id u" "\<forall>b :: bytes. Some b = Some b"
    "\<forall>u n c. [example_source \<mapsto> (1, Some lone_certificate)] u = Some (n, Some c) \<longrightarrow> wf_certificate c"
    using example_subnets(3) chain_certificate_wf [OF chain_ids(2)] by auto
  have eq: "(\<lambda>u. map_option (\<lambda>(n, c). map_option (\<lambda>c. (c, n)) c) ([example_source \<mapsto> (1, Some lone_certificate)] u)) =
      [example_source \<mapsto> Some (lone_certificate, 1)]" by auto
  from pending_answer_reaches_sequencer [OF req wf(1) subnet_iter_laws wf(2) pending_validator_lookup wf(3),
      of lower_hex example_source] show ?thesis unfolding eq .
qed

end
