(* ===== verification/Spec2Isabelle.thy ===== *)
theory Spec2Isabelle
  imports Task_Manager_Channels Clock Application_Examples
begin

text \<open>
  A verification of Topos (\<^verbatim>\<open>src/crates\<close>): the nodes of the transmission control engine (TCE), which
  deliver certificates of subnets to each other by a reliable broadcast, store them and push them
  to clients, and the sequencers, which certify the blocks of a subnet and submit the certificates
  to a node.

  \<^bold>\<open>The parts of the program and the theories.\<close>

  \<^item> \<open>Prelude\<close>: machine integers, results, checked arithmetic, hash iteration orders, and the facts
    about lists, maps and words that the other theories share.
  \<^item> \<open>Crypto\<close> (\<^verbatim>\<open>topos-crypto\<close>): hashing, keys, signatures of certificates and of messages.
  \<^item> \<open>Uci\<close> (\<^verbatim>\<open>topos-uci\<close>): certificates, their ids and payloads, subnet ids and their texts.
  \<^item> \<open>Core_Types\<close> (\<^verbatim>\<open>topos-core\<close>): positions, proofs of delivery, delivered certificates.
  \<^item> \<open>Grpc_Conversions\<close> (\<^verbatim>\<open>topos-api/src/grpc\<close>): the messages and the conversions from and to them.
  \<^item> \<open>Transport\<close> (\<^verbatim>\<open>topos-tce-transport\<close>): the thresholds and the events of the protocol.
  \<^item> \<open>Broadcast_State\<close> (\<^verbatim>\<open>topos-tce-broadcast/src/double_echo/broadcast_state.rs\<close>): the state machine of
    one certificate.
  \<^item> \<open>Rocks\<close>, \<open>Tables\<close>, \<open>Reference_Store\<close>, \<open>Store\<close>, \<open>Full_Node\<close>, \<open>Full_Node_Reads\<close>, \<open>Validator_Store\<close>,
    \<open>Validator_Props\<close>, \<open>Validator_Sync\<close> (\<^verbatim>\<open>topos-tce-storage\<close>): columns and batches over a database,
    the tables, the interface of the stores as locales, and the two stores with their reads.
  \<^item> \<open>Task_Manager\<close>, \<open>Task_Manager_Safety\<close>, \<open>Task_Manager_Limits\<close>, \<open>Task_Manager_Channels\<close>
    (\<^verbatim>\<open>topos-tce-broadcast/src/task_manager_futures\<close> and \<^verbatim>\<open>task_manager_channels\<close>): the tasks of the
    certificates in broadcast and the manager that routes messages to them.
  \<^item> \<open>Double_Echo\<close> (\<^verbatim>\<open>topos-tce-broadcast/src/double_echo/mod.rs\<close>): the handlers of commands and the node
    that connects them with the manager. \<open>Broadcast_Examples\<close> has its concrete runs.
  \<^item> \<open>Gatekeeper\<close> (\<^verbatim>\<open>topos-tce-gatekeeper\<close>) and \<open>Clock\<close> (\<^verbatim>\<open>topos-clock\<close>).
  \<^item> \<open>Synchronizer\<close> (\<^verbatim>\<open>topos-tce-synchronizer\<close>): the service for peers and the collector.
  \<^item> \<open>Tce_Api\<close>, \<open>Tce_Api_Runtime\<close> (\<^verbatim>\<open>topos-tce-api\<close>, \<^verbatim>\<open>topos-tce-storage/src/client.rs\<close>): the streams of the
    clients, the task that catches a client up, and the runtime with its subscriptions. \<open>Grpc_Service\<close>
    has the calls of the node (\<^verbatim>\<open>grpc/mod.rs\<close>).
  \<^item> \<open>Gossip\<close> (\<^verbatim>\<open>topos-p2p\<close>): the queues and batches in which protocol messages travel.
  \<^item> \<open>App_Context\<close> (\<^verbatim>\<open>topos-tce/src/app_context\<close>): the loop of a node, which connects the client
    interface, the network, the broadcast and the stores. \<open>Application_Examples\<close> has its concrete runs.
  \<^item> \<open>Sequencer\<close> (\<^verbatim>\<open>topos-sequencer-subnet-client\<close>, \<^verbatim>\<open>topos-sequencer-subnet-runtime\<close>) and \<open>Tce_Proxy\<close>
    (\<^verbatim>\<open>topos-tce-proxy\<close>, \<^verbatim>\<open>topos-sequencer\<close>): certification of blocks and the way of a certificate from a
    block to a node and from a node to the contract. \<open>Edge_Examples\<close> has the concrete clients and peers.

  \<^bold>\<open>How the code is modelled.\<close> A struct is a record and an enum a datatype with the constructors of
  the source, prefixed where two enums share a name. A \<open>Result\<close> is a sum with the error on the left,
  and a function that may panic has the error type \<open>'e failure\<close> with the value \<open>Panic\<close>; \<open>?\<close> is
  \<open>and_then\<close>. Handlers take their state and return it. Integers keep their width: positions and
  pending ids are 64-bit words, and their increments are the checked or wrapping ones of the source.
  A \<open>HashMap\<close> is a partial function or, where it is iterated, has its iteration order as an argument
  with \<open>hash_iter_laws\<close>. Channels are lists or numbers; a bounded channel that can block is
  explicit in \<open>Task_Manager\<close>. The interleavings of a \<open>select!\<close> loop and its tasks are an inductive
  step relation (\<open>tm_step\<close>, \<open>node_run\<close>) or a list of inputs in any order (\<open>api_run\<close>,
  \<open>app_run\<close>, \<open>gossip_run\<close>, \<open>clock_run\<close>).

  \<^bold>\<open>Parameters.\<close> Libraries are arguments with the laws the code relies on: \<open>keccak_laws\<close>, \<open>secp_laws\<close>,
  \<open>ethers_laws\<close>, \<open>eth_types_laws\<close>, \<open>hex_laws\<close>, \<open>rocksdb_laws\<close> with \<open>rocksdb_reliable\<close> for a database without
  I/O errors, \<open>bincode_laws\<close>, \<open>batch_laws\<close> and \<open>prost_laws\<close> for the messages on the wire, and the answers of the Ethereum node and of the peers. Each law has an
  instance (\<open>mem_env\<close>, \<open>toy_ethers\<close>, \<open>lower_hex\<close> and others) on which the witnesses evaluate.

  \<^bold>\<open>What is shown.\<close>

  \<^item> Broadcast: the status of a broadcast is the one the protocol prescribes for the validators
    heard, deliveries carry a quorum of distinct validators, the events are exact, echo quorums
    intersect in an honest validator; along every run of the manager a stored certificate has a
    quorum and follows its predecessor; a published certificate carries verified signatures.
  \<^item> Storage: an insertion refines the update of the maps of the store on every branch and keeps
    the consistency of streams, heads and lists; stores are interpreted as instances of the
    locales of \<open>Store\<close>; reads return the stream from a position; pending certificates are promoted.
  \<^item> Interfaces: conversions of certificates are well-formed and exact; the dispatch of the runtime
    refines the subscriptions of the history; a client is caught up from its checkpoint; what an
    honest and what a dishonest peer can make a node store.
  \<^item> Between nodes and clients: batching keeps every message and its order; what a validator sends is
    decoded and authenticated by its peers; a submitted certificate is broadcast; the head and the
    pending certificates of a subnet reach its sequencer as the store has them.
  \<^item> Sequencer: the certificates of a sequencer form one chain over consecutive blocks, and a
    certificate reaches the contract unchanged.
  \<^item> Limits of the code, as theorems: certificates that share an id, messages that stop a node, a
    deadlock of the manager, a lookup that does not end, a checkpoint difference that is empty,
    unverified synchronisation.

  \<^bold>\<open>Bounds and termination.\<close> Recursive functions are total, except \<open>follow_precedence\<close>, a
  \<open>partial_function (option)\<close> whose value \<open>None\<close> is a loop that does not end; it is shown to end on an
  acyclic pool. No fuel is used. Runs are finite lists of inputs or inductive.

  \<^bold>\<open>Not modelled.\<close> Libp2p networking (\<^verbatim>\<open>topos-p2p\<close> but for the gossip behaviour: behaviours of the
  library), the shutdown of tasks, the command line,
  configuration and wallet (\<^verbatim>\<open>topos\<close>, \<^verbatim>\<open>topos-wallet\<close>: files and processes), metrics and telemetry
  (no behaviour depends on them), the GraphQL and console services and the set-up of servers
  (wrappers of libraries), generated service stubs, the load generator and the test kit, the unused
  \<^verbatim>\<open>topos-tce-storage/src/rocks.rs\<close> storage, retries and backoff of connections, and time except as the
  ticks that drive the loops.
\<close>

end
